(* ===== verification/Prelude.thy ===== *)
theory Prelude
  imports Main "HOL-Library.Word" "HOL-Library.Char_ord" "HOL-Library.List_Lexorder"
    "HOL-Library.Multiset"
begin

text \<open>
  The vocabulary shared by every component: Go's machine integers, its \<^verbatim>\<open>time.Time\<close>, its
  byte strings with \<^verbatim>\<open>utf8.ValidString\<close>, the two shapes of fallible results (an optional
  error for \<^verbatim>\<open>error\<close>, a sum for \<^verbatim>\<open>(T, error)\<close>), and the generic lemmas on words, lists
  and results that the component theories rely on.
\<close>

unbundle bit_operations_syntax

named_theorems go_defs \<open>definitions of the Go library model, unfolded to evaluate it\<close>

section \<open>Machine integers\<close>

type_synonym u8 = "8 word"
type_synonym u16 = "16 word"
type_synonym u32 = "32 word"
type_synonym u64 = "64 word"

definition MaxInt64 :: u64 where
  "MaxInt64 = 9223372036854775807"

definition MaxUint64 :: u64 where
  "MaxUint64 = - 1"

lemma unat_MaxInt64: "unat MaxInt64 = 2 ^ 63 - 1"
  by (simp add: MaxInt64_def)

lemma unat_MaxUint64: "unat MaxUint64 = 2 ^ 64 - 1"
  by (simp add: MaxUint64_def unat_eq_nat_uint uint_word_ariths)

lemma unat_inc:
  fixes x :: "'a::len word"
  assumes "x \<noteq> - 1"
  shows "unat (x + 1) = Suc (unat x)"
  using assms by (metis add.inverse_unique add.commute unatSuc)

lemma unat_inc_less:
  fixes x :: "'a::len word"
  assumes "x < y"
  shows "unat (x + 1) = Suc (unat x)"
proof (rule unat_inc)
  show "x \<noteq> - 1" using assms by (metis leD word_order.extremum)
qed

lemma u64_zero_iff: "(x :: u64) = 0 \<longleftrightarrow> unat x = 0"
  by (simp add: unat_eq_0)

section \<open>Time\<close>

text \<open>
  An instant of \<^verbatim>\<open>time.Time\<close> is the number of nanoseconds since its zero value (1 January
  of year 1, UTC), so \<^verbatim>\<open>IsZero\<close> is equality with 0 and \<^verbatim>\<open>Before\<close>, \<^verbatim>\<open>After\<close> and
  \<^verbatim>\<open>Equal\<close> are the order and equality of \<^typ>\<open>int\<close>.
\<close>

type_synonym time = int

definition IsZero :: "time \<Rightarrow> bool" where
  "IsZero t \<longleftrightarrow> t = 0"

definition unix_epoch :: time where
  "unix_epoch = 62135596800 * 1000000000"

definition UnixMicro :: "time \<Rightarrow> int" where
  "UnixMicro t = (t - unix_epoch) div 1000"

definition Second :: int where "Second = 1000000000"
definition Minute :: int where "Minute = 60 * Second"

lemma IsZero_zero [simp]: "IsZero 0"
  by (simp add: IsZero_def)

lemma UnixMicro_pos_not_zero: "0 < UnixMicro t \<Longrightarrow> \<not> IsZero t"
  by (auto simp: UnixMicro_def unix_epoch_def IsZero_def)

section \<open>Byte strings\<close>

text \<open>
  A Go \<^verbatim>\<open>string\<close> is a sequence of bytes, as is \<^typ>\<open>string\<close>; the order of
  \<^verbatim>\<open>List_Lexorder\<close> over \<^verbatim>\<open>Char_ord\<close> is Go's byte-wise comparison. The validity check
  follows the table of \<^verbatim>\<open>unicode/utf8\<close>: the first byte fixes the length and the range of
  the second byte, every later byte is a continuation byte.
\<close>

definition cont_byte :: "nat \<Rightarrow> bool" where
  "cont_byte b \<longleftrightarrow> 128 \<le> b \<and> b \<le> 191"

definition utf8_second :: "nat \<Rightarrow> nat \<times> nat" where
  "utf8_second b =
     (if b = 224 then (160, 191) else if b = 237 then (128, 159)
      else if b = 240 then (144, 191) else if b = 244 then (128, 143) else (128, 191))"

fun utf8_valid :: "nat list \<Rightarrow> bool" where
  "utf8_valid [] = True"
| "utf8_valid (b # bs) =
     (if b < 128 then utf8_valid bs
      else if 194 \<le> b \<and> b \<le> 223 then
        (case bs of c # r \<Rightarrow> cont_byte c \<and> utf8_valid r | _ \<Rightarrow> False)
      else if 224 \<le> b \<and> b \<le> 239 then
        (case bs of c # d # r \<Rightarrow>
           fst (utf8_second b) \<le> c \<and> c \<le> snd (utf8_second b) \<and> cont_byte d \<and> utf8_valid r
         | _ \<Rightarrow> False)
      else if 240 \<le> b \<and> b \<le> 244 then
        (case bs of c # d # e # r \<Rightarrow>
           fst (utf8_second b) \<le> c \<and> c \<le> snd (utf8_second b) \<and> cont_byte d \<and> cont_byte e
           \<and> utf8_valid r
         | _ \<Rightarrow> False)
      else False)"

definition ValidString :: "string \<Rightarrow> bool" where
  "ValidString s = utf8_valid (map of_char s)"

lemma utf8_valid_ascii: "\<forall>b \<in> set bs. b < 128 \<Longrightarrow> utf8_valid bs"
  by (induction bs) auto

lemma ValidString_ascii:
  assumes "\<forall>c \<in> set s. of_char c < (128 :: nat)"
  shows "ValidString s"
  unfolding ValidString_def using assms by (intro utf8_valid_ascii) auto

section \<open>Results\<close>

text \<open>
  A Go function returning only an \<^verbatim>\<open>error\<close> yields \<^term>\<open>None\<close> for \<^verbatim>\<open>nil\<close>; one returning
  \<^verbatim>\<open>(T, error)\<close> yields \<^term>\<open>Inl e\<close> or \<^term>\<open>Inr v\<close>. The first failing element of a loop
  that validates a slice is found by \<open>first_err\<close>.
\<close>

type_synonym 'e check = "'e option"

definition or_else :: "'e option \<Rightarrow> 'e option \<Rightarrow> 'e option" where
  "or_else a b = (case a of None \<Rightarrow> b | Some e \<Rightarrow> Some e)"

fun first_err :: "('a \<Rightarrow> 'e option) \<Rightarrow> 'a list \<Rightarrow> 'e option" where
  "first_err f [] = None"
| "first_err f (x # xs) = (case f x of None \<Rightarrow> first_err f xs | Some e \<Rightarrow> Some e)"

definition bind_result :: "'e + 'a \<Rightarrow> ('a \<Rightarrow> 'e + 'b) \<Rightarrow> 'e + 'b" where
  "bind_result r f = (case r of Inl e \<Rightarrow> Inl e | Inr v \<Rightarrow> f v)"

definition map_err :: "('e \<Rightarrow> 'f) \<Rightarrow> 'e + 'a \<Rightarrow> 'f + 'a" where
  "map_err f r = (case r of Inl e \<Rightarrow> Inl (f e) | Inr v \<Rightarrow> Inr v)"

lemma or_else_None_iff [simp]: "or_else a b = None \<longleftrightarrow> a = None \<and> b = None"
  by (auto simp: or_else_def split: option.splits)

lemma first_err_None_iff [simp]: "first_err f xs = None \<longleftrightarrow> (\<forall>x \<in> set xs. f x = None)"
  by (induction xs) (auto split: option.splits)

lemma first_err_SomeD: "first_err f xs = Some e \<Longrightarrow> \<exists>x \<in> set xs. f x = Some e"
  by (induction xs) (auto split: option.splits)

lemma bind_result_simps [simp]:
  "bind_result (Inl e) f = Inl e" "bind_result (Inr v) f = f v"
  by (simp_all add: bind_result_def)

lemma bind_result_Inr_iff [simp]:
  "bind_result r f = Inr y \<longleftrightarrow> (\<exists>x. r = Inr x \<and> f x = Inr y)"
  by (cases r) auto

lemma map_err_simps [simp]:
  "map_err f (Inl e) = Inl (f e)" "map_err f (Inr v) = Inr v"
  by (simp_all add: map_err_def)

lemma map_err_Inr_iff [simp]: "map_err f r = Inr v \<longleftrightarrow> r = Inr v"
  by (cases r) auto

section \<open>Lists\<close>

text \<open>The duplicate test of Go loops that keep a \<^verbatim>\<open>seen\<close> map and stop at the first repetition.\<close>

fun first_dup :: "'a list \<Rightarrow> 'a list \<Rightarrow> 'a option" where
  "first_dup seen [] = None"
| "first_dup seen (x # xs) = (if x \<in> set seen then Some x else first_dup (x # seen) xs)"

lemma first_dup_None_iff:
  "first_dup seen xs = None \<longleftrightarrow> distinct xs \<and> set seen \<inter> set xs = {}"
  by (induction xs arbitrary: seen) auto

fun adjacent_dup :: "'a list \<Rightarrow> bool" where
  "adjacent_dup (x # y # zs) = (x = y \<or> adjacent_dup (y # zs))"
| "adjacent_dup _ = False"

text \<open>
  In a list sorted by an injective key equal elements are neighbours, so the adjacent test
  that Go code runs after \<^verbatim>\<open>sort.Slice\<close> finds every duplicate.
\<close>

lemma adjacent_dup_sorted:
  assumes "sorted (map f xs)" and "inj_on f (set xs)"
  shows "adjacent_dup xs \<longleftrightarrow> \<not> distinct xs"
  using assms
proof (induction xs rule: adjacent_dup.induct)
  case (1 x y zs)
  then have IH: "adjacent_dup (y # zs) \<longleftrightarrow> \<not> distinct (y # zs)"
    by (auto simp: inj_on_def)
  have "x \<in> set zs \<Longrightarrow> x = y"
  proof -
    assume "x \<in> set zs"
    with "1.prems"(1) have "f x \<le> f y" "f y \<le> f x" by auto
    then have "f x = f y" by simp
    with "1.prems"(2) show "x = y" by (meson inj_onD list.set_intros)
  qed
  with IH show ?case by auto
qed auto

lemma sort_key_permutes:
  assumes "mset xs = mset ys" and "inj_on f (set xs)"
  shows "sort_key f xs = sort_key f ys"
proof -
  have eq: "mset (sort_key f xs) = mset (sort_key f ys)" using assms(1) by simp
  have "mset (map f (sort_key f xs)) = mset (map f (sort_key f ys))"
    using eq by simp
  then have "map f (sort_key f xs) = map f (sort_key f ys)"
    by (metis properties_for_sort sorted_sort_key)
  moreover have "inj_on f (set (sort_key f xs) \<union> set (sort_key f ys))"
    using assms by (metis set_mset_mset set_sort sup.idem)
  ultimately show ?thesis by (rule map_inj_on)
qed

end
