(* ===== verification/Netip.thy ===== *)
theory Netip
  imports Prelude
begin

text \<open>
  The part of Go's \<^verbatim>\<open>net/netip\<close> the program uses: addresses of both families, prefixes, their
  canonical (masked) form, containment, overlap and the textual form that fixes the order of
  every sorted prefix list. Containment is characterised bit by bit, which is what the
  coverage proofs of the policy component use.
\<close>

section \<open>Addresses\<close>

text \<open>The zero \<^verbatim>\<open>Addr\<close>, an IPv4 address, or an IPv6 address with its (possibly empty) zone.\<close>

datatype Addr = InvalidAddr | Addr4 "32 word" | Addr6 "128 word" string

fun BitLen :: "Addr \<Rightarrow> nat" where
  "BitLen InvalidAddr = 0"
| "BitLen (Addr4 _) = 32"
| "BitLen (Addr6 _ _) = 128"

fun Is4 :: "Addr \<Rightarrow> bool" where
  "Is4 (Addr4 _) = True"
| "Is4 _ = False"

fun Zone :: "Addr \<Rightarrow> string" where
  "Zone (Addr6 _ z) = z"
| "Zone _ = ''''"

definition Addr_IsValid :: "Addr \<Rightarrow> bool" where
  "Addr_IsValid a \<longleftrightarrow> a \<noteq> InvalidAddr"

fun withoutZone :: "Addr \<Rightarrow> Addr" where
  "withoutZone (Addr6 w _) = Addr6 w ''''"
| "withoutZone a = a"

fun addr_bit :: "Addr \<Rightarrow> nat \<Rightarrow> bool" where
  "addr_bit InvalidAddr i = False"
| "addr_bit (Addr4 w) i = bit w i"
| "addr_bit (Addr6 w _) i = bit w i"

text \<open>Keep the leading \<open>b\<close> bits of an address.\<close>

fun mask_addr :: "nat \<Rightarrow> Addr \<Rightarrow> Addr" where
  "mask_addr b InvalidAddr = InvalidAddr"
| "mask_addr b (Addr4 w) = Addr4 (w AND NOT (mask (32 - b)))"
| "mask_addr b (Addr6 w z) = Addr6 (w AND NOT (mask (128 - b))) z"

text \<open>Set the bit that follows the leading \<open>b\<close> bits.\<close>

fun set_next_bit :: "nat \<Rightarrow> Addr \<Rightarrow> Addr" where
  "set_next_bit b InvalidAddr = InvalidAddr"
| "set_next_bit b (Addr4 w) = Addr4 (w OR push_bit (31 - b) 1)"
| "set_next_bit b (Addr6 w z) = Addr6 (w OR push_bit (127 - b) 1) z"

lemma BitLen_cases: "BitLen a = 0 \<or> BitLen a = 32 \<or> BitLen a = 128"
  by (cases a) auto

lemma BitLen_0_iff [simp]: "BitLen a = 0 \<longleftrightarrow> a = InvalidAddr"
  by (cases a) auto

lemma Is4_iff_BitLen: "Is4 a \<longleftrightarrow> BitLen a = 32"
  by (cases a) auto

lemma addr_bit_beyond: "BitLen a \<le> i \<Longrightarrow> \<not> addr_bit a i"
  by (cases a) (auto dest: bit_imp_le_length)

lemma addr_eqI:
  assumes "BitLen a = BitLen b" and "Zone a = Zone b"
    and "\<And>i. i < BitLen a \<Longrightarrow> addr_bit a i = addr_bit b i"
  shows "a = b"
  using assms by (cases a; cases b) (auto intro!: bit_word_eqI)

lemma mask_addr_shape [simp]:
  "BitLen (mask_addr b a) = BitLen a" "Zone (mask_addr b a) = Zone a"
  "mask_addr b a = InvalidAddr \<longleftrightarrow> a = InvalidAddr"
  by (cases a; simp)+

lemma addr_bit_mask_addr:
  "i < BitLen a \<Longrightarrow> addr_bit (mask_addr b a) i \<longleftrightarrow> BitLen a - b \<le> i \<and> addr_bit a i"
  by (cases a) (auto simp: bit_simps)

lemma set_next_bit_shape [simp]:
  "BitLen (set_next_bit b a) = BitLen a" "Zone (set_next_bit b a) = Zone a"
  by (cases a; simp)+

lemma addr_bit_set_next_bit:
  "b < BitLen a \<Longrightarrow> i < BitLen a \<Longrightarrow>
     addr_bit (set_next_bit b a) i \<longleftrightarrow> addr_bit a i \<or> i = BitLen a - 1 - b"
  by (cases a) (auto simp: bit_simps)

section \<open>Prefixes\<close>

text \<open>
  A prefix is an address and \<^verbatim>\<open>bitsPlusOne\<close>, as in Go; 0 marks an invalid prefix. A valid
  prefix has an address without zone and no more bits than the address is long; that is what
  the only constructor, \<open>PrefixFrom\<close>, produces.
\<close>

datatype Prefix = Prefix (pfx_addr: Addr) (bitsPlusOne: nat)

definition zero_prefix :: Prefix where
  "zero_prefix = Prefix InvalidAddr 0"

definition pfx_bits :: "Prefix \<Rightarrow> nat" where
  "pfx_bits p = bitsPlusOne p - 1"

definition Bits :: "Prefix \<Rightarrow> int" where
  "Bits p = int (bitsPlusOne p) - 1"

definition Prefix_IsValid :: "Prefix \<Rightarrow> bool" where
  "Prefix_IsValid p \<longleftrightarrow>
     0 < bitsPlusOne p \<and> pfx_addr p \<noteq> InvalidAddr \<and> Zone (pfx_addr p) = ''''
     \<and> pfx_bits p \<le> BitLen (pfx_addr p)"

definition PrefixFrom :: "Addr \<Rightarrow> nat \<Rightarrow> Prefix" where
  "PrefixFrom a b =
     Prefix (withoutZone a) (if a \<noteq> InvalidAddr \<and> b \<le> BitLen a then Suc b else 0)"

definition Masked :: "Prefix \<Rightarrow> Prefix" where
  "Masked p =
     (if Prefix_IsValid p then PrefixFrom (mask_addr (pfx_bits p) (pfx_addr p)) (pfx_bits p)
      else zero_prefix)"

text \<open>The test the program writes as \<^verbatim>\<open>p.IsValid() && p == p.Masked()\<close>.\<close>

definition canonical :: "Prefix \<Rightarrow> bool" where
  "canonical p \<longleftrightarrow> Prefix_IsValid p \<and> p = Masked p"

fun same_leading :: "nat \<Rightarrow> Addr \<Rightarrow> Addr \<Rightarrow> bool" where
  "same_leading b (Addr4 v) (Addr4 w) = (drop_bit (32 - b) (v XOR w) = 0)"
| "same_leading b (Addr6 v _) (Addr6 w _) = ((v XOR w) AND NOT (mask (128 - b)) = 0)"
| "same_leading b _ _ = False"

definition Contains :: "Prefix \<Rightarrow> Addr \<Rightarrow> bool" where
  "Contains p a \<longleftrightarrow>
     Prefix_IsValid p \<and> Zone a = '''' \<and> BitLen a = BitLen (pfx_addr p)
     \<and> same_leading (pfx_bits p) a (pfx_addr p)"

definition Overlaps :: "Prefix \<Rightarrow> Prefix \<Rightarrow> bool" where
  "Overlaps p q \<longleftrightarrow>
     (if \<not> Prefix_IsValid p \<or> \<not> Prefix_IsValid q then False
      else if p = q then True
      else if Is4 (pfx_addr p) \<noteq> Is4 (pfx_addr q) then False
      else let m = min (pfx_bits p) (pfx_bits q) in
        if m = 0 then True else mask_addr m (pfx_addr p) = mask_addr m (pfx_addr q))"

lemma zero_prefix_not_valid [simp]: "\<not> Prefix_IsValid zero_prefix"
  by (simp add: Prefix_IsValid_def zero_prefix_def)

lemma PrefixFrom_simps [simp]:
  "pfx_addr (PrefixFrom a b) = withoutZone a"
  "a \<noteq> InvalidAddr \<Longrightarrow> b \<le> BitLen a \<Longrightarrow> pfx_bits (PrefixFrom a b) = b"
  by (simp_all add: PrefixFrom_def pfx_bits_def)

lemma withoutZone_id [simp]: "Zone a = '''' \<Longrightarrow> withoutZone a = a"
  by (cases a) auto

lemma PrefixFrom_valid:
  "a \<noteq> InvalidAddr \<Longrightarrow> Zone a = '''' \<Longrightarrow> b \<le> BitLen a \<Longrightarrow> Prefix_IsValid (PrefixFrom a b)"
  by (simp add: Prefix_IsValid_def PrefixFrom_def pfx_bits_def)

lemma PrefixFrom_collapse:
  assumes "Prefix_IsValid p" shows "PrefixFrom (pfx_addr p) (pfx_bits p) = p"
  using assms by (cases p) (auto simp: Prefix_IsValid_def PrefixFrom_def pfx_bits_def)

lemma valid_bits: "Prefix_IsValid p \<Longrightarrow> Bits p = int (pfx_bits p)"
  by (auto simp: Prefix_IsValid_def Bits_def pfx_bits_def)

lemma same_leading_iff:
  assumes "BitLen a = BitLen c" and "a \<noteq> InvalidAddr"
  shows "same_leading b a c \<longleftrightarrow>
           (\<forall>i < BitLen a. BitLen a - b \<le> i \<longrightarrow> addr_bit a i = addr_bit c i)"
proof (cases a)
  case (Addr4 v)
  with assms obtain w where c: "c = Addr4 w" by (cases c) auto
  have "drop_bit (32 - b) (v XOR w) = 0 \<longleftrightarrow> (\<forall>i < 32. 32 - b \<le> i \<longrightarrow> bit v i = bit w i)"
    (is "?L \<longleftrightarrow> ?R")
  proof
    assume L: ?L
    show ?R
    proof (intro allI impI)
      fix i :: nat assume "i < 32" "32 - b \<le> i"
      from L have "\<not> bit (drop_bit (32 - b) (v XOR w)) (i - (32 - b))" by simp
      with \<open>32 - b \<le> i\<close> show "bit v i = bit w i" by (simp add: bit_simps)
    qed
  next
    assume R: ?R
    show ?L
    proof (rule bit_word_eqI)
      fix n :: nat assume "n < LENGTH(32)"
      show "bit (drop_bit (32 - b) (v XOR w)) n = bit 0 n"
        using R by (cases "32 - b + n < 32") (auto simp: bit_simps dest: bit_imp_le_length)
    qed
  qed
  with Addr4 c show ?thesis by simp
next
  case (Addr6 v z)
  with assms obtain w z' where c: "c = Addr6 w z'" by (cases c) auto
  have "((v XOR w) AND NOT (mask (128 - b)) = 0) \<longleftrightarrow>
          (\<forall>i < 128. 128 - b \<le> i \<longrightarrow> bit v i = bit w i)"
    by (auto simp: bit_eq_iff bit_simps)
  with Addr6 c show ?thesis by simp
qed (use assms in simp)

text \<open>An address lies in a prefix when it agrees with it on the leading bits.\<close>

lemma Contains_iff:
  assumes "Prefix_IsValid p"
  shows "Contains p a \<longleftrightarrow>
     Zone a = '''' \<and> BitLen a = BitLen (pfx_addr p) \<and>
     (\<forall>i < BitLen a. BitLen a - pfx_bits p \<le> i \<longrightarrow> addr_bit a i = addr_bit (pfx_addr p) i)"
proof (cases "BitLen a = BitLen (pfx_addr p)")
  case True
  moreover have "a \<noteq> InvalidAddr"
    using assms True by (metis BitLen_0_iff Prefix_IsValid_def)
  ultimately show ?thesis
    using assms by (simp add: Contains_def same_leading_iff)
qed (simp add: Contains_def)

lemma canonical_valid: "canonical p \<Longrightarrow> Prefix_IsValid p"
  by (simp add: canonical_def)

lemma valid_addr:
  assumes "Prefix_IsValid p"
  shows "pfx_addr p \<noteq> InvalidAddr" "Zone (pfx_addr p) = ''''" "pfx_bits p \<le> BitLen (pfx_addr p)"
  using assms by (simp_all add: Prefix_IsValid_def)

lemma canonical_iff:
  "canonical p \<longleftrightarrow> Prefix_IsValid p \<and>
     (\<forall>i < BitLen (pfx_addr p) - pfx_bits p. \<not> addr_bit (pfx_addr p) i)"
proof (cases "Prefix_IsValid p")
  case True
  let ?a = "pfx_addr p" and ?b = "pfx_bits p"
  have "canonical p \<longleftrightarrow> PrefixFrom ?a ?b = PrefixFrom (mask_addr ?b ?a) ?b"
    using True by (simp add: canonical_def Masked_def PrefixFrom_collapse)
  also have "\<dots> \<longleftrightarrow> ?a = mask_addr ?b ?a"
    using True by (auto simp: PrefixFrom_def Prefix_IsValid_def)
  also have "\<dots> \<longleftrightarrow> (\<forall>i < BitLen ?a. addr_bit ?a i = addr_bit (mask_addr ?b ?a) i)"
    by (metis addr_eqI mask_addr_shape(1,2))
  also have "\<dots> \<longleftrightarrow> (\<forall>i < BitLen ?a - ?b. \<not> addr_bit ?a i)"
    by (simp add: addr_bit_mask_addr) (metis diff_le_self less_le_trans not_le)
  finally show ?thesis using True by simp
qed (auto dest: canonical_valid)

lemma Masked_canonical: "Prefix_IsValid p \<Longrightarrow> canonical (Masked p)"
proof -
  assume v: "Prefix_IsValid p"
  then have "Prefix_IsValid (Masked p)"
    by (simp add: Masked_def PrefixFrom_valid valid_addr)
  moreover have "\<not> addr_bit (mask_addr (pfx_bits p) (pfx_addr p)) i"
    if "i < BitLen (pfx_addr p) - pfx_bits p" for i
    using that by (simp add: addr_bit_mask_addr)
  ultimately show ?thesis
    using v by (simp add: canonical_iff Masked_def valid_addr)
qed

lemma Overlaps_iff:
  assumes "Prefix_IsValid p" and "Prefix_IsValid q" and "BitLen (pfx_addr p) = BitLen (pfx_addr q)"
  shows "Overlaps p q \<longleftrightarrow>
     (\<forall>i < BitLen (pfx_addr p). BitLen (pfx_addr p) - min (pfx_bits p) (pfx_bits q) \<le> i
        \<longrightarrow> addr_bit (pfx_addr p) i = addr_bit (pfx_addr q) i)"
    (is "_ \<longleftrightarrow> ?R")
proof -
  let ?m = "min (pfx_bits p) (pfx_bits q)"
  have "mask_addr ?m (pfx_addr p) = mask_addr ?m (pfx_addr q) \<longleftrightarrow> ?R"
  proof
    assume eq: "mask_addr ?m (pfx_addr p) = mask_addr ?m (pfx_addr q)"
    show ?R
    proof (intro allI impI)
      fix i assume i: "i < BitLen (pfx_addr p)" "BitLen (pfx_addr p) - ?m \<le> i"
      have "addr_bit (mask_addr ?m (pfx_addr p)) i = addr_bit (mask_addr ?m (pfx_addr q)) i"
        by (simp only: eq)
      with i assms(3) show "addr_bit (pfx_addr p) i = addr_bit (pfx_addr q) i"
        by (simp add: addr_bit_mask_addr)
    qed
  next
    assume ?R
    then show "mask_addr ?m (pfx_addr p) = mask_addr ?m (pfx_addr q)"
      using assms by (intro addr_eqI) (auto simp: addr_bit_mask_addr valid_addr)
  qed
  moreover have "?m = 0 \<Longrightarrow> ?R" by auto
  moreover have "Is4 (pfx_addr p) = Is4 (pfx_addr q)"
    using assms(3) by (simp add: Is4_iff_BitLen)
  ultimately show ?thesis
    using assms by (auto simp: Overlaps_def Let_def)
qed

text \<open>Two valid prefixes of one family overlap exactly when they share an address.\<close>

lemma Overlaps_iff_common:
  assumes "Prefix_IsValid p" and "Prefix_IsValid q" and "BitLen (pfx_addr p) = BitLen (pfx_addr q)"
  shows "Overlaps p q \<longleftrightarrow> (\<exists>a. Contains p a \<and> Contains q a)"
proof
  assume ov: "Overlaps p q"
  show "\<exists>a. Contains p a \<and> Contains q a"
  proof (cases "pfx_bits p \<le> pfx_bits q")
    case True
    with ov assms have "Contains p (pfx_addr q) \<and> Contains q (pfx_addr q)"
      by (auto simp: Overlaps_iff Contains_iff valid_addr min_def)
    then show ?thesis by blast
  next
    case False
    with ov assms have "Contains p (pfx_addr p) \<and> Contains q (pfx_addr p)"
      by (auto simp: Overlaps_iff Contains_iff valid_addr min_def)
    then show ?thesis by blast
  qed
next
  assume "\<exists>a. Contains p a \<and> Contains q a"
  then obtain a where "Contains p a" and "Contains q a" by blast
  with assms show "Overlaps p q"
    by (auto simp: Overlaps_iff Contains_iff)
qed

end
