(* ===== verification/Netip_Text.thy ===== *)
theory Netip_Text
  imports Netip
begin

text \<open>
  The textual forms \<^verbatim>\<open>Addr.String\<close> and \<^verbatim>\<open>Prefix.String\<close>, by which the program orders
  every list of prefixes. They are injective on valid prefixes, so that the order is total, the
  result of \<^verbatim>\<open>sort.Slice\<close> (which is not stable) is determined, and an adjacent-duplicate test
  on a sorted list is complete.
\<close>

section \<open>Numerals\<close>

definition digit_char :: "nat \<Rightarrow> char" where
  "digit_char d = char_of (if d < 10 then 48 + d else 87 + d)"

definition digit_val :: "char \<Rightarrow> nat" where
  "digit_val c = (let n = of_char c in if n < 58 then n - 48 else n - 87)"

function show_base :: "nat \<Rightarrow> nat \<Rightarrow> string" where
  "show_base b n =
     (if n < b \<or> b < 2 then [digit_char n] else show_base b (n div b) @ [digit_char (n mod b)])"
  by pat_completeness auto
termination by (relation "measure snd") auto

declare show_base.simps [simp del]

definition read_base :: "nat \<Rightarrow> string \<Rightarrow> nat" where
  "read_base b s = foldl (\<lambda>acc c. acc * b + digit_val c) 0 s"

definition Itoa :: "nat \<Rightarrow> string" where
  "Itoa n = show_base 10 n"

definition hex_string :: "nat \<Rightarrow> string" where
  "hex_string n = show_base 16 n"

lemma of_char_digit_char: "d < 16 \<Longrightarrow> of_char (digit_char d) = (if d < 10 then 48 + d else 87 + d)"
  by (simp add: digit_char_def)

lemma digit_val_digit_char: "d < 16 \<Longrightarrow> digit_val (digit_char d) = d"
  by (simp add: digit_val_def of_char_digit_char)

lemma mod_less_16: "0 < b \<Longrightarrow> b \<le> 16 \<Longrightarrow> n mod b < (16 :: nat)"
  by (metis less_le_trans mod_less_divisor)

lemma read_show_base:
  assumes "2 \<le> b" and "b \<le> 16"
  shows "read_base b (show_base b n) = n"
  using assms
proof (induction b n rule: show_base.induct)
  case (1 b n)
  show ?case
  proof (cases "n < b")
    case True
    with "1.prems" show ?thesis
      by (subst show_base.simps) (simp add: read_base_def digit_val_digit_char)
  next
    case False
    with 1 have IH: "read_base b (show_base b (n div b)) = n div b" by simp
    from "1.prems" have "n mod b < 16" by (intro mod_less_16) auto
    with False "1.prems" IH show ?thesis
      by (subst show_base.simps) (simp add: read_base_def digit_val_digit_char)
  qed
qed

lemma show_base_nonempty [simp]: "show_base b n \<noteq> []"
  by (subst show_base.simps) simp

definition is_digit_char :: "char \<Rightarrow> bool" where
  "is_digit_char c \<longleftrightarrow> (let n = of_char c in (48 \<le> n \<and> n \<le> 57) \<or> (97 \<le> n \<and> n \<le> (102 :: nat)))"

lemma is_digit_char_digit: "d < 16 \<Longrightarrow> is_digit_char (digit_char d)"
  by (auto simp: is_digit_char_def of_char_digit_char Let_def)

lemma show_base_digits:
  assumes "2 \<le> b" and "b \<le> 16"
  shows "\<forall>c \<in> set (show_base b n). is_digit_char c"
  using assms
proof (induction b n rule: show_base.induct)
  case (1 b n)
  show ?case
  proof (cases "n < b")
    case True
    with "1.prems" show ?thesis
      by (subst show_base.simps) (simp add: is_digit_char_digit)
  next
    case False
    from "1.prems" have "n mod b < 16" by (intro mod_less_16) auto
    with False 1 show ?thesis
      by (subst show_base.simps) (simp add: is_digit_char_digit)
  qed
qed

lemma read_Itoa: "read_base 10 (Itoa n) = n"
  by (simp add: Itoa_def read_show_base)

lemma read_hex_string: "read_base 16 (hex_string n) = n"
  by (simp add: hex_string_def read_show_base)

lemma Itoa_inj: "Itoa m = Itoa n \<Longrightarrow> m = n"
  by (metis read_Itoa)

lemma hex_string_inj: "hex_string m = hex_string n \<Longrightarrow> m = n"
  by (metis read_hex_string)

lemma Itoa_digits: "c \<in> set (Itoa n) \<Longrightarrow> is_digit_char c"
  using show_base_digits [of 10 n] by (simp add: Itoa_def)

lemma hex_string_digits: "c \<in> set (hex_string n) \<Longrightarrow> is_digit_char c"
  using show_base_digits [of 16 n] by (simp add: hex_string_def)

lemma Itoa_nonempty [simp]: "Itoa n \<noteq> []"
  by (simp add: Itoa_def)

lemma hex_string_nonempty [simp]: "hex_string n \<noteq> []"
  by (simp add: hex_string_def)

lemma sep_not_digit [simp]:
  "\<not> is_digit_char CHR '':''" "\<not> is_digit_char CHR ''.''" "\<not> is_digit_char CHR ''/''"
  by (simp_all add: is_digit_char_def)

section \<open>Joining and splitting\<close>

fun join :: "char \<Rightarrow> string list \<Rightarrow> string" where
  "join c [] = []"
| "join c [t] = t"
| "join c (t # ts) = t @ c # join c ts"

fun split_on :: "char \<Rightarrow> string \<Rightarrow> string list" where
  "split_on c [] = [[]]"
| "split_on c (x # xs) =
     (if x = c then [] # split_on c xs
      else (case split_on c xs of t # ts \<Rightarrow> (x # t) # ts | [] \<Rightarrow> [[x]]))"

lemma split_on_nonempty [simp]: "split_on c s \<noteq> []"
  by (induction s) (auto split: list.splits)

lemma split_on_clean: "c \<notin> set t \<Longrightarrow> split_on c t = [t]"
  by (induction t) auto

lemma split_on_append: "c \<notin> set t \<Longrightarrow> split_on c (t @ c # s) = t # split_on c s"
  by (induction t) auto

lemma split_on_join:
  "ts \<noteq> [] \<Longrightarrow> \<forall>t \<in> set ts. c \<notin> set t \<Longrightarrow> split_on c (join c ts) = ts"
  by (induction c ts rule: join.induct) (auto simp: split_on_clean split_on_append)

lemma split_on_append_gen:
  "split_on c (s @ c # r) = split_on c s @ split_on c r"
  by (induction s) (auto split: list.splits)

lemma set_join: "set (join c ts) \<subseteq> {c} \<union> \<Union> (set ` set ts)"
  by (induction c ts rule: join.induct) auto


section \<open>Addresses and prefixes\<close>

definition octets4 :: "32 word \<Rightarrow> nat list" where
  "octets4 w = map (\<lambda>i. unat (take_bit 8 (drop_bit (24 - 8 * i) w))) [0..<4]"

definition groups6 :: "128 word \<Rightarrow> nat list" where
  "groups6 w = map (\<lambda>i. unat (take_bit 16 (drop_bit (112 - 16 * i) w))) [0..<8]"

definition string4 :: "32 word \<Rightarrow> string" where
  "string4 w = join CHR ''.'' (map Itoa (octets4 w))"

text \<open>The first longest run of at least two zero groups, as the half-open range the loop keeps.\<close>

definition zero_end :: "nat list \<Rightarrow> nat \<Rightarrow> nat" where
  "zero_end gs i = i + length (takeWhile (\<lambda>g. g = 0) (drop i gs))"

definition zero_step :: "nat list \<Rightarrow> (nat \<times> nat) option \<Rightarrow> nat \<Rightarrow> (nat \<times> nat) option" where
  "zero_step gs best i =
     (let j = zero_end gs i in
      if 2 \<le> j - i \<and> (case best of None \<Rightarrow> True | Some (s, e) \<Rightarrow> e - s < j - i)
      then Some (i, j) else best)"

definition zero_run :: "nat list \<Rightarrow> (nat \<times> nat) option" where
  "zero_run gs = foldl (zero_step gs) None [0..<length gs]"

definition string6 :: "128 word \<Rightarrow> string" where
  "string6 w =
     (let gs = groups6 w in
      case zero_run gs of
        None \<Rightarrow> join CHR '':'' (map hex_string gs)
      | Some (s, e) \<Rightarrow>
          join CHR '':'' (map hex_string (take s gs)) @ '':'' @ '':''
          @ join CHR '':'' (map hex_string (drop e gs)))"

definition Is4In6 :: "128 word \<Rightarrow> bool" where
  "Is4In6 w \<longleftrightarrow> drop_bit 32 w = 65535"

fun Addr_String :: "Addr \<Rightarrow> string" where
  "Addr_String InvalidAddr = ''invalid IP''"
| "Addr_String (Addr4 w) = string4 w"
| "Addr_String (Addr6 w z) =
     (if Is4In6 w then ''::ffff:'' @ string4 (ucast w) else string6 w)
     @ (if z = [] then [] else CHR ''%'' # z)"

definition Prefix_String :: "Prefix \<Rightarrow> string" where
  "Prefix_String p =
     (if Prefix_IsValid p then Addr_String (pfx_addr p) @ ''/'' @ Itoa (pfx_bits p)
      else ''invalid Prefix'')"

subsection \<open>Injectivity\<close>

lemma octets4_inj: "octets4 v = octets4 w \<Longrightarrow> v = w"
proof (rule bit_word_eqI)
  fix n assume eq: "octets4 v = octets4 w" and n: "n < LENGTH(32)"
  let ?i = "3 - n div 8"
  have i: "?i < 4" by simp
  from eq have "octets4 v ! ?i = octets4 w ! ?i" by simp
  with i have "take_bit 8 (drop_bit (24 - 8 * ?i) v) = take_bit 8 (drop_bit (24 - 8 * ?i) w)"
    by (simp add: octets4_def word_unat_eq_iff)
  then have "bit (take_bit 8 (drop_bit (24 - 8 * ?i) v)) (n mod 8)
      = bit (take_bit 8 (drop_bit (24 - 8 * ?i) w)) (n mod 8)" by simp
  moreover have "24 - 8 * ?i = 8 * (n div 8)"
  proof -
    have "k \<le> 3 \<Longrightarrow> 24 - 8 * (3 - k) = 8 * (k :: nat)" for k by arith
    with n show ?thesis by simp
  qed
  ultimately show "bit v n = bit w n" by (simp add: bit_simps)
qed

lemma groups6_inj: "groups6 v = groups6 w \<Longrightarrow> v = w"
proof (rule bit_word_eqI)
  fix n assume eq: "groups6 v = groups6 w" and n: "n < LENGTH(128)"
  let ?i = "7 - n div 16"
  have i: "?i < 8" by simp
  from eq have "groups6 v ! ?i = groups6 w ! ?i" by simp
  with i have "take_bit 16 (drop_bit (112 - 16 * ?i) v) = take_bit 16 (drop_bit (112 - 16 * ?i) w)"
    by (simp add: groups6_def word_unat_eq_iff)
  then have "bit (take_bit 16 (drop_bit (112 - 16 * ?i) v)) (n mod 16)
      = bit (take_bit 16 (drop_bit (112 - 16 * ?i) w)) (n mod 16)" by simp
  moreover have "112 - 16 * ?i = 16 * (n div 16)"
  proof -
    have "k \<le> 7 \<Longrightarrow> 112 - 16 * (7 - k) = 16 * (k :: nat)" for k by arith
    with n show ?thesis by simp
  qed
  ultimately show "bit v n = bit w n" by (simp add: bit_simps)
qed

lemma length_octets4 [simp]: "length (octets4 w) = 4"
  by (simp add: octets4_def)

lemma length_groups6 [simp]: "length (groups6 w) = 8"
  by (simp add: groups6_def)

lemma map_inj_eq: "map f xs = map f ys \<Longrightarrow> (\<And>x y. f x = f y \<Longrightarrow> x = y) \<Longrightarrow> xs = ys"
  by (metis injI inj_map_eq_map)

lemma string4_inj: "string4 v = string4 w \<Longrightarrow> v = w"
proof -
  have split: "split_on CHR ''.'' (string4 x) = map Itoa (octets4 x)" for x
    unfolding string4_def
    by (rule split_on_join) (auto simp: octets4_def dest: Itoa_digits)
  assume "string4 v = string4 w"
  then have "map Itoa (octets4 v) = map Itoa (octets4 w)" using split by metis
  then have "octets4 v = octets4 w" by (rule map_inj_eq) (rule Itoa_inj)
  then show "v = w" by (rule octets4_inj)
qed

lemma string4_chars: "c \<in> set (string4 w) \<Longrightarrow> is_digit_char c \<or> c = CHR ''.''"
  using set_join [of "CHR ''.''" "map Itoa (octets4 w)"] by (auto simp: string4_def dest: Itoa_digits)

lemma string4_dot: "CHR ''.'' \<in> set (string4 w)"
proof -
  obtain a b cs where "octets4 w = a # b # cs"
    by (auto simp: octets4_def upt_rec)
  then show ?thesis by (simp add: string4_def)
qed

lemma hexes_chars:
  "c \<in> set (join CHR '':'' (map hex_string gs)) \<Longrightarrow> is_digit_char c \<or> c = CHR '':''"
  using set_join [of "CHR '':''" "map hex_string gs"] by (auto dest: hex_string_digits)

lemma string6_chars: "c \<in> set (string6 w) \<Longrightarrow> is_digit_char c \<or> c = CHR '':''"
  by (auto simp: string6_def Let_def split: option.splits dest: hexes_chars)

definition zero_range :: "nat list \<Rightarrow> nat \<Rightarrow> nat \<Rightarrow> bool" where
  "zero_range gs s e \<longleftrightarrow>
     s < e \<and> e \<le> length gs \<and> take s gs @ replicate (e - s) 0 @ drop e gs = gs"

lemma zero_end_range:
  assumes "2 \<le> zero_end gs i - i" and "i \<le> length gs"
  shows "zero_range gs i (zero_end gs i)"
proof -
  let ?t = "takeWhile (\<lambda>g. g = 0) (drop i gs)"
  have "\<forall>x \<in> set ?t. x = 0" by (auto dest: set_takeWhileD)
  then have t: "replicate (zero_end gs i - i) 0 = ?t"
    by (simp add: zero_end_def replicate_length_same)
  have "length ?t \<le> length (drop i gs)" by (rule length_takeWhile_le)
  with assms(2) have le: "zero_end gs i \<le> length gs" by (simp add: zero_end_def)
  have "drop (zero_end gs i) gs = dropWhile (\<lambda>g. g = 0) (drop i gs)"
    by (simp add: zero_end_def dropWhile_eq_drop add.commute)
  then have "?t @ drop (zero_end gs i) gs = drop i gs"
    by (simp only: takeWhile_dropWhile_id)
  then have "take i gs @ ?t @ drop (zero_end gs i) gs = gs" by simp
  with t le assms(1) show ?thesis by (simp add: zero_range_def)
qed

lemma zero_fold_range:
  assumes "\<forall>s e. b = Some (s, e) \<longrightarrow> zero_range gs s e" and "\<forall>i \<in> set js. i \<le> length gs"
    and "foldl (zero_step gs) b js = Some (s, e)"
  shows "zero_range gs s e"
  using assms
proof (induction js arbitrary: b)
  case (Cons j js)
  have "\<forall>s e. zero_step gs b j = Some (s, e) \<longrightarrow> zero_range gs s e"
    using Cons.prems(1,2) by (auto simp: zero_step_def Let_def zero_end_range split: if_splits)
  with Cons show ?case by auto
qed auto

text \<open>The run that is elided consists of zeros, so it can be restored.\<close>

lemma zero_run_zeros: "zero_run gs = Some (s, e) \<Longrightarrow> zero_range gs s e"
  using zero_fold_range [of None gs "[0..<length gs]" s e] by (simp add: zero_run_def)

text \<open>
  The inverse of \<^const>\<open>string6\<close> on the colon-separated tokens: the tokens before the first
  and after the last empty one are the groups that were printed.
\<close>

definition decode6 :: "string list \<Rightarrow> nat list" where
  "decode6 ts =
     (let pre = takeWhile (\<lambda>t. t \<noteq> []) ts;
          post = rev (takeWhile (\<lambda>t. t \<noteq> []) (rev ts)) in
      if pre = ts then map (read_base 16) ts
      else map (read_base 16) pre @ replicate (8 - length pre - length post) 0
           @ map (read_base 16) post)"

definition side_tokens :: "nat list \<Rightarrow> string list" where
  "side_tokens gs = (if gs = [] then [[]] else map hex_string gs)"

lemma split_on_hexes: "split_on CHR '':'' (join CHR '':'' (map hex_string gs)) = side_tokens gs"
proof (cases gs)
  case (Cons g gs')
  then show ?thesis unfolding side_tokens_def
    by (simp, intro split_on_join) (auto dest: hex_string_digits)
qed (simp add: side_tokens_def)

lemma read_hexes [simp]: "map (read_base 16) (map hex_string gs) = gs"
  by (simp add: comp_def read_hex_string)

lemma takeWhile_side:
  "takeWhile (\<lambda>t. t \<noteq> []) (map hex_string gs @ [] # r) = map hex_string gs"
  by (induction gs) auto

lemma takeWhile_side_tokens:
  "takeWhile (\<lambda>t. t \<noteq> []) (side_tokens gs @ [] # r) = map hex_string gs"
  by (simp add: side_tokens_def takeWhile_side)

lemma takeWhile_side_rev:
  "takeWhile (\<lambda>t. t \<noteq> []) (rev (side_tokens gs) @ [] # r) = rev (map hex_string gs)"
proof -
  have "takeWhile (\<lambda>t. t \<noteq> []) (map hex_string (rev gs) @ [] # r) = map hex_string (rev gs)"
    by (rule takeWhile_side)
  then show ?thesis by (simp add: side_tokens_def rev_map)
qed

lemma decode6_elided:
  "length pre + n + length post = 8 \<Longrightarrow>
     decode6 (side_tokens pre @ [] # side_tokens post) = pre @ replicate n 0 @ post"
proof -
  assume len: "length pre + n + length post = 8"
  have r: "rev (side_tokens pre @ [] # side_tokens post) = rev (side_tokens post) @ [] # rev (side_tokens pre)"
    by simp
  have "map hex_string pre \<noteq> side_tokens pre @ [] # side_tokens post"
    by (auto simp: side_tokens_def dest: arg_cong [of _ _ length])
  then show ?thesis
    using len unfolding decode6_def Let_def r takeWhile_side_tokens takeWhile_side_rev
    by (simp add: comp_def read_hex_string)
qed

lemma decode6_full: "decode6 (map hex_string gs) = gs"
proof -
  have "takeWhile (\<lambda>t. t \<noteq> []) (map hex_string gs) = map hex_string gs"
    by (induction gs) auto
  then show ?thesis by (simp add: decode6_def Let_def comp_def read_hex_string)
qed

lemma decode6_string6: "decode6 (split_on CHR '':'' (string6 w)) = groups6 w"
proof (cases "zero_run (groups6 w)")
  case None
  have "groups6 w \<noteq> []" by (simp add: groups6_def)
  then have "split_on CHR '':'' (string6 w) = map hex_string (groups6 w)"
    using None by (simp add: string6_def split_on_hexes side_tokens_def)
  then show ?thesis by (simp only: decode6_full)
next
  case (Some se)
  then obtain s e where run: "zero_run (groups6 w) = Some (s, e)" by (cases se) auto
  then have z: "zero_range (groups6 w) s e" by (rule zero_run_zeros)
  let ?pre = "take s (groups6 w)" and ?post = "drop e (groups6 w)"
  have "split_on CHR '':'' (string6 w) = side_tokens ?pre @ [] # side_tokens ?post"
    using run by (simp add: string6_def Let_def split_on_append_gen split_on_hexes)
  moreover have "length ?pre + (e - s) + length ?post = 8"
    using z by (auto simp: zero_range_def)
  ultimately have "decode6 (split_on CHR '':'' (string6 w)) = ?pre @ replicate (e - s) 0 @ ?post"
    by (simp add: decode6_elided)
  with z show ?thesis by (simp add: zero_range_def)
qed

lemma string6_inj: "string6 v = string6 w \<Longrightarrow> v = w"
  by (metis decode6_string6 groups6_inj)

lemma string6_colon: "CHR '':'' \<in> set (string6 w)"
proof (cases "zero_run (groups6 w)")
  case None
  obtain a b cs where "groups6 w = a # b # cs"
    by (auto simp: groups6_def upt_rec)
  with None show ?thesis by (simp add: string6_def)
qed (auto simp: string6_def Let_def)

lemma four_in_six_inj:
  assumes "Is4In6 v" and "Is4In6 w" and "ucast v = (ucast w :: 32 word)"
  shows "v = w"
proof (rule bit_word_eqI)
  fix n assume n: "n < LENGTH(128)"
  show "bit v n = bit w n"
  proof (cases "n < 32")
    case True
    from assms(3) have "bit (ucast v :: 32 word) n = bit (ucast w :: 32 word) n" by simp
    with True show ?thesis by (simp add: bit_simps)
  next
    case False
    from assms(1,2) have "bit (drop_bit 32 v) (n - 32) = bit (drop_bit 32 w) (n - 32)"
      by (simp add: Is4In6_def)
    with False show ?thesis by (simp add: bit_simps)
  qed
qed

lemma Addr_String_chars:
  "Zone a = [] \<Longrightarrow> a \<noteq> InvalidAddr \<Longrightarrow> c \<in> set (Addr_String a) \<Longrightarrow>
     is_digit_char c \<or> c = CHR ''.'' \<or> c = CHR '':''"
  by (cases a) (auto simp: is_digit_char_def split: if_splits dest: string4_chars string6_chars)

lemma string4_no_colon: "CHR '':'' \<notin> set (string4 w)"
  using string4_chars by force

lemma string6_no_dot: "CHR ''.'' \<notin> set (string6 w)"
  using string6_chars by force

lemma Addr_String_inj:
  assumes "Zone a = []" "Zone b = []" "a \<noteq> InvalidAddr" "b \<noteq> InvalidAddr"
    and "Addr_String a = Addr_String b"
  shows "a = b"
proof -
  have colon: "CHR '':'' \<in> set (Addr_String (Addr6 w []))" for w
    by (simp add: string6_colon)
  show ?thesis
  proof (cases a)
    case (Addr4 v)
    show ?thesis
    proof (cases b)
      case (Addr4 w)
      with \<open>a = Addr4 v\<close> assms(5) show ?thesis by (simp add: string4_inj)
    next
      case (Addr6 w z)
      with assms Addr4 colon [of w] string4_no_colon [of v] show ?thesis by auto
    qed (use assms in simp)
  next
    case (Addr6 v z)
    show ?thesis
    proof (cases b)
      case (Addr4 w)
      with assms Addr6 colon [of v] string4_no_colon [of w] show ?thesis by auto
    next
      case b: (Addr6 w z')
      have dot: "CHR ''.'' \<in> set (Addr_String (Addr6 x [])) \<longleftrightarrow> Is4In6 x" for x
        by (simp add: string4_dot string6_no_dot)
      have zs: "z = []" "z' = []" using assms(1,2) Addr6 b by simp_all
      with assms(5) Addr6 b dot [of v] dot [of w] have iff: "Is4In6 v \<longleftrightarrow> Is4In6 w" by simp
      show ?thesis
      proof (cases "Is4In6 v")
        case True
        with assms(5) Addr6 b zs iff have "string4 (ucast v) = string4 (ucast w)" by simp
        then have "(ucast v :: 32 word) = ucast w" by (rule string4_inj)
        with True iff have "v = w" by (intro four_in_six_inj) auto
        with Addr6 b zs show ?thesis by simp
      next
        case False
        with assms(5) Addr6 b zs iff have "string6 v = string6 w" by simp
        then have "v = w" by (rule string6_inj)
        with Addr6 b zs show ?thesis by simp
      qed
    qed (use assms in simp)
  qed (use assms in simp)
qed

lemma Prefix_String_inj:
  assumes "Prefix_IsValid p" and "Prefix_IsValid q" and "Prefix_String p = Prefix_String q"
  shows "p = q"
proof -
  have split: "split_on CHR ''/'' (Prefix_String r) = [Addr_String (pfx_addr r), Itoa (pfx_bits r)]"
    if "Prefix_IsValid r" for r
  proof -
    have "CHR ''/'' \<notin> set (Addr_String (pfx_addr r))"
      using Addr_String_chars [of "pfx_addr r" "CHR ''/''"] that by (auto simp: valid_addr)
    moreover have "CHR ''/'' \<notin> set (Itoa (pfx_bits r))" by (auto dest: Itoa_digits)
    ultimately show ?thesis
      using that by (simp add: Prefix_String_def split_on_append split_on_clean)
  qed
  from assms(3) have "Addr_String (pfx_addr p) = Addr_String (pfx_addr q)"
    and "Itoa (pfx_bits p) = Itoa (pfx_bits q)"
    using split [OF assms(1)] split [OF assms(2)] by simp_all
  then have "pfx_addr p = pfx_addr q" and "pfx_bits p = pfx_bits q"
    using assms(1,2) by (auto intro: Addr_String_inj Itoa_inj simp: valid_addr)
  then show ?thesis
    using assms(1,2) PrefixFrom_collapse by metis
qed

lemma Prefix_String_inj_on:
  "(\<And>p. p \<in> A \<Longrightarrow> Prefix_IsValid p) \<Longrightarrow> inj_on Prefix_String A"
  by (auto intro: inj_onI Prefix_String_inj)

end
