(* ===== verification/Digest.thy ===== *)
theory Digest
  imports Netip_Text
begin

text \<open>
  The digest and encoding functions of Go's standard library that the program's identities are
  made of: SHA-256 (\<^verbatim>\<open>crypto/sha256\<close>), lower-case hexadecimal (\<^verbatim>\<open>encoding/hex\<close>), the
  unpadded extended-hex alphabet of \<^verbatim>\<open>encoding/base32\<close>, and big-endian integers
  (\<^verbatim>\<open>encoding/binary\<close>). Decoding an encoded byte string gives it back.
\<close>

type_synonym bytes = "u8 list"

definition bytes_of :: "string \<Rightarrow> bytes" where
  "bytes_of s = map of_char s"

lemma bytes_of_simps [simp]:
  "bytes_of [] = []" "bytes_of (s @ t) = bytes_of s @ bytes_of t"
  "length (bytes_of s) = length s"
  by (simp_all add: bytes_of_def)

definition be32 :: "u32 \<Rightarrow> bytes" where
  "be32 w = [ucast (drop_bit 24 w), ucast (drop_bit 16 w), ucast (drop_bit 8 w), ucast w]"

definition be64 :: "u64 \<Rightarrow> bytes" where
  "be64 w = be32 (ucast (drop_bit 32 w)) @ be32 (ucast w)"

lemma length_be32 [simp]: "length (be32 w) = 4"
  by (simp add: be32_def)

lemma length_be64 [simp]: "length (be64 w) = 8"
  by (simp add: be64_def)

section \<open>SHA-256\<close>

text \<open>
  The round constants and the initial state are the first 32 bits of the fractional parts of the cube
  roots and square roots of small primes, as FIPS 180-4 defines them. \<open>iroot k n b 0\<close> is the integer
  \<open>k\<close>-th root of \<open>n\<close>, found bit by bit below \<open>2 ^ b\<close>.
\<close>

fun iroot :: "nat \<Rightarrow> int \<Rightarrow> nat \<Rightarrow> int \<Rightarrow> int" where
  "iroot k n 0 acc = acc"
| "iroot k n (Suc b) acc = iroot k n b (if (acc + 2 ^ b) ^ k \<le> n then acc + 2 ^ b else acc)"

definition small_primes :: "int list" where
  "small_primes =
    [2, 3, 5, 7, 11, 13, 17, 19, 23, 29, 31, 37, 41, 43, 47, 53, 59, 61, 67, 71, 73, 79, 83,
     89, 97, 101, 103, 107, 109, 113, 127, 131, 137, 139, 149, 151, 157, 163, 167, 173, 179,
     181, 191, 193, 197, 199, 211, 223, 227, 229, 233, 239, 241, 251, 257, 263, 269, 271, 277,
     281, 283, 293, 307, 311]"

definition root_word :: "nat \<Rightarrow> int \<Rightarrow> u32" where
  "root_word k p = of_int (iroot k (p * 2 ^ (32 * k)) 35 0)"

definition K256 :: "u32 list" where
  "K256 = map (root_word 3) small_primes"

definition H256 :: "u32 list" where
  "H256 = map (root_word 2) (take 8 small_primes)"

lemma sha_constants:
  "root_word 3 2 = 0x428a2f98" "root_word 3 311 = 0xc67178f2"
  "root_word 2 2 = 0x6a09e667" "root_word 2 19 = 0x5be0cd19"
  by code_simp+

definition rotr32 :: "nat \<Rightarrow> u32 \<Rightarrow> u32" where
  "rotr32 n x = drop_bit n x OR push_bit (32 - n) x"

definition big_sigma0 :: "u32 \<Rightarrow> u32" where
  "big_sigma0 x = rotr32 2 x XOR rotr32 13 x XOR rotr32 22 x"

definition big_sigma1 :: "u32 \<Rightarrow> u32" where
  "big_sigma1 x = rotr32 6 x XOR rotr32 11 x XOR rotr32 25 x"

definition small_sigma0 :: "u32 \<Rightarrow> u32" where
  "small_sigma0 x = rotr32 7 x XOR rotr32 18 x XOR drop_bit 3 x"

definition small_sigma1 :: "u32 \<Rightarrow> u32" where
  "small_sigma1 x = rotr32 17 x XOR rotr32 19 x XOR drop_bit 10 x"

definition sha_pad :: "bytes \<Rightarrow> bytes" where
  "sha_pad m = m @ [128] @ replicate ((119 - length m mod 64) mod 64) 0
     @ be64 (of_nat (8 * length m))"

fun words_of :: "bytes \<Rightarrow> u32 list" where
  "words_of (a # b # c # d # r) =
     (push_bit 24 (ucast a) OR push_bit 16 (ucast b) OR push_bit 8 (ucast c) OR ucast d) # words_of r"
| "words_of _ = []"

fun sha_schedule :: "nat \<Rightarrow> u32 list \<Rightarrow> u32 list" where
  "sha_schedule 0 ws = ws"
| "sha_schedule (Suc n) ws =
     (let t = length ws in
      sha_schedule n
        (ws @ [small_sigma1 (ws ! (t - 2)) + ws ! (t - 7) + small_sigma0 (ws ! (t - 15)) + ws ! (t - 16)]))"

fun sha_round :: "u32 \<times> u32 \<Rightarrow> u32 list \<Rightarrow> u32 list" where
  "sha_round (k, w) [a, b, c, d, e, f, g, h] =
     (let t1 = h + big_sigma1 e + ((e AND f) XOR (NOT e AND g)) + k + w;
          t2 = big_sigma0 a + ((a AND b) XOR (a AND c) XOR (b AND c))
      in [t1 + t2, a, b, c, d + t1, e, f, g])"
| "sha_round _ hs = hs"

definition sha_block :: "u32 list \<Rightarrow> bytes \<Rightarrow> u32 list" where
  "sha_block hs blk =
     map2 (+) hs (fold sha_round (zip K256 (sha_schedule 48 (words_of blk))) hs)"

function chunks :: "nat \<Rightarrow> 'a list \<Rightarrow> 'a list list" where
  "chunks n xs = (if n = 0 \<or> xs = [] then [] else take n xs # chunks n (drop n xs))"
  by pat_completeness auto
termination by (relation "measure (\<lambda>(n, xs). length xs)") auto

declare chunks.simps [simp del]

definition Sum256 :: "bytes \<Rightarrow> bytes" where
  "Sum256 m = concat (map be32 (foldl sha_block H256 (chunks 64 (sha_pad m))))"

lemma length_sha_round [simp]: "length (sha_round kw hs) = length hs"
  by (cases "(kw, hs)" rule: sha_round.cases) (auto simp: Let_def)

lemma length_sha_rounds [simp]: "length (fold sha_round kws hs) = length hs"
  by (induction kws arbitrary: hs) auto

lemma length_sha_block [simp]: "length (sha_block hs blk) = length hs"
  by (simp add: sha_block_def)

lemma length_sha_blocks [simp]: "length (foldl sha_block hs bs) = length hs"
  by (induction bs arbitrary: hs) auto

lemma length_concat_be32: "length (concat (map be32 ws)) = 4 * length ws"
  by (induction ws) auto

text \<open>A digest has 32 bytes (\<^verbatim>\<open>sha256.Size\<close>).\<close>

lemma length_Sum256 [simp]: "length (Sum256 m) = 32"
  by (simp add: Sum256_def length_concat_be32 H256_def small_primes_def)

section \<open>Hexadecimal\<close>

definition hex_EncodeToString :: "bytes \<Rightarrow> string" where
  "hex_EncodeToString bs =
     concat (map (\<lambda>b. [digit_char (unat b div 16), digit_char (unat b mod 16)]) bs)"

lemma length_hex [simp]: "length (hex_EncodeToString bs) = 2 * length bs"
  by (induction bs) (auto simp: hex_EncodeToString_def)

lemma unat_u8_bound: "unat (b :: u8) < 256"
  using unsigned_less [of b, where 'a = nat] by simp

lemma hex_digits: "c \<in> set (hex_EncodeToString bs) \<Longrightarrow> is_digit_char c"
proof (induction bs)
  case (Cons b bs)
  have "unat b < 256" by (rule unat_u8_bound)
  then have "unat b div 16 < 16" "unat b mod 16 < 16" by auto
  with Cons show ?case by (auto simp: hex_EncodeToString_def is_digit_char_digit)
qed (simp add: hex_EncodeToString_def)

lemma hex_inj: "hex_EncodeToString bs = hex_EncodeToString cs \<Longrightarrow> bs = cs"
proof (induction bs arbitrary: cs)
  case Nil
  then have "length (hex_EncodeToString cs) = 0" by (simp add: hex_EncodeToString_def)
  then show ?case by simp
next
  case (Cons b bs)
  have "length (hex_EncodeToString cs) = length (hex_EncodeToString (b # bs))" using Cons.prems by simp
  then obtain c ds where cs: "cs = c # ds" by (cases cs) auto
  have hi: "unat x div 16 < 16" for x :: u8
    using unsigned_less [of x, where 'a = nat] by (simp add: less_mult_imp_div_less)
  have dinj: "digit_char m = digit_char n \<Longrightarrow> m < 16 \<Longrightarrow> n < 16 \<Longrightarrow> m = n" for m n
    by (metis digit_val_digit_char)
  from Cons.prems cs have "digit_char (unat b div 16) = digit_char (unat c div 16)"
    "digit_char (unat b mod 16) = digit_char (unat c mod 16)"
    "hex_EncodeToString bs = hex_EncodeToString ds"
    by (simp_all add: hex_EncodeToString_def)
  then have "unat b div 16 = unat c div 16" "unat b mod 16 = unat c mod 16" "bs = ds"
    using dinj hi Cons.IH by simp_all
  then have "unat b = unat c" by (metis div_mult_mod_eq)
  then have "b = c" by (rule unsigned_word_eqI)
  then show ?case using cs \<open>bs = ds\<close> by simp
qed

section \<open>Base 32, extended hex alphabet, no padding\<close>

fun nat_bits :: "nat \<Rightarrow> nat \<Rightarrow> bool list" where
  "nat_bits 0 n = []"
| "nat_bits (Suc k) n = nat_bits k (n div 2) @ [odd n]"

definition bits_nat :: "bool list \<Rightarrow> nat" where
  "bits_nat bs = foldl (\<lambda>n b. 2 * n + of_bool b) 0 bs"

definition enc32_char :: "nat \<Rightarrow> char" where
  "enc32_char n = char_of (if n < 10 then 48 + n else 55 + n)"

definition dec32_char :: "char \<Rightarrow> nat option" where
  "dec32_char c =
     (let n = of_char c in
      if 48 \<le> n \<and> n \<le> 57 then Some (n - 48)
      else if 65 \<le> n \<and> n \<le> 86 then Some (n - 55) else None)"

definition base32_EncodeToString :: "bytes \<Rightarrow> string" where
  "base32_EncodeToString bs =
     (let bits = concat (map (\<lambda>b. nat_bits 8 (unat b)) bs);
          padded = bits @ replicate ((5 - length bits mod 5) mod 5) False
      in map (\<lambda>c. enc32_char (bits_nat c)) (chunks 5 padded))"

fun dec32_chars :: "string \<Rightarrow> bool list option" where
  "dec32_chars [] = Some []"
| "dec32_chars (c # cs) =
     (case (dec32_char c, dec32_chars cs) of
        (Some n, Some bits) \<Rightarrow> Some (nat_bits 5 n @ bits) | _ \<Rightarrow> None)"

definition base32_DecodeString :: "string \<Rightarrow> bytes option" where
  "base32_DecodeString s =
     map_option (\<lambda>bits. map (\<lambda>c. of_nat (bits_nat c)) (chunks 8 (take (8 * (length bits div 8)) bits)))
       (dec32_chars s)"

definition ToLower :: "string \<Rightarrow> string" where
  "ToLower s = map (\<lambda>c. let n = of_char c in if 65 \<le> n \<and> n \<le> 90 then char_of (n + 32 :: nat) else c) s"

definition ToUpper :: "string \<Rightarrow> string" where
  "ToUpper s = map (\<lambda>c. let n = of_char c in if 97 \<le> n \<and> n \<le> 122 then char_of (n - 32 :: nat) else c) s"

lemma length_nat_bits [simp]: "length (nat_bits k n) = k"
  by (induction k arbitrary: n) auto

lemma bits_nat_snoc: "bits_nat (bs @ [b]) = 2 * bits_nat bs + of_bool b"
  by (simp add: bits_nat_def)

lemma bits_nat_nat_bits: "n < 2 ^ k \<Longrightarrow> bits_nat (nat_bits k n) = n"
proof (induction k arbitrary: n)
  case (Suc k)
  then have "bits_nat (nat_bits k (n div 2)) = n div 2" by simp
  then show ?case by (simp add: bits_nat_snoc)
qed (simp add: bits_nat_def)

lemma nat_bits_bits_nat: "nat_bits (length bs) (bits_nat bs) = bs"
  by (induction bs rule: rev_induct) (auto simp: bits_nat_snoc)

lemma bits_nat_bound: "bits_nat bs < 2 ^ length bs"
  by (induction bs rule: rev_induct) (auto simp: bits_nat_snoc bits_nat_def [of "[]"])

lemma concat_chunks: "0 < n \<Longrightarrow> concat (chunks n xs) = xs"
  by (induction n xs rule: chunks.induct) (subst chunks.simps, auto)

lemma chunks_append:
  "0 < n \<Longrightarrow> length x = n \<Longrightarrow> chunks n (x @ xs) = x # chunks n xs"
  by (subst chunks.simps) auto

lemma chunks_concat:
  "0 < n \<Longrightarrow> \<forall>x \<in> set xss. length x = n \<Longrightarrow> chunks n (concat xss) = xss"
  by (induction xss) (auto simp: chunks_append chunks.simps [of n "[]"])

lemma length_mod_0: "length xs mod n = 0 \<Longrightarrow> xs \<noteq> [] \<Longrightarrow> n \<le> length xs"
  by (metis length_0_conv mod_less not_le)

lemma chunks_lengths:
  "0 < n \<Longrightarrow> length xs mod n = 0 \<Longrightarrow> c \<in> set (chunks n xs) \<Longrightarrow> length c = n"
proof (induction n xs rule: chunks.induct)
  case (1 n xs)
  show ?case
  proof (cases "xs = []")
    case False
    with "1.prems" have n: "n \<le> length xs" by (intro length_mod_0)
    then have "length (drop n xs) mod n = 0" using "1.prems" by (simp add: le_mod_geq)
    with 1 False n show ?thesis by (auto simp: chunks.simps [of n xs])
  qed (use "1.prems" in \<open>simp add: chunks.simps\<close>)
qed

lemma length_chunks:
  "0 < n \<Longrightarrow> length xs mod n = 0 \<Longrightarrow> n * length (chunks n xs) = length xs"
proof (induction n xs rule: chunks.induct)
  case (1 n xs)
  show ?case
  proof (cases "xs = []")
    case False
    with "1.prems" have n: "n \<le> length xs" by (intro length_mod_0)
    then have "length (drop n xs) mod n = 0" using "1.prems" by (simp add: le_mod_geq)
    with 1 False n show ?thesis by (auto simp: chunks.simps [of n xs])
  qed (simp add: chunks.simps)
qed

lemma dec_enc32_char: "n < 32 \<Longrightarrow> dec32_char (enc32_char n) = Some n"
  by (auto simp: dec32_char_def enc32_char_def Let_def)

lemma dec32_chars_enc:
  "\<forall>c \<in> set cs. length c = 5 \<Longrightarrow>
     dec32_chars (map (\<lambda>c. enc32_char (bits_nat c)) cs) = Some (concat cs)"
proof (induction cs)
  case (Cons c cs)
  have "bits_nat c < 32" using bits_nat_bound [of c] Cons.prems by simp
  moreover have "nat_bits 5 (bits_nat c) = c"
    using nat_bits_bits_nat [of c] Cons.prems by simp
  ultimately show ?case using Cons by (simp add: dec_enc32_char)
qed simp

definition byte_bits :: "bytes \<Rightarrow> bool list" where
  "byte_bits bs = concat (map (\<lambda>b. nat_bits 8 (unat b)) bs)"

definition pad5 :: "bool list \<Rightarrow> bool list" where
  "pad5 bits = bits @ replicate ((5 - length bits mod 5) mod 5) False"

lemma base32_encode_eq:
  "base32_EncodeToString bs = map (\<lambda>c. enc32_char (bits_nat c)) (chunks 5 (pad5 (byte_bits bs)))"
  by (simp add: base32_EncodeToString_def byte_bits_def pad5_def Let_def)

lemma length_byte_bits [simp]: "length (byte_bits bs) = 8 * length bs"
  by (induction bs) (auto simp: byte_bits_def)

lemma length_pad5: "length (pad5 bits) mod 5 = 0" "length (pad5 bits) < length bits + 5"
proof -
  have "(n + (5 - n mod 5) mod 5) mod 5 = 0" for n :: nat
  proof -
    have "(n + (5 - n mod 5) mod 5) mod 5 = (n mod 5 + (5 - n mod 5)) mod 5"
      by (simp only: mod_add_left_eq mod_add_right_eq)
    also have "n mod 5 + (5 - n mod 5) = 5"
      using mod_less_divisor [of 5 n] by (intro le_add_diff_inverse) simp
    finally show ?thesis by simp
  qed
  then show "length (pad5 bits) mod 5 = 0" by (simp add: pad5_def)
  show "length (pad5 bits) < length bits + 5" by (simp add: pad5_def)
qed

lemma take_pad5: "take (8 * (length (pad5 (byte_bits bs)) div 8)) (pad5 (byte_bits bs)) = byte_bits bs"
proof -
  obtain r where r: "length (pad5 (byte_bits bs)) = 8 * length bs + r" and "r < 5"
    using length_pad5(2) [of "byte_bits bs"]
    by (metis add_less_cancel_left length_append length_byte_bits pad5_def)
  then have "length (pad5 (byte_bits bs)) div 8 = length bs" by simp
  then show ?thesis by (simp add: pad5_def)
qed

lemma base32_round_trip: "base32_DecodeString (base32_EncodeToString bs) = Some bs"
proof -
  let ?p = "pad5 (byte_bits bs)"
  have "dec32_chars (base32_EncodeToString bs) = Some ?p"
    using chunks_lengths [of 5 ?p] length_pad5(1)
    by (simp add: base32_encode_eq dec32_chars_enc concat_chunks)
  then have "base32_DecodeString (base32_EncodeToString bs)
      = Some (map (\<lambda>c. of_nat (bits_nat c)) (chunks 8 (byte_bits bs)))"
    by (simp add: base32_DecodeString_def take_pad5)
  also have "chunks 8 (byte_bits bs) = map (\<lambda>b. nat_bits 8 (unat b)) bs"
    unfolding byte_bits_def by (rule chunks_concat) auto
  also have "map (\<lambda>c. of_nat (bits_nat c)) \<dots> = bs"
    by (simp add: comp_def bits_nat_nat_bits unat_u8_bound)
  finally show ?thesis .
qed

lemma length_base32: "length (base32_EncodeToString bs) = (8 * length bs + 4) div 5"
proof -
  have "5 * length (base32_EncodeToString bs) = length (pad5 (byte_bits bs))"
    by (simp add: base32_encode_eq length_chunks length_pad5)
  moreover have "8 * length bs \<le> length (pad5 (byte_bits bs))"
    by (simp add: pad5_def)
  ultimately show ?thesis
    using length_pad5(2) [of "byte_bits bs"] by simp
qed

definition base32_char :: "char \<Rightarrow> bool" where
  "base32_char c \<longleftrightarrow> (let n = of_char c in (48 \<le> n \<and> n \<le> 57) \<or> (65 \<le> n \<and> n \<le> (86 :: nat)))"

lemma base32_chars: "\<forall>c \<in> set (base32_EncodeToString bs). base32_char c"
proof
  fix c assume "c \<in> set (base32_EncodeToString bs)"
  then obtain d where d: "d \<in> set (chunks 5 (pad5 (byte_bits bs)))"
    and c: "c = enc32_char (bits_nat d)"
    by (auto simp: base32_encode_eq)
  have "length d = 5" using chunks_lengths [OF _ _ d] length_pad5(1) by simp
  then have "bits_nat d < 32" using bits_nat_bound [of d] by simp
  with c show "base32_char c" by (auto simp: enc32_char_def base32_char_def Let_def)
qed

lemma ToUpper_ToLower: "\<forall>c \<in> set s. base32_char c \<Longrightarrow> ToUpper (ToLower s) = s"
  by (induction s) (auto simp: ToUpper_def ToLower_def base32_char_def Let_def)

lemma ToLower_chars:
  "\<forall>c \<in> set s. base32_char c \<Longrightarrow> c \<in> set (ToLower s) \<Longrightarrow>
     ((48 :: nat) \<le> of_char c \<and> of_char c \<le> (57 :: nat))
     \<or> ((97 :: nat) \<le> of_char c \<and> of_char c \<le> (118 :: nat))"
  by (induction s) (auto simp: ToLower_def base32_char_def Let_def split: if_splits)

lemma length_ToLower [simp]: "length (ToLower s) = length s"
  by (simp add: ToLower_def)

end
