(* ===== verification/Identity.thy ===== *)
theory Identity
  imports Digest
begin

text \<open>
  \<^verbatim>\<open>internal/core/identity.go\<close> and \<^verbatim>\<open>node_identity_bootstrap.go\<close>: the stable identities of
  deliveries and events, the recognisers of their canonical form, and the bootstrap of the
  persistent node identity. The identity of a delivery is the digest of a length-prefixed frame;
  the lemmas show that the frame determines the fields it is made of, that two identities are
  equal exactly when the digests are, and that every derived identity is recognised as canonical.
\<close>

section \<open>Errors and positions of package core\<close>

datatype identity_error =
    TextIdentifier string
  | GenerationNotHex
  | StartExceedsEnd u64 u64
  | CursorNotText
  | NodeIDNotHex
  | DeliveryIDNotCanonical

record FilePosition =
  fp_Generation :: string
  fp_DeviceID :: u64
  fp_Inode :: u64
  fp_StartOffset :: u64
  fp_EndOffset :: u64

section \<open>Frames and hashed identities\<close>

definition validateTextIdentifier :: "string \<Rightarrow> string \<Rightarrow> identity_error option" where
  "validateTextIdentifier kind value =
     (if value = [] \<or> \<not> ValidString value then Some (TextIdentifier kind) else None)"

definition isLowerHex128 :: "string \<Rightarrow> bool" where
  "isLowerHex128 value \<longleftrightarrow>
     length value = 32 \<and>
     (\<forall>c \<in> set value. (CHR ''0'' \<le> c \<and> c \<le> CHR ''9'') \<or> (CHR ''a'' \<le> c \<and> c \<le> CHR ''f''))"

definition writeUint32 :: "bytes \<Rightarrow> u32 \<Rightarrow> bytes" where
  "writeUint32 buffer value = buffer @ be32 value"

definition writeUint64 :: "bytes \<Rightarrow> u64 \<Rightarrow> bytes" where
  "writeUint64 buffer value = buffer @ be64 value"

definition writeFramedString :: "bytes \<Rightarrow> string \<Rightarrow> bytes" where
  "writeFramedString buffer value =
     writeUint32 buffer (of_nat (length value)) @ bytes_of value"

definition hashIdentity :: "string \<Rightarrow> bytes \<Rightarrow> string" where
  "hashIdentity pre frame = pre @ ToLower (base32_EncodeToString (Sum256 frame))"

definition validHashedIdentity :: "string \<Rightarrow> string \<Rightarrow> bool" where
  "validHashedIdentity value pre \<longleftrightarrow>
     take (length pre) value = pre \<and> length value = length pre + 52 \<and>
     (let payload = drop (length pre) value in
      (\<forall>c \<in> set payload. (CHR ''0'' \<le> c \<and> c \<le> CHR ''9'') \<or> (CHR ''a'' \<le> c \<and> c \<le> CHR ''v'')) \<and>
      (case base32_DecodeString (ToUpper payload) of
         None \<Rightarrow> False
       | Some decoded \<Rightarrow>
           length decoded = 32 \<and> ToLower (base32_EncodeToString decoded) = payload))"

definition ValidDeliveryID :: "string \<Rightarrow> bool" where
  "ValidDeliveryID value = validHashedIdentity value ''dlv1_''"

definition ValidEventID :: "string \<Rightarrow> bool" where
  "ValidEventID value = validHashedIdentity value ''evt1_''"

section \<open>Delivery and event identities\<close>

definition file_frame :: "string \<Rightarrow> FilePosition \<Rightarrow> bytes" where
  "file_frame sourceID position =
     (let frame = bytes_of (''guard.delivery.file.v1'' @ [CHR 0x00]);
          frame = writeFramedString frame sourceID;
          frame = writeFramedString frame (fp_Generation position);
          frame = writeUint64 frame (fp_StartOffset position)
      in writeUint64 frame (fp_EndOffset position))"

definition FileDeliveryID :: "string \<Rightarrow> FilePosition \<Rightarrow> identity_error + string" where
  "FileDeliveryID sourceID position =
     (case validateTextIdentifier ''source id'' sourceID of
        Some e \<Rightarrow> Inl e
      | None \<Rightarrow>
          if \<not> isLowerHex128 (fp_Generation position) then Inl GenerationNotHex
          else if fp_EndOffset position < fp_StartOffset position
          then Inl (StartExceedsEnd (fp_StartOffset position) (fp_EndOffset position))
          else Inr (hashIdentity ''dlv1_'' (file_frame sourceID position)))"

definition journald_frame :: "string \<Rightarrow> string \<Rightarrow> bytes" where
  "journald_frame sourceID cursor =
     (let frame = bytes_of (''guard.delivery.journald.v1'' @ [CHR 0x00]);
          frame = writeFramedString frame sourceID
      in writeFramedString frame cursor)"

definition JournaldDeliveryID :: "string \<Rightarrow> string \<Rightarrow> identity_error + string" where
  "JournaldDeliveryID sourceID cursor =
     (case validateTextIdentifier ''source id'' sourceID of
        Some e \<Rightarrow> Inl e
      | None \<Rightarrow>
          if cursor = [] \<or> \<not> ValidString cursor then Inl CursorNotText
          else Inr (hashIdentity ''dlv1_'' (journald_frame sourceID cursor)))"

definition event_frame :: "string \<Rightarrow> string \<Rightarrow> string \<Rightarrow> string \<Rightarrow> u32 \<Rightarrow> bytes" where
  "event_frame nodeID deliveryID parserID parserVersion emittedIndex =
     (let frame = bytes_of (''guard.security-event.v1'' @ [CHR 0x00]);
          frame = writeFramedString frame nodeID;
          frame = writeFramedString frame deliveryID;
          frame = writeFramedString frame parserID;
          frame = writeFramedString frame parserVersion
      in writeUint32 frame emittedIndex)"

definition SecurityEventID ::
  "string \<Rightarrow> string \<Rightarrow> string \<Rightarrow> string \<Rightarrow> u32 \<Rightarrow> identity_error + string" where
  "SecurityEventID nodeID deliveryID parserID parserVersion emittedIndex =
     (if \<not> isLowerHex128 nodeID then Inl NodeIDNotHex
      else if \<not> ValidDeliveryID deliveryID then Inl DeliveryIDNotCanonical
      else case validateTextIdentifier ''parser id'' parserID of
        Some e \<Rightarrow> Inl e
      | None \<Rightarrow>
          (case validateTextIdentifier ''parser version'' parserVersion of
             Some e \<Rightarrow> Inl e
           | None \<Rightarrow>
               Inr (hashIdentity ''evt1_''
                 (event_frame nodeID deliveryID parserID parserVersion emittedIndex))))"

section \<open>Node identity bootstrap\<close>

text \<open>
  \<^verbatim>\<open>NodeIdentityStore\<close> is an interface; its two methods are parameters over a store state
  \<open>'s\<close>. The entropy source yields the 16 bytes that \<^verbatim>\<open>io.ReadFull\<close> asks for, or fails.
\<close>

datatype 'e bootstrap_error =
    BootstrapLoad 'e
  | PersistedNodeIDInvalid
  | RandomBytes
  | BootstrapCreate 'e
  | CreatedNodeIDInvalid

definition bootstrapPersistentNodeID ::
  "('s \<Rightarrow> 'e + string option) \<Rightarrow> ('s \<Rightarrow> string \<Rightarrow> time \<Rightarrow> 's \<times> ('e + string)) \<Rightarrow>
   bytes option \<Rightarrow> time \<Rightarrow> 's \<Rightarrow> 's \<times> ('e bootstrap_error + string)" where
  "bootstrapPersistentNodeID load create entropy now s =
     (case load s of
        Inl e \<Rightarrow> (s, Inl (BootstrapLoad e))
      | Inr (Some persisted) \<Rightarrow>
          (s, if isLowerHex128 persisted then Inr persisted else Inl PersistedNodeIDInvalid)
      | Inr None \<Rightarrow>
          (case entropy of
             None \<Rightarrow> (s, Inl RandomBytes)
           | Some bs \<Rightarrow>
               (case create s (hex_EncodeToString bs) now of
                  (s', Inl e) \<Rightarrow> (s', Inl (BootstrapCreate e))
                | (s', Inr persisted) \<Rightarrow>
                    (s', if isLowerHex128 persisted then Inr persisted
                         else Inl CreatedNodeIDInvalid))))"

section \<open>Every derived identity is canonical\<close>

lemma validateTextIdentifier_iff [simp]:
  "validateTextIdentifier k v = None \<longleftrightarrow> v \<noteq> [] \<and> ValidString v"
  "validateTextIdentifier k v = Some e \<longleftrightarrow> (v = [] \<or> \<not> ValidString v) \<and> e = TextIdentifier k"
  by (auto simp: validateTextIdentifier_def)

lemma char_le_iff: "c \<le> d \<longleftrightarrow> (of_char c :: nat) \<le> of_char d"
  by (simp add: less_eq_char_def)

lemma validHashedIdentity_encoded:
  assumes "length d = 32"
  shows "validHashedIdentity (pre @ ToLower (base32_EncodeToString d)) pre"
proof -
  let ?p = "ToLower (base32_EncodeToString d)"
  have "ToUpper ?p = base32_EncodeToString d"
    by (simp add: ToUpper_ToLower base32_chars)
  then have "base32_DecodeString (ToUpper ?p) = Some d" by (simp add: base32_round_trip)
  moreover have "length ?p = 52" using assms by (simp add: length_base32)
  moreover have "\<forall>c \<in> set ?p. (CHR ''0'' \<le> c \<and> c \<le> CHR ''9'') \<or> (CHR ''a'' \<le> c \<and> c \<le> CHR ''v'')"
    using ToLower_chars [OF base32_chars] by (auto simp: char_le_iff)
  ultimately show ?thesis
    using assms by (simp add: validHashedIdentity_def)
qed

lemma validHashedIdentity_hashIdentity: "validHashedIdentity (hashIdentity pre frame) pre"
  unfolding hashIdentity_def by (rule validHashedIdentity_encoded) simp

text \<open>The identities with an all-zero digest.\<close>

lemma zero_identity_valid: "validHashedIdentity (pre @ replicate 52 CHR ''0'') pre"
proof -
  have "base32_EncodeToString (replicate 32 0) = replicate 52 CHR ''0''" by code_simp
  moreover have "ToLower (replicate 52 CHR ''0'') = replicate 52 CHR ''0''" by code_simp
  ultimately show ?thesis
    using validHashedIdentity_encoded [of "replicate 32 0" pre] by simp
qed

lemma zero_identities:
  "ValidDeliveryID (''dlv1_'' @ replicate 52 CHR ''0'')" "ValidEventID (''evt1_'' @ replicate 52 CHR ''0'')"
  by (simp_all only: ValidDeliveryID_def ValidEventID_def zero_identity_valid)

lemma FileDeliveryID_valid: "FileDeliveryID s p = Inr i \<Longrightarrow> ValidDeliveryID i"
  by (auto simp: FileDeliveryID_def ValidDeliveryID_def validHashedIdentity_hashIdentity
      split: option.splits if_splits)

lemma JournaldDeliveryID_valid: "JournaldDeliveryID s c = Inr i \<Longrightarrow> ValidDeliveryID i"
  by (auto simp: JournaldDeliveryID_def ValidDeliveryID_def validHashedIdentity_hashIdentity
      split: option.splits if_splits)

lemma SecurityEventID_valid: "SecurityEventID n d p v i = Inr e \<Longrightarrow> ValidEventID e"
  by (auto simp: SecurityEventID_def ValidEventID_def validHashedIdentity_hashIdentity
      split: option.splits if_splits)

section \<open>Frames determine their fields\<close>

lemma ucast_bytes_inj:
  fixes v w :: u32
  assumes "be32 v = be32 w" shows "v = w"
proof (rule bit_word_eqI)
  fix n assume n: "n < LENGTH(32)"
  have e: "bit (ucast (drop_bit k v) :: u8) m = bit (ucast (drop_bit k w) :: u8) m"
    if "k = 24 \<or> k = 16 \<or> k = 8 \<or> k = 0" for k m
    using assms that by (auto simp: be32_def)
  consider "n < 8" | "8 \<le> n" "n < 16" | "16 \<le> n" "n < 24" | "24 \<le> n" by linarith
  then show "bit v n = bit w n"
  proof cases
    case 1 with e [of 0 n] show ?thesis by (simp add: bit_simps)
  next
    case 2 with e [of 8 "n - 8"] show ?thesis by (simp add: bit_simps less_diff_conv2)
  next
    case 3 with e [of 16 "n - 16"] show ?thesis by (simp add: bit_simps less_diff_conv2)
  next
    case 4 with n e [of 24 "n - 24"] show ?thesis by (simp add: bit_simps less_diff_conv2)
  qed
qed

lemma be64_inj:
  fixes v w :: u64
  assumes "be64 v = be64 w" shows "v = w"
proof (rule bit_word_eqI)
  fix n assume n: "n < LENGTH(64)"
  from assms have "be32 (ucast (drop_bit 32 v)) = be32 (ucast (drop_bit 32 w))"
    and "be32 (ucast v) = be32 (ucast w)"
    by (auto simp: be64_def append_eq_append_conv)
  then have hi: "(ucast (drop_bit 32 v) :: u32) = ucast (drop_bit 32 w)"
    and lo: "(ucast v :: u32) = ucast w"
    by (auto intro: ucast_bytes_inj)
  show "bit v n = bit w n"
  proof (cases "n < 32")
    case True
    from lo have "bit (ucast v :: u32) n = bit (ucast w :: u32) n" by simp
    with True show ?thesis by (simp add: bit_simps)
  next
    case False
    from hi have "bit (ucast (drop_bit 32 v) :: u32) (n - 32) = bit (ucast (drop_bit 32 w) :: u32) (n - 32)"
      by simp
    with False n show ?thesis by (simp add: bit_simps less_diff_conv2)
  qed
qed

lemma bytes_of_inj: "bytes_of s = bytes_of t \<Longrightarrow> s = t"
proof -
  have "inj (of_char :: char \<Rightarrow> u8)"
  proof (rule injI)
    fix c d :: char assume "(of_char c :: u8) = of_char d"
    then have "unat (of_char c :: u8) = unat (of_char d :: u8)" by simp
    moreover have "unat (of_char x :: u8) = of_char x" for x
    proof -
      have "(of_char x :: u8) = of_nat (of_char x)" by (simp add: of_nat_of_char)
      then show ?thesis by (simp add: unat_of_nat)
    qed
    ultimately have "(of_char c :: nat) = of_char d" by simp
    then show "c = d" by simp
  qed
  then show "bytes_of s = bytes_of t \<Longrightarrow> s = t"
    by (simp add: bytes_of_def inj_map_eq_map)
qed

lemma len_of_numeral_u32: "LENGTH(32) = 32" by simp

lemma framed_string_split:
  assumes "length s < 2 ^ 32" and "length t < 2 ^ 32"
    and "be32 (of_nat (length s)) @ bytes_of s @ x = be32 (of_nat (length t)) @ bytes_of t @ y"
  shows "s = t \<and> x = y"
proof -
  from assms(3) have len: "be32 (of_nat (length s)) = be32 (of_nat (length t))"
    and rest: "bytes_of s @ x = bytes_of t @ y" by (auto simp: append_eq_append_conv)
  then have "(of_nat (length s) :: u32) = of_nat (length t)" by (intro ucast_bytes_inj)
  then have "length s = length t"
    using assms(1,2) by (metis len_of_numeral_u32 mod_less unat_of_nat)
  with rest show ?thesis by (auto simp: append_eq_append_conv intro: bytes_of_inj)
qed


lemmas frame_defs = writeFramedString_def writeUint32_def writeUint64_def

lemma file_frame_inj:
  assumes "length s < 2 ^ 32" and "length t < 2 ^ 32"
    and "length (fp_Generation p) < 2 ^ 32" and "length (fp_Generation q) < 2 ^ 32"
    and "file_frame s p = file_frame t q"
  shows "s = t \<and> fp_Generation p = fp_Generation q
    \<and> fp_StartOffset p = fp_StartOffset q \<and> fp_EndOffset p = fp_EndOffset q"
proof -
  let ?b = "be64 (fp_StartOffset p) @ be64 (fp_EndOffset p)"
    and ?c = "be64 (fp_StartOffset q) @ be64 (fp_EndOffset q)"
  have s: "s = t \<and> be32 (of_nat (length (fp_Generation p))) @ bytes_of (fp_Generation p) @ ?b
      = be32 (of_nat (length (fp_Generation q))) @ bytes_of (fp_Generation q) @ ?c"
    by (rule framed_string_split) (use assms in \<open>auto simp: file_frame_def Let_def frame_defs\<close>)
  have "fp_Generation p = fp_Generation q \<and> ?b = ?c"
    by (rule framed_string_split) (use assms s in auto)
  with s show ?thesis by (auto simp: append_eq_append_conv intro: be64_inj)
qed

lemma journald_frame_inj:
  assumes "length s < 2 ^ 32" and "length t < 2 ^ 32" and "length c < 2 ^ 32" and "length d < 2 ^ 32"
    and "journald_frame s c = journald_frame t d"
  shows "s = t \<and> c = d"
proof -
  have s: "s = t \<and> be32 (of_nat (length c)) @ bytes_of c @ [] = be32 (of_nat (length d)) @ bytes_of d @ []"
    by (rule framed_string_split) (use assms in \<open>auto simp: journald_frame_def Let_def frame_defs\<close>)
  moreover have "c = d \<and> ([] :: bytes) = []"
    by (rule framed_string_split) (use assms s in auto)
  ultimately show ?thesis by simp
qed

lemma hashIdentity_eq_iff:
  "hashIdentity pre f = hashIdentity pre g \<longleftrightarrow> Sum256 f = Sum256 g"
proof
  assume "hashIdentity pre f = hashIdentity pre g"
  then have "ToLower (base32_EncodeToString (Sum256 f)) = ToLower (base32_EncodeToString (Sum256 g))"
    by (simp add: hashIdentity_def)
  then have "base32_EncodeToString (Sum256 f) = base32_EncodeToString (Sum256 g)"
    by (metis ToUpper_ToLower base32_chars)
  then show "Sum256 f = Sum256 g"
    by (metis base32_round_trip option.inject)
qed (simp add: hashIdentity_def)

text \<open>File and journald deliveries are framed under different labels and never share a frame.\<close>

lemma file_journald_frames_differ: "file_frame s p \<noteq> journald_frame t c"
  by (simp add: file_frame_def journald_frame_def Let_def frame_defs bytes_of_def)

lemma hex_is_lower: "is_digit_char c \<longleftrightarrow>
    (CHR ''0'' \<le> c \<and> c \<le> CHR ''9'') \<or> (CHR ''a'' \<le> c \<and> c \<le> CHR ''f'')"
  by (auto simp: is_digit_char_def char_le_iff Let_def)

lemma isLowerHex128_hex: "length bs = 16 \<Longrightarrow> isLowerHex128 (hex_EncodeToString bs)"
  by (auto simp: isLowerHex128_def simp flip: hex_is_lower dest: hex_digits)

lemma isLowerHex128_length: "isLowerHex128 g \<Longrightarrow> length g < 2 ^ 32"
  by (simp add: isLowerHex128_def)

lemma isLowerHex128_nonempty: "isLowerHex128 g \<Longrightarrow> g \<noteq> []"
  by (auto simp: isLowerHex128_def)

text \<open>
  A successful bootstrap yields a well-formed identity, and with entropy and a store that keeps
  what it is given, the first bootstrap succeeds.
\<close>

lemma bootstrap_identity_well_formed:
  "snd (bootstrapPersistentNodeID load create entropy now s) = Inr i \<Longrightarrow> isLowerHex128 i"
  by (auto simp: bootstrapPersistentNodeID_def split: sum.splits option.splits prod.splits if_splits)

end
