(* ===== verification/Core_Model.thy ===== *)
theory Core_Model
  imports Identity
begin

text \<open>
  \<^verbatim>\<open>internal/core/model.go\<close>, first part: source positions, deliveries, durable completions and
  the terminal records of processing (receipts, parser and detection outcomes, alerts), each with
  its \<^verbatim>\<open>Validate\<close>. Go's closed enumerations are datatypes with one extra constructor for the
  byte values outside the enumeration, which validation rejects.
\<close>

section \<open>Source positions\<close>

text \<open>\<^verbatim>\<open>SourcePosition\<close> is a tagged union; \<open>NoPosition\<close> is its zero value.\<close>

datatype SourcePosition = NoPosition | PositionFile FilePosition | PositionJournald string

datatype core_error =
    IdentityError identity_error
  | SequenceNotPositive
  | ObservedTimeRequired
  | PositionInvalid
  | DeriveDeliveryID identity_error
  | UnsupportedPosition
  | DeliveryIDNotBound
  | CompletedTimeRequired
  | OutcomeCombination
  | UnsupportedOutcomeKind u8
  | EventIDNotCanonical
  | FailureCodeRequired identity_error
  | FailureCodeTooLong
  | ContributionTimeRequired
  | AlertTargetNotCanonical
  | AlertTimestampsInvalid
  | ReceiptPositionOrTimeRequired
  | SuccessReceiptWithFailure
  | PermanentReceiptWithoutFailure
  | PermanentFailureIncomplete
  | UnsupportedReceiptKind u8

definition NewFilePosition :: "FilePosition \<Rightarrow> identity_error + SourcePosition" where
  "NewFilePosition position =
     (if \<not> isLowerHex128 (fp_Generation position) then Inl GenerationNotHex
      else if fp_EndOffset position < fp_StartOffset position
      then Inl (StartExceedsEnd (fp_StartOffset position) (fp_EndOffset position))
      else Inr (PositionFile position))"

definition NewJournaldPosition :: "string \<Rightarrow> identity_error + SourcePosition" where
  "NewJournaldPosition cursor =
     (case validateTextIdentifier ''journald cursor'' cursor of
        Some e \<Rightarrow> Inl e | None \<Rightarrow> Inr (PositionJournald cursor))"

fun SourcePosition_File :: "SourcePosition \<Rightarrow> FilePosition option" where
  "SourcePosition_File (PositionFile f) = Some f"
| "SourcePosition_File _ = None"

fun SourcePosition_Journald :: "SourcePosition \<Rightarrow> string option" where
  "SourcePosition_Journald (PositionJournald c) = Some c"
| "SourcePosition_Journald _ = None"

fun SourcePosition_Valid :: "SourcePosition \<Rightarrow> bool" where
  "SourcePosition_Valid (PositionFile f) =
     (isLowerHex128 (fp_Generation f) \<and> fp_StartOffset f \<le> fp_EndOffset f)"
| "SourcePosition_Valid (PositionJournald c) = (validateTextIdentifier ''journald cursor'' c = None)"
| "SourcePosition_Valid NoPosition = False"

definition deliveryIDForPosition :: "string \<Rightarrow> SourcePosition \<Rightarrow> core_error + string" where
  "deliveryIDForPosition sourceID position =
     (case SourcePosition_File position of
        Some f \<Rightarrow> map_err DeriveDeliveryID (FileDeliveryID sourceID f)
      | None \<Rightarrow>
          (case SourcePosition_Journald position of
             Some c \<Rightarrow> map_err DeriveDeliveryID (JournaldDeliveryID sourceID c)
           | None \<Rightarrow> Inl UnsupportedPosition))"

section \<open>Deliveries\<close>

record RawRecord =
  rr_SourceID :: string
  rr_ObservedAt :: time
  rr_Position :: SourcePosition
  rr_Content :: bytes
  rr_Metadata :: "string \<rightharpoonup> string"

record Delivery =
  dl_ID :: string
  dl_Sequence :: u64
  dl_Record :: RawRecord

definition Delivery_Validate :: "Delivery \<Rightarrow> core_error option" where
  "Delivery_Validate d =
     (if \<not> ValidDeliveryID (dl_ID d) then Some (IdentityError DeliveryIDNotCanonical)
      else if dl_Sequence d = 0 then Some SequenceNotPositive
      else case validateTextIdentifier ''source id'' (rr_SourceID (dl_Record d)) of
        Some e \<Rightarrow> Some (IdentityError e)
      | None \<Rightarrow>
          if IsZero (rr_ObservedAt (dl_Record d)) then Some ObservedTimeRequired
          else if \<not> SourcePosition_Valid (rr_Position (dl_Record d)) then Some PositionInvalid
          else (case deliveryIDForPosition (rr_SourceID (dl_Record d)) (rr_Position (dl_Record d)) of
                  Inl e \<Rightarrow> Some e
                | Inr expected \<Rightarrow> if dl_ID d \<noteq> expected then Some DeliveryIDNotBound else None))"

record DurableCompletion =
  dc_SourceID :: string
  dc_DeliveryID :: string
  dc_Sequence :: u64
  dc_Position :: SourcePosition

section \<open>Terminal outcomes and receipts\<close>

datatype ReceiptKind = ReceiptSuccess | ReceiptRecordPermanent | ReceiptKind_other u8

datatype FailureClass =
    FailureRecordPermanent | FailurePlanBlocked | FailureTransient | FailureCancelled
  | FailureClass_other u8

record PermanentFailure =
  pf_Stage :: string
  pf_Code :: string
  pf_SanitizedError :: string
  pf_Action :: string
  pf_OccurredAt :: time

record ProcessingReceipt =
  pr_DeliveryID :: string
  pr_SourceID :: string
  pr_Position :: SourcePosition
  pr_Kind :: ReceiptKind
  pr_Failure :: "PermanentFailure option"
  pr_Committed :: time

datatype ParserOutcomeKind =
    ParserOutcomeSuccess | ParserOutcomeNoMatch | ParserOutcomeRecordPermanent
  | ParserOutcomeKind_other u8

record ParserTerminalOutcome =
  po_DeliveryID :: string
  po_ParserID :: string
  po_ParserVersion :: string
  po_Kind :: ParserOutcomeKind
  po_EmittedCount :: u32
  po_FailureCode :: string
  po_CompletedAt :: time

definition ParserTerminalOutcome_Validate :: "ParserTerminalOutcome \<Rightarrow> core_error option" where
  "ParserTerminalOutcome_Validate v =
     (if \<not> ValidDeliveryID (po_DeliveryID v) then Some (IdentityError DeliveryIDNotCanonical)
      else case validateTextIdentifier ''parser id'' (po_ParserID v) of
        Some e \<Rightarrow> Some (IdentityError e)
      | None \<Rightarrow>
          (case validateTextIdentifier ''parser version'' (po_ParserVersion v) of
             Some e \<Rightarrow> Some (IdentityError e)
           | None \<Rightarrow>
               if IsZero (po_CompletedAt v) then Some CompletedTimeRequired
               else (case po_Kind v of
                  ParserOutcomeSuccess \<Rightarrow>
                    if po_EmittedCount v = 0 \<or> po_FailureCode v \<noteq> [] then Some OutcomeCombination
                    else None
                | ParserOutcomeNoMatch \<Rightarrow>
                    if po_EmittedCount v \<noteq> 0 \<or> po_FailureCode v \<noteq> [] then Some OutcomeCombination
                    else None
                | ParserOutcomeRecordPermanent \<Rightarrow>
                    if po_EmittedCount v \<noteq> 0 \<or> po_FailureCode v = [] then Some OutcomeCombination
                    else None
                | ParserOutcomeKind_other k \<Rightarrow> Some (UnsupportedOutcomeKind k))))"

record DetectionContribution =
  ct_DeliveryID :: string
  ct_EventID :: string
  ct_RuleID :: string
  ct_RuleVersion :: string
  ct_ContributedAt :: time

datatype DetectionOutcomeKind =
    DetectionOutcomeSuccess | DetectionOutcomeRecordPermanent | DetectionOutcomeKind_other u8

record DetectionTerminalOutcome =
  do_DeliveryID :: string
  do_EventID :: string
  do_RuleID :: string
  do_RuleVersion :: string
  do_Kind :: DetectionOutcomeKind
  do_FailureCode :: string
  do_CompletedAt :: time

definition DetectionTerminalOutcome_Validate :: "DetectionTerminalOutcome \<Rightarrow> core_error option" where
  "DetectionTerminalOutcome_Validate v =
     (if \<not> ValidDeliveryID (do_DeliveryID v) then Some (IdentityError DeliveryIDNotCanonical)
      else if \<not> ValidEventID (do_EventID v) then Some EventIDNotCanonical
      else case validateTextIdentifier ''rule id'' (do_RuleID v) of
        Some e \<Rightarrow> Some (IdentityError e)
      | None \<Rightarrow>
          (case validateTextIdentifier ''rule version'' (do_RuleVersion v) of
             Some e \<Rightarrow> Some (IdentityError e)
           | None \<Rightarrow>
               if IsZero (do_CompletedAt v) then Some CompletedTimeRequired
               else (case do_Kind v of
                  DetectionOutcomeSuccess \<Rightarrow>
                    if do_FailureCode v \<noteq> [] then Some OutcomeCombination else None
                | DetectionOutcomeRecordPermanent \<Rightarrow>
                    (case validateTextIdentifier ''detection failure code'' (do_FailureCode v) of
                       Some e \<Rightarrow> Some (FailureCodeRequired e)
                     | None \<Rightarrow>
                         if 128 < length (do_FailureCode v) then Some FailureCodeTooLong else None)
                | DetectionOutcomeKind_other k \<Rightarrow> Some (UnsupportedOutcomeKind k))))"

definition DetectionContribution_Validate :: "DetectionContribution \<Rightarrow> core_error option" where
  "DetectionContribution_Validate c =
     (if \<not> ValidDeliveryID (ct_DeliveryID c) then Some (IdentityError DeliveryIDNotCanonical)
      else if \<not> ValidEventID (ct_EventID c) then Some EventIDNotCanonical
      else case validateTextIdentifier ''rule id'' (ct_RuleID c) of
        Some e \<Rightarrow> Some (IdentityError e)
      | None \<Rightarrow>
          (case validateTextIdentifier ''rule version'' (ct_RuleVersion c) of
             Some e \<Rightarrow> Some (IdentityError e)
           | None \<Rightarrow> if IsZero (ct_ContributedAt c) then Some ContributionTimeRequired else None))"

record Alert =
  al_ID :: string
  al_NodeID :: string
  al_EventID :: string
  al_RuleID :: string
  al_RuleVersion :: string
  al_CanonicalTarget :: Prefix
  al_ObservedAt :: time
  al_CreatedAt :: time

definition Alert_Validate :: "Alert \<Rightarrow> core_error option" where
  "Alert_Validate a =
     (case validateTextIdentifier ''alert id'' (al_ID a) of
        Some e \<Rightarrow> Some (IdentityError e)
      | None \<Rightarrow>
          if \<not> isLowerHex128 (al_NodeID a) then Some (IdentityError NodeIDNotHex)
          else if \<not> ValidEventID (al_EventID a) then Some EventIDNotCanonical
          else (case validateTextIdentifier ''rule id'' (al_RuleID a) of
             Some e \<Rightarrow> Some (IdentityError e)
           | None \<Rightarrow>
               (case validateTextIdentifier ''rule version'' (al_RuleVersion a) of
                  Some e \<Rightarrow> Some (IdentityError e)
                | None \<Rightarrow>
                    if \<not> Prefix_IsValid (al_CanonicalTarget a)
                       \<or> al_CanonicalTarget a \<noteq> Masked (al_CanonicalTarget a)
                    then Some AlertTargetNotCanonical
                    else if IsZero (al_ObservedAt a) \<or> al_CreatedAt a < al_ObservedAt a
                    then Some AlertTimestampsInvalid
                    else None)))"

definition ProcessingReceipt_Validate :: "ProcessingReceipt \<Rightarrow> core_error option" where
  "ProcessingReceipt_Validate r =
     (if \<not> ValidDeliveryID (pr_DeliveryID r) then Some (IdentityError DeliveryIDNotCanonical)
      else case validateTextIdentifier ''receipt source id'' (pr_SourceID r) of
        Some e \<Rightarrow> Some (IdentityError e)
      | None \<Rightarrow>
          if \<not> SourcePosition_Valid (pr_Position r) \<or> IsZero (pr_Committed r)
          then Some ReceiptPositionOrTimeRequired
          else (case deliveryIDForPosition (pr_SourceID r) (pr_Position r) of
             Inl e \<Rightarrow> Some e
           | Inr expected \<Rightarrow>
               if pr_DeliveryID r \<noteq> expected then Some DeliveryIDNotBound
               else (case pr_Kind r of
                  ReceiptSuccess \<Rightarrow>
                    if pr_Failure r \<noteq> None then Some SuccessReceiptWithFailure else None
                | ReceiptRecordPermanent \<Rightarrow>
                    (case pr_Failure r of
                       None \<Rightarrow> Some PermanentReceiptWithoutFailure
                     | Some f \<Rightarrow>
                         if pf_Stage f = [] \<or> pf_Code f = [] \<or> pf_SanitizedError f = []
                            \<or> pf_Action f = [] \<or> IsZero (pf_OccurredAt f)
                         then Some PermanentFailureIncomplete else None)
                | ReceiptKind_other k \<Rightarrow> Some (UnsupportedReceiptKind k))))"

section \<open>Lemmas\<close>

lemma NewFilePosition_valid: "NewFilePosition f = Inr p \<longleftrightarrow> p = PositionFile f \<and> SourcePosition_Valid p"
  by (auto simp: NewFilePosition_def)

lemma NewJournaldPosition_valid:
  "NewJournaldPosition c = Inr p \<longleftrightarrow> p = PositionJournald c \<and> SourcePosition_Valid p"
  by (auto simp: NewJournaldPosition_def split: option.splits)

text \<open>A valid position of a well-named source always has a delivery identity, and a canonical one.\<close>

lemma deliveryIDForPosition_total:
  assumes "SourcePosition_Valid p" and "s \<noteq> []" and "ValidString s"
  shows "\<exists>i. deliveryIDForPosition s p = Inr i \<and> ValidDeliveryID i"
proof (cases p)
  case (PositionFile f)
  with assms have "\<exists>i. FileDeliveryID s f = Inr i"
    by (auto simp: FileDeliveryID_def split: option.splits)
  with PositionFile show ?thesis
    by (auto simp: deliveryIDForPosition_def dest: FileDeliveryID_valid)
next
  case (PositionJournald c)
  with assms have "\<exists>i. JournaldDeliveryID s c = Inr i"
    by (auto simp: JournaldDeliveryID_def split: option.splits)
  with PositionJournald show ?thesis
    by (auto simp: deliveryIDForPosition_def dest: JournaldDeliveryID_valid)
qed (use assms in simp)

lemma deliveryIDForPosition_valid: "deliveryIDForPosition s p = Inr i \<Longrightarrow> ValidDeliveryID i"
  by (cases p) (auto simp: deliveryIDForPosition_def dest: FileDeliveryID_valid JournaldDeliveryID_valid)

lemma Delivery_Validate_None_iff:
  "Delivery_Validate d = None \<longleftrightarrow>
     dl_Sequence d \<noteq> 0 \<and> rr_SourceID (dl_Record d) \<noteq> [] \<and> ValidString (rr_SourceID (dl_Record d))
     \<and> \<not> IsZero (rr_ObservedAt (dl_Record d)) \<and> SourcePosition_Valid (rr_Position (dl_Record d))
     \<and> deliveryIDForPosition (rr_SourceID (dl_Record d)) (rr_Position (dl_Record d)) = Inr (dl_ID d)"
  by (auto simp: Delivery_Validate_def dest: deliveryIDForPosition_valid
      split: option.splits sum.splits if_splits)

lemma ProcessingReceipt_Validate_None_iff:
  "ProcessingReceipt_Validate r = None \<longleftrightarrow>
     pr_SourceID r \<noteq> [] \<and> ValidString (pr_SourceID r)
     \<and> SourcePosition_Valid (pr_Position r) \<and> \<not> IsZero (pr_Committed r)
     \<and> deliveryIDForPosition (pr_SourceID r) (pr_Position r) = Inr (pr_DeliveryID r)
     \<and> ((pr_Kind r = ReceiptSuccess \<and> pr_Failure r = None)
        \<or> (pr_Kind r = ReceiptRecordPermanent \<and>
           (\<exists>f. pr_Failure r = Some f \<and> pf_Stage f \<noteq> [] \<and> pf_Code f \<noteq> [] \<and> pf_SanitizedError f \<noteq> []
                \<and> pf_Action f \<noteq> [] \<and> \<not> IsZero (pf_OccurredAt f))))"
  by (auto simp: ProcessingReceipt_Validate_def dest: deliveryIDForPosition_valid
      split: option.splits sum.splits if_splits ReceiptKind.splits)

section \<open>Properties\<close>

text \<open>The bytes digested for a position, and the fields of a position that take part in them.\<close>

fun position_frame :: "string \<Rightarrow> SourcePosition \<Rightarrow> bytes" where
  "position_frame s (PositionFile f) = file_frame s f"
| "position_frame s (PositionJournald c) = journald_frame s c"
| "position_frame s NoPosition = []"

fun same_origin :: "SourcePosition \<Rightarrow> SourcePosition \<Rightarrow> bool" where
  "same_origin (PositionFile f) (PositionFile g) =
     (fp_Generation f = fp_Generation g \<and> fp_StartOffset f = fp_StartOffset g
      \<and> fp_EndOffset f = fp_EndOffset g)"
| "same_origin (PositionJournald c) (PositionJournald d) = (c = d)"
| "same_origin _ _ = False"

fun position_small :: "SourcePosition \<Rightarrow> bool" where
  "position_small (PositionJournald c) = (length c < 2 ^ 32)"
| "position_small _ = True"

lemma deliveryIDForPosition_frame:
  "deliveryIDForPosition s p = Inr i \<Longrightarrow> i = hashIdentity ''dlv1_'' (position_frame s p)"
  by (cases p) (auto simp: deliveryIDForPosition_def FileDeliveryID_def JournaldDeliveryID_def
      split: option.splits if_splits)

lemma position_frame_inj:
  assumes "SourcePosition_Valid p" "SourcePosition_Valid q" "position_small p" "position_small q"
    and "length s < 2 ^ 32" "length t < 2 ^ 32"
  shows "position_frame s p = position_frame t q \<longleftrightarrow> s = t \<and> same_origin p q"
proof (cases p)
  case (PositionFile f)
  show ?thesis
  proof (cases q)
    case (PositionFile g)
    have eq: "s = t \<and> same_origin p q" if "file_frame s f = file_frame t g"
      using file_frame_inj [OF assms(5,6) _ _ that] isLowerHex128_length assms(1,2) PositionFile \<open>p = PositionFile f\<close>
      by simp
    then show ?thesis using PositionFile \<open>p = PositionFile f\<close> by (auto simp: file_frame_def)
  qed (use PositionFile assms(2) file_journald_frames_differ in auto)
next
  case (PositionJournald c)
  show ?thesis
  proof (cases q)
    case (PositionJournald d)
    have "s = t \<and> c = d" if "journald_frame s c = journald_frame t d"
      using journald_frame_inj [OF assms(5,6) _ _ that] assms(3,4) PositionJournald \<open>p = PositionJournald c\<close>
      by simp
    then show ?thesis using PositionJournald \<open>p = PositionJournald c\<close> by auto
  qed (use PositionJournald assms(2) file_journald_frames_differ [symmetric] in auto)
qed (use assms(1) in simp)

text \<open>
  Claim C10. Two valid positions of named sources have canonical delivery identities; the
  identities are equal exactly when the SHA-256 sums of the framed fields are, and the framed
  fields are equal exactly when the source, and the generation and offsets or the cursor, are:
  no two positions that differ in these share a frame, whatever bytes the names contain. The device and
  inode of a file position are not part of the frame.
\<close>

theorem delivery_identity_injective:
  assumes "SourcePosition_Valid p" "SourcePosition_Valid q" "position_small p" "position_small q"
    and "s \<noteq> []" "ValidString s" "length s < 2 ^ 32" "t \<noteq> []" "ValidString t" "length t < 2 ^ 32"
  shows "\<exists>i j. deliveryIDForPosition s p = Inr i \<and> deliveryIDForPosition t q = Inr j
     \<and> ValidDeliveryID i \<and> ValidDeliveryID j
     \<and> (i = j \<longleftrightarrow> Sum256 (position_frame s p) = Sum256 (position_frame t q))
     \<and> (position_frame s p = position_frame t q \<longleftrightarrow> s = t \<and> same_origin p q)"
proof -
  obtain i j where ij: "deliveryIDForPosition s p = Inr i" "ValidDeliveryID i"
      "deliveryIDForPosition t q = Inr j" "ValidDeliveryID j"
    using deliveryIDForPosition_total assms by metis
  moreover have "i = j \<longleftrightarrow> Sum256 (position_frame s p) = Sum256 (position_frame t q)"
    using deliveryIDForPosition_frame [OF ij(1)] deliveryIDForPosition_frame [OF ij(3)]
    by (simp add: hashIdentity_eq_iff)
  moreover have "position_frame s p = position_frame t q \<longleftrightarrow> s = t \<and> same_origin p q"
    using assms by (intro position_frame_inj)
  ultimately show ?thesis by blast
qed

theorem delivery_identity_injective_witness:
  "position_frame ''ab'' (PositionJournald ''c'') \<noteq> position_frame ''a'' (PositionJournald ''bc'')"
proof -
  have v: "SourcePosition_Valid (PositionJournald ''c'')" "SourcePosition_Valid (PositionJournald ''bc'')"
    and s: "ValidString ''ab''" "ValidString ''a''"
    by code_simp+
  show ?thesis using delivery_identity_injective [OF v _ _ _ s(1) _ _ s(2)] by (simp, blast)
qed

end
