(* ===== verification/Core_Decision.thy ===== *)
theory Core_Decision
  imports Core_Model
begin

text \<open>
  \<^verbatim>\<open>internal/core/model.go\<close>, second part: security decisions, the ban projection of one target
  and the normalized enforcement intent, with the combinations their \<^verbatim>\<open>Validate\<close> methods
  admit. The \<open>_None_iff\<close> lemmas state each admitted combination as one formula.
\<close>

section \<open>Decisions\<close>

datatype DecisionSource = DecisionSourceAutomatic | DecisionSourceManual | DecisionSource_other u8

datatype DecisionState = DecisionActive | DecisionExpired | DecisionRevoked | DecisionState_other u8

datatype DecisionEndReason =
    EndReasonExpired | EndReasonManual | EndReasonManualReplace | EndReasonRuleDisabled
  | EndReasonSystemCleanup | EndReason_other string

record Decision =
  dec_ID :: string
  dec_NodeID :: string
  dec_Source :: DecisionSource
  dec_RuleID :: "string option"
  dec_RuleVersion :: "string option"
  dec_AlertID :: "string option"
  dec_CanonicalTarget :: Prefix
  dec_CreatedAt :: time
  dec_UpdatedAt :: time
  dec_LastTriggeredAt :: time
  dec_ExpiresAt :: "time option"
  dec_EndedAt :: "time option"
  dec_State :: DecisionState
  dec_EndReason :: "DecisionEndReason option"
  dec_SuppressedCount :: u64

datatype decision_error =
    DecisionIDInvalid identity_error
  | DecisionNodeNotHex
  | DecisionTargetNotCanonical
  | AutomaticWithoutRule
  | UnsupportedDecisionSource DecisionSource
  | DecisionTimestampsInvalid
  | ExpiryPrecedesCreation
  | ActiveWithTerminalFields
  | TerminalFieldsRequired
  | EndPrecedesCreation
  | ExpiredWithoutExpiry
  | EndedBeforeExpiry
  | UnsupportedDecisionState DecisionState
  | ManualReplaceNotManual
  | RuleDisabledNotAutomatic
  | InvalidRevokedReason DecisionEndReason

text \<open>The state-dependent part of \<^verbatim>\<open>Decision.Validate\<close>, reached once the checks common to
  all states have passed.\<close>

definition Decision_Validate_state :: "Decision \<Rightarrow> decision_error option" where
  "Decision_Validate_state d =
     (if dec_State d = DecisionActive
      then (if dec_EndReason d \<noteq> None \<or> dec_EndedAt d \<noteq> None
            then Some ActiveWithTerminalFields else None)
      else (case (dec_EndReason d, dec_EndedAt d) of
         (Some reason, Some ended) \<Rightarrow>
           if ended < dec_CreatedAt d then Some EndPrecedesCreation
           else if dec_State d = DecisionExpired \<and> reason = EndReasonExpired
           then (case dec_ExpiresAt d of
                   None \<Rightarrow> Some ExpiredWithoutExpiry
                 | Some x \<Rightarrow> if ended < x then Some EndedBeforeExpiry else None)
           else if dec_State d \<noteq> DecisionRevoked then Some (UnsupportedDecisionState (dec_State d))
           else (case reason of
                   EndReasonManual \<Rightarrow> None
                 | EndReasonSystemCleanup \<Rightarrow> None
                 | EndReasonManualReplace \<Rightarrow>
                     if dec_Source d \<noteq> DecisionSourceManual then Some ManualReplaceNotManual else None
                 | EndReasonRuleDisabled \<Rightarrow>
                     if dec_Source d \<noteq> DecisionSourceAutomatic then Some RuleDisabledNotAutomatic
                     else None
                 | _ \<Rightarrow> Some (InvalidRevokedReason reason))
       | _ \<Rightarrow> Some TerminalFieldsRequired))"

definition Decision_Validate :: "Decision \<Rightarrow> decision_error option" where
  "Decision_Validate d =
     (case validateTextIdentifier ''decision id'' (dec_ID d) of
        Some e \<Rightarrow> Some (DecisionIDInvalid e)
      | None \<Rightarrow>
      if \<not> isLowerHex128 (dec_NodeID d) then Some DecisionNodeNotHex
      else if \<not> Prefix_IsValid (dec_CanonicalTarget d)
              \<or> dec_CanonicalTarget d \<noteq> Masked (dec_CanonicalTarget d)
      then Some DecisionTargetNotCanonical
      else if dec_Source d = DecisionSourceAutomatic
              \<and> (case dec_RuleID d of None \<Rightarrow> True
                 | Some r \<Rightarrow> validateTextIdentifier ''rule id'' r \<noteq> None)
      then Some AutomaticWithoutRule
      else if dec_Source d \<noteq> DecisionSourceAutomatic \<and> dec_Source d \<noteq> DecisionSourceManual
      then Some (UnsupportedDecisionSource (dec_Source d))
      else if IsZero (dec_CreatedAt d) \<or> dec_UpdatedAt d < dec_CreatedAt d
              \<or> dec_LastTriggeredAt d < dec_CreatedAt d
      then Some DecisionTimestampsInvalid
      else if (case dec_ExpiresAt d of None \<Rightarrow> False | Some x \<Rightarrow> x < dec_CreatedAt d)
      then Some ExpiryPrecedesCreation
      else Decision_Validate_state d)"

text \<open>What validation requires of every decision, whatever its state.\<close>

definition decision_identity_ok :: "Decision \<Rightarrow> bool" where
  "decision_identity_ok d \<longleftrightarrow>
     dec_ID d \<noteq> [] \<and> ValidString (dec_ID d) \<and> isLowerHex128 (dec_NodeID d)
     \<and> canonical (dec_CanonicalTarget d)
     \<and> (dec_Source d = DecisionSourceManual
        \<or> (dec_Source d = DecisionSourceAutomatic
           \<and> (\<exists>r. dec_RuleID d = Some r \<and> r \<noteq> [] \<and> ValidString r)))"

definition decision_times_ok :: "Decision \<Rightarrow> bool" where
  "decision_times_ok d \<longleftrightarrow>
     \<not> IsZero (dec_CreatedAt d) \<and> dec_CreatedAt d \<le> dec_UpdatedAt d
     \<and> dec_CreatedAt d \<le> dec_LastTriggeredAt d
     \<and> (\<forall>x. dec_ExpiresAt d = Some x \<longrightarrow> dec_CreatedAt d \<le> x)"

definition decision_end_ok :: "Decision \<Rightarrow> bool" where
  "decision_end_ok d \<longleftrightarrow>
     (case dec_State d of
        DecisionActive \<Rightarrow> dec_EndReason d = None \<and> dec_EndedAt d = None
      | DecisionExpired \<Rightarrow>
          dec_EndReason d = Some EndReasonExpired
          \<and> (\<exists>x e. dec_ExpiresAt d = Some x \<and> dec_EndedAt d = Some e \<and> x \<le> e \<and> dec_CreatedAt d \<le> e)
      | DecisionRevoked \<Rightarrow>
          (\<exists>e. dec_EndedAt d = Some e \<and> dec_CreatedAt d \<le> e)
          \<and> (dec_EndReason d = Some EndReasonManual \<or> dec_EndReason d = Some EndReasonSystemCleanup
             \<or> (dec_EndReason d = Some EndReasonManualReplace \<and> dec_Source d = DecisionSourceManual)
             \<or> (dec_EndReason d = Some EndReasonRuleDisabled \<and> dec_Source d = DecisionSourceAutomatic))
      | DecisionState_other _ \<Rightarrow> False)"

section \<open>Projections\<close>

datatype BanProjectionState = BanProjectionAbsent | BanProjectionPresent | BanProjectionState_other u8

record DesiredBanProjection =
  proj_NodeID :: string
  proj_CanonicalTarget :: Prefix
  proj_State :: BanProjectionState
  proj_ActiveCount :: u64
  proj_EffectiveUntil :: "time option"
  proj_Revision :: u64

datatype projection_error =
    ProjectionNodeNotHex
  | ProjectionTargetNotCanonical
  | ProjectionRevisionZero
  | AbsentWithActive
  | PresentWithoutActive
  | EffectiveExpiryInvalid
  | UnsupportedProjectionState u8

definition DesiredBanProjection_Validate :: "DesiredBanProjection \<Rightarrow> projection_error option" where
  "DesiredBanProjection_Validate p =
     (if \<not> isLowerHex128 (proj_NodeID p) then Some ProjectionNodeNotHex
      else if \<not> Prefix_IsValid (proj_CanonicalTarget p)
              \<or> proj_CanonicalTarget p \<noteq> Masked (proj_CanonicalTarget p)
      then Some ProjectionTargetNotCanonical
      else if proj_Revision p = 0 then Some ProjectionRevisionZero
      else (case proj_State p of
         BanProjectionAbsent \<Rightarrow>
           if proj_ActiveCount p \<noteq> 0 \<or> proj_EffectiveUntil p \<noteq> None then Some AbsentWithActive
           else None
       | BanProjectionPresent \<Rightarrow>
           if proj_ActiveCount p = 0 then Some PresentWithoutActive
           else if (case proj_EffectiveUntil p of None \<Rightarrow> False | Some t \<Rightarrow> IsZero t)
           then Some EffectiveExpiryInvalid else None
       | BanProjectionState_other k \<Rightarrow> Some (UnsupportedProjectionState k)))"

section \<open>Enforcement intents\<close>

datatype BanMembership = BanAbsent | BanPresent | BanMembership_other u8
datatype TimeoutMode = TimeoutNone | TimeoutNative | TimeoutMode_other u8
datatype PolicyCoverage =
    PolicyCoverageNone | PolicyCoveragePartial | PolicyCoverageFull | PolicyCoverage_other u8
datatype AddressFamily = AddressFamilyIPv4 | AddressFamilyIPv6 | AddressFamily_other u8

type_synonym EnforcementScope = u8

definition ScopeInput :: EnforcementScope where "ScopeInput = 1"
definition ScopeForward :: EnforcementScope where "ScopeForward = 2"

record NormalizedTargetEnforcementIntent =
  int_NodeID :: string
  int_CanonicalTarget :: Prefix
  int_BanMembership :: BanMembership
  int_EffectiveUntil :: "time option"
  int_TimeoutMode :: TimeoutMode
  int_Scopes :: EnforcementScope
  int_AddressFamily :: AddressFamily
  int_PolicyCoverage :: PolicyCoverage
  int_PolicyRelationDigest :: string
  int_BackendAttributesDigest :: string
  int_Generation :: u64

datatype intent_error =
    IntentNodeNotHex
  | IntentTargetNotCanonical
  | IntentGenerationZero
  | UnsupportedBanMembership u8
  | UnsupportedTimeoutMode u8
  | UnsupportedPolicyCoverage u8
  | UnsupportedScopes EnforcementScope
  | AddressFamilyMismatch
  | AbsentWithTimeout
  | NativeWithoutExpiry
  | IntentExpiryInvalid

definition scopes_ok :: "EnforcementScope \<Rightarrow> bool" where
  "scopes_ok s \<longleftrightarrow> \<not> (s = 0 \<or> s AND NOT (ScopeInput OR ScopeForward) \<noteq> 0)"

definition NormalizedTargetEnforcementIntent_Validate ::
  "NormalizedTargetEnforcementIntent \<Rightarrow> intent_error option" where
  "NormalizedTargetEnforcementIntent_Validate i =
     (if \<not> isLowerHex128 (int_NodeID i) then Some IntentNodeNotHex
      else if \<not> Prefix_IsValid (int_CanonicalTarget i)
              \<or> int_CanonicalTarget i \<noteq> Masked (int_CanonicalTarget i)
      then Some IntentTargetNotCanonical
      else if int_Generation i = 0 then Some IntentGenerationZero
      else case int_BanMembership i of BanMembership_other k \<Rightarrow> Some (UnsupportedBanMembership k) | _ \<Rightarrow>
      (case int_TimeoutMode i of TimeoutMode_other k \<Rightarrow> Some (UnsupportedTimeoutMode k) | _ \<Rightarrow>
      (case int_PolicyCoverage i of PolicyCoverage_other k \<Rightarrow> Some (UnsupportedPolicyCoverage k) | _ \<Rightarrow>
      if \<not> scopes_ok (int_Scopes i) then Some (UnsupportedScopes (int_Scopes i))
      else if int_AddressFamily i \<noteq>
                (if Is4 (pfx_addr (int_CanonicalTarget i)) then AddressFamilyIPv4 else AddressFamilyIPv6)
      then Some AddressFamilyMismatch
      else if int_BanMembership i = BanAbsent
              \<and> (int_EffectiveUntil i \<noteq> None \<or> int_TimeoutMode i \<noteq> TimeoutNone)
      then Some AbsentWithTimeout
      else if int_TimeoutMode i = TimeoutNative \<and> int_EffectiveUntil i = None
      then Some NativeWithoutExpiry
      else if (case int_EffectiveUntil i of None \<Rightarrow> False | Some t \<Rightarrow> IsZero t)
      then Some IntentExpiryInvalid
      else None)))"

section \<open>The admitted combinations\<close>

lemma canonical_neg: "(\<not> Prefix_IsValid p \<or> p \<noteq> Masked p) \<longleftrightarrow> \<not> canonical p"
  by (auto simp: canonical_def)

lemma Decision_Validate_state_None_iff: "Decision_Validate_state d = None \<longleftrightarrow> decision_end_ok d"
proof (cases "dec_EndReason d")
  case None
  then show ?thesis
    by (cases "dec_State d") (simp_all add: Decision_Validate_state_def decision_end_ok_def)
next
  case (Some r)
  then show ?thesis
    by (cases "dec_EndedAt d"; cases "dec_ExpiresAt d"; cases "dec_State d"; cases r)
      (auto simp: Decision_Validate_state_def decision_end_ok_def)
qed

lemma if_Some_None: "(if b then Some e else x) = None \<longleftrightarrow> \<not> b \<and> x = None"
  by simp

lemma case_err_None: "(case r of Some e \<Rightarrow> Some (f e) | None \<Rightarrow> x) = None \<longleftrightarrow> r = None \<and> x = None"
  by (cases r) simp_all

lemma rule_case: "(case r of None \<Rightarrow> True | Some x \<Rightarrow> P x) \<longleftrightarrow> \<not> (\<exists>x. r = Some x \<and> \<not> P x)"
  by (cases r) simp_all

lemma expiry_case: "(case r of None \<Rightarrow> False | Some x \<Rightarrow> P x) \<longleftrightarrow> (\<exists>x. r = Some x \<and> P x)"
  by (cases r) simp_all

lemma Decision_Validate_None_iff:
  "Decision_Validate d = None \<longleftrightarrow> decision_identity_ok d \<and> decision_times_ok d \<and> decision_end_ok d"
proof -
  have rule: "(\<exists>x. dec_RuleID d = Some x \<and> validateTextIdentifier k x = None) \<longleftrightarrow>
     (\<exists>r. dec_RuleID d = Some r \<and> r \<noteq> [] \<and> ValidString r)" for k
    by (simp only: validateTextIdentifier_iff)
  show ?thesis
    unfolding Decision_Validate_def canonical_neg case_err_None if_Some_None rule_case expiry_case
      Decision_Validate_state_None_iff validateTextIdentifier_iff not_not rule
      decision_identity_ok_def decision_times_ok_def not_less
    by (cases "dec_Source d";
        simp only: DecisionSource.distinct simp_thms de_Morgan_disj de_Morgan_conj not_ex imp_conv_disj
          not_all not_less conj_assoc)
qed

lemma DesiredBanProjection_Validate_None_iff:
  "DesiredBanProjection_Validate p = None \<longleftrightarrow>
     isLowerHex128 (proj_NodeID p) \<and> canonical (proj_CanonicalTarget p) \<and> proj_Revision p \<noteq> 0
     \<and> ((proj_State p = BanProjectionAbsent \<and> proj_ActiveCount p = 0 \<and> proj_EffectiveUntil p = None)
        \<or> (proj_State p = BanProjectionPresent \<and> proj_ActiveCount p \<noteq> 0
           \<and> (\<forall>t. proj_EffectiveUntil p = Some t \<longrightarrow> \<not> IsZero t)))"
  unfolding DesiredBanProjection_Validate_def canonical_neg
  by (auto split: if_splits BanProjectionState.splits option.splits)

lemma Intent_Validate_None_iff:
  "NormalizedTargetEnforcementIntent_Validate i = None \<longleftrightarrow>
     isLowerHex128 (int_NodeID i) \<and> canonical (int_CanonicalTarget i) \<and> int_Generation i \<noteq> 0
     \<and> int_PolicyCoverage i \<in> {PolicyCoverageNone, PolicyCoveragePartial, PolicyCoverageFull}
     \<and> scopes_ok (int_Scopes i)
     \<and> int_AddressFamily i =
         (if Is4 (pfx_addr (int_CanonicalTarget i)) then AddressFamilyIPv4 else AddressFamilyIPv6)
     \<and> ((int_BanMembership i = BanAbsent \<and> int_EffectiveUntil i = None \<and> int_TimeoutMode i = TimeoutNone)
        \<or> (int_BanMembership i = BanPresent
           \<and> (\<forall>t. int_EffectiveUntil i = Some t \<longrightarrow> \<not> IsZero t)
           \<and> (int_TimeoutMode i = TimeoutNone
              \<or> (int_TimeoutMode i = TimeoutNative \<and> int_EffectiveUntil i \<noteq> None))))"
  unfolding NormalizedTargetEnforcementIntent_Validate_def canonical_neg
  by (cases "int_BanMembership i"; cases "int_TimeoutMode i"; cases "int_PolicyCoverage i";
      cases "int_EffectiveUntil i") auto

text \<open>A valid decision that is still active carries no terminal field.\<close>

lemma active_no_end:
  "Decision_Validate d = None \<Longrightarrow> dec_State d = DecisionActive \<Longrightarrow>
     dec_EndReason d = None \<and> dec_EndedAt d = None"
  by (simp add: Decision_Validate_None_iff decision_end_ok_def)

lemma scopes_ok_iff: "scopes_ok s \<longleftrightarrow> s = 1 \<or> s = 2 \<or> s = 3"
proof
  assume ok: "scopes_ok s"
  then have "s AND NOT (mask 2) = 0"
    by (simp add: scopes_ok_def ScopeInput_def ScopeForward_def mask_eq_exp_minus_1)
  then have "s = take_bit 2 s"
    by (auto simp: bit_eq_iff bit_simps)
  then have "unat s = take_bit 2 (unat s)"
    by (metis unsigned_take_bit_eq)
  then have "unat s < 4" by (simp add: take_bit_eq_mod)
  moreover have "s \<noteq> 0" using ok by (simp add: scopes_ok_def)
  ultimately have "unat s = 1 \<or> unat s = 2 \<or> unat s = 3"
    by (cases "unat s" rule: nat.exhaust) (auto simp: unat_eq_0)
  then show "s = 1 \<or> s = 2 \<or> s = 3"
    by (auto intro: word_unat_eq_iff [THEN iffD2])
next
  assume "s = 1 \<or> s = 2 \<or> s = 3"
  then show "scopes_ok s"
    by (auto simp: scopes_ok_def ScopeInput_def ScopeForward_def)
qed

end
