(* ===== verification/Core_Policy.thy ===== *)
theory Core_Policy
  imports Digest Netip_Text Core_Decision
begin

text \<open>
  \<^verbatim>\<open>internal/core/model.go\<close>, third part: the managed policy payload, the desired firewall state
  and the desired snapshot. A slice whose nil-ness the code inspects is a \<open>slice\<close>, with
  \<^term>\<open>None\<close> for \<^verbatim>\<open>nil\<close>; copying with \<^verbatim>\<open>append([]T(nil), s...)\<close> turns an empty slice into
  \<^verbatim>\<open>nil\<close>.
\<close>

type_synonym 'a slice = "'a list option"

definition elems :: "'a slice \<Rightarrow> 'a list" where
  "elems s = (case s of None \<Rightarrow> [] | Some xs \<Rightarrow> xs)"

definition append_nil :: "'a list \<Rightarrow> 'a slice" where
  "append_nil xs = (if xs = [] then None else Some xs)"

record ManagedInfrastructureIntent =
  mi_Backend :: string
  mi_OwnerVersion :: string
  mi_Digest :: string

record ManagedPolicyIntent =
  mp_RelationDigest :: string
  mp_Allowlist :: "Prefix slice"
  mp_ProtectedTargets :: "Prefix slice"

record DesiredFirewallState =
  dfs_SnapshotRevision :: u64
  dfs_PolicyRevision :: u64
  dfs_Policy :: ManagedPolicyIntent
  dfs_Targets :: "NormalizedTargetEnforcementIntent list"

definition maxManagedPolicyPrefixes :: nat where
  "maxManagedPolicyPrefixes = 1024"

datatype managed_policy_error =
    ManagedNonCanonicalPrefix string
  | ManagedDuplicatePrefix string
  | ManagedTooManyPrefixes
  | ManagedMissingMandatory
  | ManagedPolicyIncomplete
  | ManagedDigestMismatch
  | ManagedPrefixesNotCanonical

definition canonicalPolicyPrefixes :: "string \<Rightarrow> Prefix slice \<Rightarrow> managed_policy_error + Prefix slice" where
  "canonicalPolicyPrefixes name prefixes =
     (case prefixes of
        None \<Rightarrow> Inr None
      | Some ps \<Rightarrow>
        if \<exists>p\<in>set ps. \<not> Prefix_IsValid p \<or> p \<noteq> Masked p then Inl (ManagedNonCanonicalPrefix name)
        else (let prepared = sort_key Prefix_String ps in
              if adjacent_dup prepared then Inl (ManagedDuplicatePrefix name)
              else Inr (append_nil prepared)))"

definition containsPolicyPrefix :: "Prefix list \<Rightarrow> Prefix \<Rightarrow> bool" where
  "containsPolicyPrefix prefixes want \<longleftrightarrow> list_ex (\<lambda>p. p = want) prefixes"

definition equalPolicyPrefixes :: "Prefix list \<Rightarrow> Prefix list \<Rightarrow> bool" where
  "equalPolicyPrefixes left right \<longleftrightarrow>
     length left = length right \<and> list_all2 (\<lambda>l r. l = r) left right"

definition policy_part :: "string \<Rightarrow> Prefix \<Rightarrow> string" where
  "policy_part name p =
     name @ ''_'' @ (if Is4 (pfx_addr p) then ''v4'' else ''v6'') @ '':'' @ Prefix_String p"

definition policy_text :: "Prefix list \<Rightarrow> Prefix list \<Rightarrow> string" where
  "policy_text allowlist protectedTargets =
     ''guard-nftables-policy/v1'' @ [CHR 0x0A]
     @ join (CHR 0x0A) (sort (map (policy_part ''allow'') allowlist
                              @ map (policy_part ''protected'') protectedTargets))"

definition managedPolicyRelationDigest :: "Prefix list \<Rightarrow> Prefix list \<Rightarrow> string" where
  "managedPolicyRelationDigest allowlist protectedTargets =
     hex_EncodeToString (Sum256 (bytes_of (policy_text allowlist protectedTargets)))"

text \<open>The two mandatory protected targets, \<^verbatim>\<open>127.0.0.0/8\<close> and \<^verbatim>\<open>::1/128\<close>.\<close>

definition loopback4 :: Prefix where
  "loopback4 = PrefixFrom (Addr4 0x7F000000) 8"

definition loopback6 :: Prefix where
  "loopback6 = PrefixFrom (Addr6 1 []) 128"

definition NewManagedPolicyIntent ::
  "Prefix slice \<Rightarrow> Prefix slice \<Rightarrow> managed_policy_error + ManagedPolicyIntent" where
  "NewManagedPolicyIntent allowlist protectedTargets =
     bind_result (canonicalPolicyPrefixes ''allowlist'' allowlist) (\<lambda>allow.
     bind_result (canonicalPolicyPrefixes ''protected targets'' protectedTargets) (\<lambda>protected.
     if length (elems allow) + length (elems protected) > maxManagedPolicyPrefixes
     then Inl ManagedTooManyPrefixes
     else if length (elems protected) < 2 \<or> \<not> containsPolicyPrefix (elems protected) loopback4
             \<or> \<not> containsPolicyPrefix (elems protected) loopback6
     then Inl ManagedMissingMandatory
     else Inr \<lparr> mp_RelationDigest = managedPolicyRelationDigest (elems allow) (elems protected),
                mp_Allowlist = allow, mp_ProtectedTargets = protected \<rparr>))"

text \<open>\<^verbatim>\<open>NewInitialManagedPolicyIntent\<close> of \<^verbatim>\<open>managed_policy_bootstrap.go\<close>.\<close>

definition NewInitialManagedPolicyIntent :: "managed_policy_error + ManagedPolicyIntent" where
  "NewInitialManagedPolicyIntent = NewManagedPolicyIntent None (Some [loopback4, loopback6])"

definition Complete :: "ManagedPolicyIntent \<Rightarrow> bool" where
  "Complete i \<longleftrightarrow> mp_RelationDigest i \<noteq> [] \<and> mp_ProtectedTargets i \<noteq> None"

definition ValidateComplete :: "ManagedPolicyIntent \<Rightarrow> managed_policy_error option" where
  "ValidateComplete i =
     (if \<not> Complete i then Some ManagedPolicyIncomplete
      else (case NewManagedPolicyIntent (mp_Allowlist i) (mp_ProtectedTargets i) of
         Inl e \<Rightarrow> Some e
       | Inr v \<Rightarrow>
         if mp_RelationDigest i \<noteq> mp_RelationDigest v then Some ManagedDigestMismatch
         else if \<not> equalPolicyPrefixes (elems (mp_Allowlist i)) (elems (mp_Allowlist v))
                 \<or> \<not> equalPolicyPrefixes (elems (mp_ProtectedTargets i)) (elems (mp_ProtectedTargets v))
         then Some ManagedPrefixesNotCanonical
         else None))"

section \<open>Desired snapshots\<close>

record DesiredFirewallSnapshot =
  ds_SnapshotRevision :: u64
  ds_InfrastructureRevision :: u64
  ds_PolicyRevision :: u64
  ds_Infrastructure :: ManagedInfrastructureIntent
  ds_Policy :: ManagedPolicyIntent
  ds_Targets :: "NormalizedTargetEnforcementIntent list"

datatype desired_snapshot_error =
    DesiredRevisionsNotPositive
  | DesiredInfrastructureIncomplete
  | DesiredPolicyDigestMissing
  | DesiredPolicyPayload managed_policy_error
  | DesiredTargetInvalid intent_error
  | DesiredTargetDuplicate Prefix

fun validate_targets ::
  "Prefix list \<Rightarrow> NormalizedTargetEnforcementIntent list \<Rightarrow> desired_snapshot_error option" where
  "validate_targets seen [] = None"
| "validate_targets seen (intent # rest) =
     (case NormalizedTargetEnforcementIntent_Validate intent of
        Some e \<Rightarrow> Some (DesiredTargetInvalid e)
      | None \<Rightarrow>
        if int_CanonicalTarget intent \<in> set seen then Some (DesiredTargetDuplicate (int_CanonicalTarget intent))
        else validate_targets (int_CanonicalTarget intent # seen) rest)"

definition DesiredFirewallSnapshot_Validate :: "DesiredFirewallSnapshot \<Rightarrow> desired_snapshot_error option" where
  "DesiredFirewallSnapshot_Validate s =
     (if ds_SnapshotRevision s = 0 \<or> ds_InfrastructureRevision s = 0 \<or> ds_PolicyRevision s = 0
      then Some DesiredRevisionsNotPositive
      else if mi_Backend (ds_Infrastructure s) = [] \<or> mi_OwnerVersion (ds_Infrastructure s) = []
              \<or> mi_Digest (ds_Infrastructure s) = []
      then Some DesiredInfrastructureIncomplete
      else if mp_RelationDigest (ds_Policy s) = [] then Some DesiredPolicyDigestMissing
      else (case (if mp_Allowlist (ds_Policy s) \<noteq> None \<or> mp_ProtectedTargets (ds_Policy s) \<noteq> None
                  then ValidateComplete (ds_Policy s) else None) of
         Some e \<Rightarrow> Some (DesiredPolicyPayload e)
       | None \<Rightarrow> validate_targets [] (ds_Targets s)))"

definition NewDesiredFirewallSnapshot ::
  "DesiredFirewallSnapshot \<Rightarrow> desired_snapshot_error + DesiredFirewallSnapshot" where
  "NewDesiredFirewallSnapshot s =
     (case DesiredFirewallSnapshot_Validate s of
        Some e \<Rightarrow> Inl e
      | None \<Rightarrow> Inr (s
          \<lparr>ds_Policy := (ds_Policy s)
             \<lparr>mp_Allowlist := append_nil (elems (mp_Allowlist (ds_Policy s))),
              mp_ProtectedTargets := append_nil (elems (mp_ProtectedTargets (ds_Policy s)))\<rparr>,
           ds_Targets := sort_key (\<lambda>i. Prefix_String (int_CanonicalTarget i)) (ds_Targets s)\<rparr>))"

section \<open>Lemmas on the policy payload\<close>

lemma elems_simps [simp]:
  "elems None = []" "elems (Some xs) = xs" "elems (append_nil xs) = xs"
  by (simp_all add: elems_def append_nil_def)

lemma equalPolicyPrefixes_iff [simp]: "equalPolicyPrefixes l r \<longleftrightarrow> l = r"
  by (auto simp: equalPolicyPrefixes_def list_all2_eq [symmetric])

lemma containsPolicyPrefix_iff [simp]: "containsPolicyPrefix ps p \<longleftrightarrow> p \<in> set ps"
  by (auto simp: containsPolicyPrefix_def list_ex_iff)

lemma canonicals_inj: "\<forall>p\<in>A. canonical p \<Longrightarrow> inj_on Prefix_String A"
  by (auto intro!: Prefix_String_inj_on dest: canonical_valid)

text \<open>The accepted prefix lists, and their stored order.\<close>

lemma canonicalPolicyPrefixes_Inr_iff:
  "canonicalPolicyPrefixes name s = Inr r \<longleftrightarrow>
     (\<forall>p\<in>set (elems s). canonical p) \<and> distinct (elems s)
     \<and> r = append_nil (sort_key Prefix_String (elems s))"
proof (cases s)
  case None
  then show ?thesis by (auto simp: canonicalPolicyPrefixes_def append_nil_def)
next
  case (Some ps)
  show ?thesis
  proof (cases "\<forall>p\<in>set ps. canonical p")
    case True
    then have "inj_on Prefix_String (set (sort_key Prefix_String ps))" by (simp add: canonicals_inj)
    then have "adjacent_dup (sort_key Prefix_String ps) \<longleftrightarrow> \<not> distinct ps"
      using adjacent_dup_sorted [of Prefix_String "sort_key Prefix_String ps"] by simp
    with True Some show ?thesis
      unfolding canonicalPolicyPrefixes_def canonical_neg by (auto simp: Let_def)
  next
    case False
    with Some show ?thesis unfolding canonicalPolicyPrefixes_def canonical_neg by auto
  qed
qed

definition policy_acceptable :: "Prefix list \<Rightarrow> Prefix list \<Rightarrow> bool" where
  "policy_acceptable allow protected \<longleftrightarrow>
     (\<forall>p\<in>set allow \<union> set protected. canonical p) \<and> distinct allow \<and> distinct protected
     \<and> length allow + length protected \<le> maxManagedPolicyPrefixes
     \<and> loopback4 \<in> set protected \<and> loopback6 \<in> set protected"

definition policy_of :: "Prefix list \<Rightarrow> Prefix list \<Rightarrow> ManagedPolicyIntent" where
  "policy_of allow protected =
     \<lparr> mp_RelationDigest = managedPolicyRelationDigest (sort_key Prefix_String allow)
                                                        (sort_key Prefix_String protected),
       mp_Allowlist = append_nil (sort_key Prefix_String allow),
       mp_ProtectedTargets = append_nil (sort_key Prefix_String protected) \<rparr>"

lemma loopbacks_differ [simp]: "loopback4 \<noteq> loopback6"
  by (simp add: loopback4_def loopback6_def PrefixFrom_def)

lemma two_elements: "a \<in> set xs \<Longrightarrow> b \<in> set xs \<Longrightarrow> a \<noteq> b \<Longrightarrow> \<not> length xs < 2"
  by (cases xs rule: remdups_adj.cases) auto

lemma NewManagedPolicyIntent_Inr_iff:
  "NewManagedPolicyIntent a p = Inr v \<longleftrightarrow> policy_acceptable (elems a) (elems p) \<and> v = policy_of (elems a) (elems p)"
proof -
  have "length (sort_key Prefix_String xs) < 2 \<longleftrightarrow> length xs < 2" for xs by simp
  then show ?thesis
    using two_elements [OF _ _ loopbacks_differ, of "elems p"]
    by (auto simp: NewManagedPolicyIntent_def canonicalPolicyPrefixes_Inr_iff policy_acceptable_def policy_of_def
        split: if_splits)
qed

lemma hex_EncodeToString_Sum256_nonempty: "hex_EncodeToString (Sum256 m) \<noteq> []"
  by (metis length_hex length_Sum256 list.size(3) mult_is_0 zero_neq_numeral)

lemma sort_key_sort_key [simp]: "sort_key f (sort_key f xs) = sort_key f xs"
  by (rule sort_key_id_if_sorted) (rule sorted_sort_key)

lemma policy_of_sorted [simp]:
  "policy_of (sort_key Prefix_String a) (sort_key Prefix_String p) = policy_of a p"
  "policy_acceptable (sort_key Prefix_String a) (sort_key Prefix_String p) = policy_acceptable a p"
  by (simp_all add: policy_of_def policy_acceptable_def)

text \<open>A payload is complete exactly when it is the constructor's result for acceptable lists.\<close>

lemma ValidateComplete_None_iff:
  "ValidateComplete i = None \<longleftrightarrow>
     policy_acceptable (elems (mp_Allowlist i)) (elems (mp_ProtectedTargets i))
     \<and> sort_key Prefix_String (elems (mp_Allowlist i)) = elems (mp_Allowlist i)
     \<and> sort_key Prefix_String (elems (mp_ProtectedTargets i)) = elems (mp_ProtectedTargets i)
     \<and> mp_RelationDigest i = managedPolicyRelationDigest (elems (mp_Allowlist i)) (elems (mp_ProtectedTargets i))"
    (is "_ \<longleftrightarrow> ?R")
proof (cases "NewManagedPolicyIntent (mp_Allowlist i) (mp_ProtectedTargets i)")
  case (Inl e)
  then have "\<not> policy_acceptable (elems (mp_Allowlist i)) (elems (mp_ProtectedTargets i))"
    using NewManagedPolicyIntent_Inr_iff by (metis Inl_Inr_False)
  with Inl show ?thesis by (simp add: ValidateComplete_def)
next
  case (Inr v)
  then have acc: "policy_acceptable (elems (mp_Allowlist i)) (elems (mp_ProtectedTargets i))"
    and v: "v = policy_of (elems (mp_Allowlist i)) (elems (mp_ProtectedTargets i))"
    by (simp_all add: NewManagedPolicyIntent_Inr_iff)
  have some: "mp_ProtectedTargets i \<noteq> None"
    using acc by (cases "mp_ProtectedTargets i") (auto simp: policy_acceptable_def)
  have ne: "managedPolicyRelationDigest a p \<noteq> []" for a p
    by (simp add: managedPolicyRelationDigest_def hex_EncodeToString_Sum256_nonempty)
  show ?thesis
  proof (cases "mp_RelationDigest i = []")
    case True
    then show ?thesis using ne by (simp add: ValidateComplete_def Complete_def) (metis ne)
  next
    case False
    then show ?thesis
      using Inr acc some by (auto simp: ValidateComplete_def Complete_def v policy_of_def)
  qed
qed

lemma policy_of_complete: "policy_acceptable a p \<Longrightarrow> ValidateComplete (policy_of a p) = None"
  unfolding ValidateComplete_None_iff by (simp add: policy_of_def policy_acceptable_def)

lemma policy_of_cong:
  assumes "policy_acceptable a p" and "policy_acceptable a' p'" and "set a = set a'" and "set p = set p'"
  shows "policy_of a p = policy_of a' p'"
proof -
  have inj: "inj_on Prefix_String (set a)" "inj_on Prefix_String (set p)"
    using assms(1) by (auto simp: policy_acceptable_def intro: canonicals_inj)
  have "mset a = mset a'" "mset p = mset p'"
    using assms by (simp_all add: policy_acceptable_def set_eq_iff_mset_eq_distinct)
  then show ?thesis
    using sort_key_permutes [of a a' Prefix_String] sort_key_permutes [of p p' Prefix_String] inj
    by (simp add: policy_of_def)
qed

section \<open>The digest text binds the payload\<close>

lemma newline_not_digit [simp]: "\<not> is_digit_char (CHR 0x0A)"
  by (simp add: is_digit_char_def)

lemma Addr_String_no_newline: "Zone a = [] \<Longrightarrow> CHR 0x0A \<notin> set (Addr_String a)"
  by (cases a) (auto dest!: string4_chars string6_chars)

lemma Prefix_String_no_newline: "Prefix_IsValid p \<Longrightarrow> CHR 0x0A \<notin> set (Prefix_String p)"
  using Addr_String_no_newline [of "pfx_addr p"] valid_addr(2) [of p]
  by (auto simp: Prefix_String_def dest: Itoa_digits)

lemma policy_part_no_newline:
  "Prefix_IsValid p \<Longrightarrow> CHR 0x0A \<notin> set (policy_part ''allow'' p)"
  "Prefix_IsValid p \<Longrightarrow> CHR 0x0A \<notin> set (policy_part ''protected'' p)"
  by (simp_all add: policy_part_def Prefix_String_no_newline)

lemma policy_part_inj:
  "Prefix_IsValid p \<Longrightarrow> Prefix_IsValid q \<Longrightarrow> policy_part n p = policy_part n q \<Longrightarrow> p = q"
  by (auto simp: policy_part_def Prefix_String_inj split: if_splits)

lemma policy_part_kinds: "policy_part ''allow'' p \<noteq> policy_part ''protected'' q"
  by (simp add: policy_part_def)

lemma disjoint_union_parts:
  "A \<union> B = C \<union> D \<Longrightarrow> A \<inter> D = {} \<Longrightarrow> C \<inter> B = {} \<Longrightarrow> A = C \<and> B = D"
  by blast

lemma policy_parts_disjoint: "policy_part ''allow'' ` A \<inter> policy_part ''protected'' ` B = {}"
  using policy_part_kinds by blast

definition policy_lines :: "Prefix list \<Rightarrow> Prefix list \<Rightarrow> string list" where
  "policy_lines a p = sort (map (policy_part ''allow'') a @ map (policy_part ''protected'') p)"

lemma set_policy_lines:
  "set (policy_lines a p) = policy_part ''allow'' ` set a \<union> policy_part ''protected'' ` set p"
  by (simp add: policy_lines_def)

lemma policy_lines_split:
  assumes "policy_acceptable a p"
  shows "split_on (CHR 0x0A) (join (CHR 0x0A) (policy_lines a p)) = policy_lines a p"
proof (rule split_on_join)
  have "policy_part ''protected'' loopback4 \<in> set (policy_lines a p)"
    using assms by (simp add: set_policy_lines policy_acceptable_def)
  then show "policy_lines a p \<noteq> []" by auto
  have val: "\<forall>x\<in>set a \<union> set p. Prefix_IsValid x"
    using assms canonical_valid by (simp add: policy_acceptable_def)
  then show "\<forall>t\<in>set (policy_lines a p). CHR 0x0A \<notin> set t"
    unfolding set_policy_lines using policy_part_no_newline by blast
qed

lemma policy_part_image_inj:
  assumes "\<forall>x\<in>A \<union> B. Prefix_IsValid x" and "policy_part n ` A = policy_part n ` B"
  shows "A = B"
proof -
  have "inj_on (policy_part n) (A \<union> B)"
    using assms(1) policy_part_inj by (intro inj_onI) blast
  from inj_on_image_eq_iff [OF this Un_upper1 Un_upper2] assms(2) show ?thesis by simp
qed

lemma policy_text_inj:
  assumes ok: "policy_acceptable a p" "policy_acceptable a' p'"
    and eq: "policy_text a p = policy_text a' p'"
  shows "set a = set a' \<and> set p = set p'"
proof -
  have "join (CHR 0x0A) (policy_lines a p) = join (CHR 0x0A) (policy_lines a' p')"
    using eq by (simp add: policy_text_def policy_lines_def)
  then have "policy_lines a p = policy_lines a' p'"
    using policy_lines_split [OF ok(1)] policy_lines_split [OF ok(2)] by metis
  then have un: "policy_part ''allow'' ` set a \<union> policy_part ''protected'' ` set p
      = policy_part ''allow'' ` set a' \<union> policy_part ''protected'' ` set p'"
    by (metis set_policy_lines)
  note parts = disjoint_union_parts [OF un policy_parts_disjoint policy_parts_disjoint]
  have val: "\<forall>x\<in>set a \<union> set a'. Prefix_IsValid x" "\<forall>x\<in>set p \<union> set p'. Prefix_IsValid x"
    using ok by (auto simp: policy_acceptable_def intro: canonical_valid)
  show ?thesis
    using policy_part_image_inj [OF val(1) conjunct1 [OF parts]]
      policy_part_image_inj [OF val(2) conjunct2 [OF parts]] by simp
qed

section \<open>Lemmas on snapshots\<close>

lemma validate_targets_None_iff:
  "validate_targets seen is = None \<longleftrightarrow>
     (\<forall>i\<in>set is. NormalizedTargetEnforcementIntent_Validate i = None)
     \<and> distinct (map int_CanonicalTarget is) \<and> set seen \<inter> int_CanonicalTarget ` set is = {}"
  by (induction seen "is" rule: validate_targets.induct) (auto split: option.splits)

lemma targets_inj:
  assumes "validate_targets [] is = None"
  shows "inj_on (\<lambda>i. Prefix_String (int_CanonicalTarget i)) (set is)"
proof (rule inj_onI)
  fix i j assume ij: "i \<in> set is" "j \<in> set is"
    and eq: "Prefix_String (int_CanonicalTarget i) = Prefix_String (int_CanonicalTarget j)"
  have "int_CanonicalTarget i = int_CanonicalTarget j"
    using assms ij eq Prefix_String_inj
    by (simp add: validate_targets_None_iff Intent_Validate_None_iff canonical_valid)
  with assms ij show "i = j"
    by (simp add: validate_targets_None_iff distinct_map inj_on_def)
qed

lemma ValidateComplete_append_nil:
  "ValidateComplete (i\<lparr>mp_Allowlist := append_nil (elems (mp_Allowlist i)),
                      mp_ProtectedTargets := append_nil (elems (mp_ProtectedTargets i))\<rparr>) = None
     \<longleftrightarrow> ValidateComplete i = None"
  by (simp add: ValidateComplete_None_iff)

lemma snapshot_Validate_iff:
  "DesiredFirewallSnapshot_Validate s = None \<longleftrightarrow>
     ds_SnapshotRevision s \<noteq> 0 \<and> ds_InfrastructureRevision s \<noteq> 0 \<and> ds_PolicyRevision s \<noteq> 0
     \<and> mi_Backend (ds_Infrastructure s) \<noteq> [] \<and> mi_OwnerVersion (ds_Infrastructure s) \<noteq> []
     \<and> mi_Digest (ds_Infrastructure s) \<noteq> [] \<and> mp_RelationDigest (ds_Policy s) \<noteq> []
     \<and> (mp_Allowlist (ds_Policy s) = None \<and> mp_ProtectedTargets (ds_Policy s) = None
        \<or> ValidateComplete (ds_Policy s) = None)
     \<and> validate_targets [] (ds_Targets s) = None"
  by (auto simp: DesiredFirewallSnapshot_Validate_def split: option.splits if_splits)

lemma snapshot_Validate_permute:
  assumes "DesiredFirewallSnapshot_Validate s = None" and "mset ts = mset (ds_Targets s)"
  shows "DesiredFirewallSnapshot_Validate (s\<lparr>ds_Targets := ts\<rparr>) = None
     \<and> sort_key (\<lambda>i. Prefix_String (int_CanonicalTarget i)) ts
       = sort_key (\<lambda>i. Prefix_String (int_CanonicalTarget i)) (ds_Targets s)"
proof
  have v: "validate_targets [] (ds_Targets s) = None" using assms(1) by (simp add: snapshot_Validate_iff)
  have "set ts = set (ds_Targets s)" using assms(2) by (rule mset_eq_setD)
  moreover have "distinct (map int_CanonicalTarget ts) \<longleftrightarrow> distinct (map int_CanonicalTarget (ds_Targets s))"
    using assms(2) by (metis mset_eq_imp_distinct_iff mset_map)
  ultimately have "validate_targets [] ts = None" using v by (simp add: validate_targets_None_iff)
  with assms(1) show "DesiredFirewallSnapshot_Validate (s\<lparr>ds_Targets := ts\<rparr>) = None"
    by (simp add: snapshot_Validate_iff)
  show "sort_key (\<lambda>i. Prefix_String (int_CanonicalTarget i)) ts
       = sort_key (\<lambda>i. Prefix_String (int_CanonicalTarget i)) (ds_Targets s)"
    using sort_key_permutes [OF assms(2) [symmetric] targets_inj [OF v]] by simp
qed

lemma snapshot_Validate_copy:
  assumes "DesiredFirewallSnapshot_Validate s = None"
  shows "DesiredFirewallSnapshot_Validate
    (s\<lparr>ds_Policy := (ds_Policy s)
         \<lparr>mp_Allowlist := append_nil (elems (mp_Allowlist (ds_Policy s))),
          mp_ProtectedTargets := append_nil (elems (mp_ProtectedTargets (ds_Policy s)))\<rparr>\<rparr>) = None"
  using assms ValidateComplete_append_nil [of "ds_Policy s"]
  by (auto simp: snapshot_Validate_iff append_nil_def)

section \<open>Properties\<close>

lemma sort_key_eq_Nil [simp]: "sort_key f xs = [] \<longleftrightarrow> xs = []"
  by (metis length_0_conv length_sort)

lemma sort_key_mset_eqI:
  assumes "\<forall>x\<in>set xs. canonical x" and "mset ys = mset xs" and "sort_key Prefix_String ys = ys"
  shows "ys = sort_key Prefix_String xs"
proof -
  have "sort_key Prefix_String xs = sort_key Prefix_String ys"
    using assms(1,2) by (intro sort_key_permutes) (simp_all add: canonicals_inj)
  with assms(3) show ?thesis by simp
qed

lemma append_nil_elems: "s \<noteq> Some [] \<Longrightarrow> append_nil (elems s) = s"
  by (cases s) (auto simp: append_nil_def)

text \<open>
  Claim C7. \<^verbatim>\<open>NewManagedPolicyIntent\<close> succeeds exactly on distinct canonical prefixes within the
  limit of 1024 that protect both loopback prefixes, and returns the one complete payload
  (\<^verbatim>\<open>ValidateComplete\<close>) made of the same prefixes: the order of the input does not matter.
\<close>

theorem NewManagedPolicyIntent_complete:
  "NewManagedPolicyIntent a p = Inr v \<longleftrightarrow>
     policy_acceptable (elems a) (elems p) \<and> ValidateComplete v = None
     \<and> mset (elems (mp_Allowlist v)) = mset (elems a) \<and> mp_Allowlist v \<noteq> Some []
     \<and> mset (elems (mp_ProtectedTargets v)) = mset (elems p)"
    (is "?L \<longleftrightarrow> ?R")
proof
  assume ?L
  then show ?R
    by (auto simp: NewManagedPolicyIntent_Inr_iff policy_of_complete)
      (auto simp: policy_of_def append_nil_def split: if_splits)
next
  assume r: ?R
  then have acc: "policy_acceptable (elems a) (elems p)" by blast
  have c: "\<forall>x\<in>set (elems a). canonical x" "\<forall>x\<in>set (elems p). canonical x"
    using acc by (simp_all add: policy_acceptable_def)
  have pne: "mp_ProtectedTargets v \<noteq> Some []"
    using acc r by (auto simp: policy_acceptable_def)
  have ea: "elems (mp_Allowlist v) = sort_key Prefix_String (elems a)"
    and ep: "elems (mp_ProtectedTargets v) = sort_key Prefix_String (elems p)"
    using r c by (auto simp: ValidateComplete_None_iff intro!: sort_key_mset_eqI)
  have "v = policy_of (elems a) (elems p)"
  proof (rule ManagedPolicyIntent.equality)
    show "mp_RelationDigest v = mp_RelationDigest (policy_of (elems a) (elems p))"
      using r by (simp add: ValidateComplete_None_iff policy_of_def ea ep)
    show "mp_Allowlist v = mp_Allowlist (policy_of (elems a) (elems p))"
      using r append_nil_elems [of "mp_Allowlist v"] by (simp add: policy_of_def ea)
    show "mp_ProtectedTargets v = mp_ProtectedTargets (policy_of (elems a) (elems p))"
      using pne append_nil_elems [of "mp_ProtectedTargets v"] by (simp add: policy_of_def ep)
  qed simp
  with acc show ?L by (simp add: NewManagedPolicyIntent_Inr_iff)
qed

text \<open>
  Claim C8. The relation digest binds the payload: the digested texts of two complete payloads are
  equal exactly when the payloads list the same prefixes, and the digests are equal exactly when
  the SHA-256 sums of those texts are.
\<close>

theorem relation_digest_binds_payload:
  assumes "ValidateComplete u = None" and "ValidateComplete v = None"
  shows "(policy_text (elems (mp_Allowlist u)) (elems (mp_ProtectedTargets u)) =
          policy_text (elems (mp_Allowlist v)) (elems (mp_ProtectedTargets v)) \<longleftrightarrow>
            elems (mp_Allowlist u) = elems (mp_Allowlist v)
            \<and> elems (mp_ProtectedTargets u) = elems (mp_ProtectedTargets v))
     \<and> (mp_RelationDigest u = mp_RelationDigest v \<longleftrightarrow>
          Sum256 (bytes_of (policy_text (elems (mp_Allowlist u)) (elems (mp_ProtectedTargets u)))) =
          Sum256 (bytes_of (policy_text (elems (mp_Allowlist v)) (elems (mp_ProtectedTargets v)))))"
proof -
  let ?a = "elems (mp_Allowlist u)" and ?p = "elems (mp_ProtectedTargets u)"
    and ?a' = "elems (mp_Allowlist v)" and ?p' = "elems (mp_ProtectedTargets v)"
  have ok: "policy_acceptable ?a ?p" "policy_acceptable ?a' ?p'"
    using assms by (simp_all add: ValidateComplete_None_iff)
  have "?a = ?a' \<and> ?p = ?p'" if eq: "policy_text ?a ?p = policy_text ?a' ?p'"
  proof -
    have sets: "set ?a = set ?a'" "set ?p = set ?p'" using policy_text_inj [OF ok eq] by simp_all
    have "policy_of ?a ?p = policy_of ?a' ?p'" using policy_of_cong [OF ok sets] .
    then have "elems (mp_Allowlist (policy_of ?a ?p)) = elems (mp_Allowlist (policy_of ?a' ?p'))"
      "elems (mp_ProtectedTargets (policy_of ?a ?p)) = elems (mp_ProtectedTargets (policy_of ?a' ?p'))"
      by simp_all
    then show ?thesis using assms by (simp add: ValidateComplete_None_iff policy_of_def)
  qed
  moreover have "mp_RelationDigest u = mp_RelationDigest v \<longleftrightarrow>
      Sum256 (bytes_of (policy_text ?a ?p)) = Sum256 (bytes_of (policy_text ?a' ?p'))"
    using assms by (auto simp: ValidateComplete_None_iff managedPolicyRelationDigest_def dest: hex_inj)
  ultimately show ?thesis by metis
qed

theorem relation_digest_binds_payload_witness:
  "policy_text [] [loopback4, loopback6] \<noteq> policy_text [PrefixFrom (Addr4 0x0A000000) 8] [loopback4, loopback6]"
proof -
  let ?t = "PrefixFrom (Addr4 0x0A000000) 8"
  have ok: "policy_acceptable [] [loopback4, loopback6]" "policy_acceptable [?t] [loopback4, loopback6]"
    by code_simp+
  have srt: "sort_key Prefix_String [loopback4, loopback6] = [loopback4, loopback6]" by code_simp
  have "elems (mp_Allowlist (policy_of [] [loopback4, loopback6])) \<noteq>
      elems (mp_Allowlist (policy_of [?t] [loopback4, loopback6]))"
    by (simp add: policy_of_def)
  with relation_digest_binds_payload [OF policy_of_complete [OF ok(1)] policy_of_complete [OF ok(2)]]
  show ?thesis
    by (simp only: policy_of_def ManagedPolicyIntent.select_convs elems_simps srt) simp
qed

text \<open>
  Claim C9. \<^verbatim>\<open>NewDesiredFirewallSnapshot\<close> returns a valid snapshot with the same targets in the
  order of their text; preparing it again changes nothing, and any arrangement of the targets gives
  the same snapshot.
\<close>

theorem NewDesiredFirewallSnapshot_canonical:
  assumes "NewDesiredFirewallSnapshot s = Inr r"
  shows "DesiredFirewallSnapshot_Validate r = None \<and> mset (ds_Targets r) = mset (ds_Targets s)
     \<and> sorted (map (\<lambda>i. Prefix_String (int_CanonicalTarget i)) (ds_Targets r))
     \<and> NewDesiredFirewallSnapshot r = Inr r
     \<and> (mset ts = mset (ds_Targets s) \<longrightarrow> NewDesiredFirewallSnapshot (s\<lparr>ds_Targets := ts\<rparr>) = Inr r)"
proof -
  let ?k = "\<lambda>i. Prefix_String (int_CanonicalTarget i)"
  have v: "DesiredFirewallSnapshot_Validate s = None"
    using assms by (auto simp: NewDesiredFirewallSnapshot_def split: option.splits)
  have r: "r = s\<lparr>ds_Policy := (ds_Policy s)
             \<lparr>mp_Allowlist := append_nil (elems (mp_Allowlist (ds_Policy s))),
              mp_ProtectedTargets := append_nil (elems (mp_ProtectedTargets (ds_Policy s)))\<rparr>,
           ds_Targets := sort_key ?k (ds_Targets s)\<rparr>"
    using assms v by (simp add: NewDesiredFirewallSnapshot_def)
  have vr: "DesiredFirewallSnapshot_Validate r = None"
    using snapshot_Validate_permute [OF snapshot_Validate_copy [OF v], of "sort_key ?k (ds_Targets s)"]
    unfolding r by simp
  have same: "DesiredFirewallSnapshot_Validate (s\<lparr>ds_Targets := ts\<rparr>) = None \<and> sort_key ?k ts = sort_key ?k (ds_Targets s)"
    if "mset ts = mset (ds_Targets s)"
    using snapshot_Validate_permute [OF v that] .
  show ?thesis
    using vr same unfolding NewDesiredFirewallSnapshot_def
    by (simp add: r)
qed

definition sample_intent :: "32 word \<Rightarrow> NormalizedTargetEnforcementIntent" where
  "sample_intent a =
     \<lparr> int_NodeID = replicate 32 CHR ''0'', int_CanonicalTarget = PrefixFrom (Addr4 a) 32,
       int_BanMembership = BanPresent, int_EffectiveUntil = None, int_TimeoutMode = TimeoutNone,
       int_Scopes = 1, int_AddressFamily = AddressFamilyIPv4, int_PolicyCoverage = PolicyCoverageNone,
       int_PolicyRelationDigest = [], int_BackendAttributesDigest = ''b'', int_Generation = 1 \<rparr>"

definition sample_snapshot :: "NormalizedTargetEnforcementIntent list \<Rightarrow> DesiredFirewallSnapshot" where
  "sample_snapshot ts =
     \<lparr> ds_SnapshotRevision = 1, ds_InfrastructureRevision = 1, ds_PolicyRevision = 1,
       ds_Infrastructure = \<lparr> mi_Backend = ''nftables'', mi_OwnerVersion = ''v1'', mi_Digest = ''d'' \<rparr>,
       ds_Policy = \<lparr> mp_RelationDigest = ''p'', mp_Allowlist = None, mp_ProtectedTargets = None \<rparr>,
       ds_Targets = ts \<rparr>"

theorem NewDesiredFirewallSnapshot_canonical_witness:
  "NewDesiredFirewallSnapshot (sample_snapshot [sample_intent 2, sample_intent 1]) =
     Inr (sample_snapshot [sample_intent 1, sample_intent 2])"
proof -
  have "NewDesiredFirewallSnapshot (sample_snapshot [sample_intent 1, sample_intent 2])
      = Inr (sample_snapshot [sample_intent 1, sample_intent 2])" by code_simp
  from NewDesiredFirewallSnapshot_canonical [OF this, of "[sample_intent 2, sample_intent 1]"]
  show ?thesis by (simp add: sample_snapshot_def)
qed

end
