(* ===== verification/Policy_Resolution.thy ===== *)
theory Policy_Resolution
  imports Digest Netip_Text Core_Decision
begin

text \<open>
  \<^verbatim>\<open>internal/decision/policy_resolution.go\<close>: how an allowlist and a list of protected
  prefixes cover one target. The recursion of \<^verbatim>\<open>policyUnionCovers\<close> halves the target until a
  listed prefix covers the half or none meets it; it is exact for the union of the addresses.
\<close>

record PolicyInput =
  pin_Target :: Prefix
  pin_Allowlists :: "Prefix list"
  pin_ProtectedTargets :: "Prefix list"

record PolicyResolution =
  res_Coverage :: PolicyCoverage
  res_RelationDigest :: string

datatype policy_relation_error =
    PolicyTargetNotCanonical
  | PolicyPrefixNotCanonical string

text \<open>The compaction loop after the sort keeps an element when it differs from the last one kept.\<close>

fun compact_loop :: "'a list \<Rightarrow> 'a list \<Rightarrow> 'a list" where
  "compact_loop kept [] = kept"
| "compact_loop kept (x # xs) =
     (if kept \<noteq> [] \<and> last kept = x then compact_loop kept xs else compact_loop (kept @ [x]) xs)"

definition canonicalPolicyRelationPrefixes ::
  "string \<Rightarrow> Prefix list \<Rightarrow> policy_relation_error + Prefix list" where
  "canonicalPolicyRelationPrefixes name prefixes =
     (if \<exists>p\<in>set prefixes. \<not> Prefix_IsValid p \<or> p \<noteq> Masked p
      then Inl (PolicyPrefixNotCanonical name)
      else Inr (compact_loop [] (sort_key Prefix_String prefixes)))"

definition anyPolicyOverlap :: "Prefix \<Rightarrow> Prefix list \<Rightarrow> bool" where
  "anyPolicyOverlap target prefixes \<longleftrightarrow>
     list_ex (\<lambda>p. BitLen (pfx_addr p) = BitLen (pfx_addr target) \<and> Overlaps p target) prefixes"

definition splitPolicyPrefix :: "Prefix \<Rightarrow> Prefix \<times> Prefix" where
  "splitPolicyPrefix p =
     (let bits = pfx_bits p in
      (Masked (PrefixFrom (pfx_addr p) (bits + 1)),
       Masked (PrefixFrom (set_next_bit bits (pfx_addr p)) (bits + 1))))"

definition covered_by_one :: "Prefix \<Rightarrow> Prefix list \<Rightarrow> bool" where
  "covered_by_one target prefixes \<longleftrightarrow>
     list_ex (\<lambda>p. BitLen (pfx_addr p) = BitLen (pfx_addr target) \<and> Bits p \<le> Bits target
                  \<and> Contains p (pfx_addr target)) prefixes"

lemma anyPolicyOverlap_valid: "anyPolicyOverlap t ps \<Longrightarrow> Prefix_IsValid t"
  by (auto simp: anyPolicyOverlap_def list_ex_iff Overlaps_def split: if_splits)

lemma splitPolicyPrefix_bits:
  assumes "Prefix_IsValid t" and "pfx_bits t \<noteq> BitLen (pfx_addr t)"
  shows "pfx_bits (fst (splitPolicyPrefix t)) = Suc (pfx_bits t)"
    and "pfx_bits (snd (splitPolicyPrefix t)) = Suc (pfx_bits t)"
    and "BitLen (pfx_addr (fst (splitPolicyPrefix t))) = BitLen (pfx_addr t)"
    and "BitLen (pfx_addr (snd (splitPolicyPrefix t))) = BitLen (pfx_addr t)"
proof -
  have a: "pfx_addr t \<noteq> InvalidAddr" "Zone (pfx_addr t) = []" "Suc (pfx_bits t) \<le> BitLen (pfx_addr t)"
    using valid_addr [OF assms(1)] assms(2) by auto
  moreover have "set_next_bit (pfx_bits t) (pfx_addr t) \<noteq> InvalidAddr"
    using a(1) by (metis BitLen_0_iff set_next_bit_shape(1))
  ultimately show "pfx_bits (fst (splitPolicyPrefix t)) = Suc (pfx_bits t)"
    "pfx_bits (snd (splitPolicyPrefix t)) = Suc (pfx_bits t)"
    "BitLen (pfx_addr (fst (splitPolicyPrefix t))) = BitLen (pfx_addr t)"
    "BitLen (pfx_addr (snd (splitPolicyPrefix t))) = BitLen (pfx_addr t)"
    by (simp_all add: splitPolicyPrefix_def Let_def Masked_def PrefixFrom_valid)
qed

function policyUnionCovers :: "Prefix \<Rightarrow> Prefix list \<Rightarrow> bool" where
  "policyUnionCovers target prefixes =
     (if covered_by_one target prefixes then True
      else if \<not> anyPolicyOverlap target prefixes \<or> Bits target = int (BitLen (pfx_addr target)) then False
      else policyUnionCovers (fst (splitPolicyPrefix target)) prefixes
           \<and> policyUnionCovers (snd (splitPolicyPrefix target)) prefixes)"
  by pat_completeness auto
termination
proof (relation "measure (\<lambda>(t, _). BitLen (pfx_addr t) - pfx_bits t)"; clarsimp)
  fix t ps
  assume "anyPolicyOverlap t ps" and ne: "Bits t \<noteq> int (BitLen (pfx_addr t))"
  then have v: "Prefix_IsValid t" by (simp add: anyPolicyOverlap_valid)
  with ne have b: "pfx_bits t \<noteq> BitLen (pfx_addr t)" by (simp add: valid_bits)
  from v b show "BitLen (pfx_addr (fst (splitPolicyPrefix t))) - pfx_bits (fst (splitPolicyPrefix t))
      < BitLen (pfx_addr t) - pfx_bits t"
    and "BitLen (pfx_addr (snd (splitPolicyPrefix t))) - pfx_bits (snd (splitPolicyPrefix t))
      < BitLen (pfx_addr t) - pfx_bits t"
    using valid_addr(3) [OF v] by (simp_all add: splitPolicyPrefix_bits)
qed

declare policyUnionCovers.simps [simp del]

definition policyRelationDigest :: "Prefix \<Rightarrow> Prefix list \<Rightarrow> Prefix list \<Rightarrow> string" where
  "policyRelationDigest target allowlist protected =
     (let parts = [''target:'' @ Prefix_String target]
                  @ map (\<lambda>p. ''allow:'' @ Prefix_String p) allowlist
                  @ map (\<lambda>p. ''protected:'' @ Prefix_String p) protected
      in hex_EncodeToString
           (Sum256 (bytes_of (''guard-policy-relation/v1'' @ [CHR 0x0A] @ join (CHR 0x0A) (sort parts)))))"

definition ResolvePolicy :: "PolicyInput \<Rightarrow> policy_relation_error + PolicyResolution" where
  "ResolvePolicy input =
     (if \<not> Prefix_IsValid (pin_Target input) \<or> pin_Target input \<noteq> Masked (pin_Target input)
      then Inl PolicyTargetNotCanonical
      else bind_result (canonicalPolicyRelationPrefixes ''allowlist'' (pin_Allowlists input)) (\<lambda>allowlist.
           bind_result (canonicalPolicyRelationPrefixes ''protected targets'' (pin_ProtectedTargets input))
             (\<lambda>protected.
           let related = allowlist @ protected in
           if related = [] \<or> \<not> anyPolicyOverlap (pin_Target input) related
           then Inr \<lparr> res_Coverage = PolicyCoverageNone, res_RelationDigest = [] \<rparr>
           else Inr \<lparr> res_Coverage =
                        (if policyUnionCovers (pin_Target input) related then PolicyCoverageFull
                         else PolicyCoveragePartial),
                      res_RelationDigest = policyRelationDigest (pin_Target input) allowlist protected \<rparr>)))"

section \<open>Splitting a prefix\<close>

lemma canonical_split:
  assumes "canonical t" and "pfx_bits t \<noteq> BitLen (pfx_addr t)"
  shows "canonical (fst (splitPolicyPrefix t))" and "canonical (snd (splitPolicyPrefix t))"
proof -
  have v: "Prefix_IsValid t" using assms(1) by (rule canonical_valid)
  have a: "pfx_addr t \<noteq> InvalidAddr" "Zone (pfx_addr t) = []" "Suc (pfx_bits t) \<le> BitLen (pfx_addr t)"
    using valid_addr [OF v] assms(2) by auto
  moreover have "set_next_bit (pfx_bits t) (pfx_addr t) \<noteq> InvalidAddr"
    using a(1) by (metis BitLen_0_iff set_next_bit_shape(1))
  ultimately show "canonical (fst (splitPolicyPrefix t))" and "canonical (snd (splitPolicyPrefix t))"
    by (simp_all add: splitPolicyPrefix_def Let_def Masked_canonical PrefixFrom_valid)
qed

text \<open>The halves of a prefix partition its addresses by the bit after the prefix.\<close>

lemma Contains_split:
  assumes "canonical t" and "pfx_bits t \<noteq> BitLen (pfx_addr t)"
  shows "Contains t a \<longleftrightarrow> Contains (fst (splitPolicyPrefix t)) a \<or> Contains (snd (splitPolicyPrefix t)) a"
proof -
  let ?n = "BitLen (pfx_addr t)" and ?b = "pfx_bits t" and ?w = "pfx_addr t"
  have v: "Prefix_IsValid t" using assms(1) by (rule canonical_valid)
  have a: "?w \<noteq> InvalidAddr" "Zone ?w = []" "?b < ?n"
    using valid_addr [OF v] assms(2) by auto
  have s: "set_next_bit ?b ?w \<noteq> InvalidAddr"
    using a(1) by (metis BitLen_0_iff set_next_bit_shape(1))
  let ?k = "?n - 1 - ?b"
  have k: "?k < ?n" "?n - Suc ?b = ?k" using a(3) by auto
  have zero: "\<not> addr_bit ?w ?k" using assms(1) a(3) by (simp add: canonical_iff)
  have half: "Contains p c \<longleftrightarrow> Zone c = [] \<and> BitLen c = ?n \<and>
      (\<forall>i < ?n. ?n - ?b \<le> i \<longrightarrow> addr_bit c i = addr_bit ?w i) \<and> addr_bit c ?k = addr_bit w ?k"
    if p: "p = Masked (PrefixFrom w (Suc ?b))" and w: "w \<noteq> InvalidAddr" "Zone w = []" "BitLen w = ?n"
      "\<And>i. i < ?n \<Longrightarrow> i \<noteq> ?k \<Longrightarrow> addr_bit w i = addr_bit ?w i" for p c w
  proof -
    have vp: "Prefix_IsValid p" and pa: "pfx_addr p = mask_addr (Suc ?b) w" and pb: "pfx_bits p = Suc ?b"
      using p w a by (simp_all add: Masked_def PrefixFrom_valid)
    have m: "addr_bit (mask_addr (Suc ?b) w) i = addr_bit w i" if "i < ?n" "?n - Suc ?b \<le> i" for i
      using that w(3) by (simp add: addr_bit_mask_addr)
    have "Contains p c \<longleftrightarrow> Zone c = [] \<and> BitLen c = ?n \<and>
        (\<forall>i < ?n. ?n - Suc ?b \<le> i \<longrightarrow> addr_bit c i = addr_bit (mask_addr (Suc ?b) w) i)"
      unfolding Contains_iff [OF vp] pa pb mask_addr_shape w(3) by (simp cong: conj_cong)
    also have "\<dots> \<longleftrightarrow> Zone c = [] \<and> BitLen c = ?n \<and>
        (\<forall>i < ?n. ?k \<le> i \<longrightarrow> addr_bit c i = addr_bit w i)"
      using m k(2) by metis
    finally have "Contains p c \<longleftrightarrow> Zone c = [] \<and> BitLen c = ?n \<and>
        (\<forall>i < ?n. ?k \<le> i \<longrightarrow> addr_bit c i = addr_bit w i)" .
    moreover have "(\<forall>i < ?n. ?k \<le> i \<longrightarrow> addr_bit c i = addr_bit w i) \<longleftrightarrow>
        (\<forall>i < ?n. ?n - ?b \<le> i \<longrightarrow> addr_bit c i = addr_bit ?w i) \<and> addr_bit c ?k = addr_bit w ?k"
    proof -
      have "?k \<le> i \<longleftrightarrow> i = ?k \<or> ?n - ?b \<le> i" "?n - ?b \<le> i \<Longrightarrow> i \<noteq> ?k" for i using a(3) by auto
      with k(1) w(4) show ?thesis by metis
    qed
    ultimately show ?thesis by simp
  qed
  have fst: "Contains (fst (splitPolicyPrefix t)) a \<longleftrightarrow> Zone a = [] \<and> BitLen a = ?n \<and>
      (\<forall>i < ?n. ?n - ?b \<le> i \<longrightarrow> addr_bit a i = addr_bit ?w i) \<and> \<not> addr_bit a ?k"
    using half [OF _ a(1,2) refl refl, of "fst (splitPolicyPrefix t)" a] zero
    by (simp add: splitPolicyPrefix_def Let_def)
  have nb: "addr_bit (set_next_bit ?b ?w) i = addr_bit ?w i" if "i < ?n" "i \<noteq> ?k" for i
    using that a(3) by (simp add: addr_bit_set_next_bit)
  have one: "addr_bit (set_next_bit ?b ?w) ?k"
    using k(1) a(3) by (simp add: addr_bit_set_next_bit)
  have snd: "Contains (snd (splitPolicyPrefix t)) a \<longleftrightarrow> Zone a = [] \<and> BitLen a = ?n \<and>
      (\<forall>i < ?n. ?n - ?b \<le> i \<longrightarrow> addr_bit a i = addr_bit ?w i) \<and> addr_bit a ?k"
    using half [OF _ s _ _ nb, of "snd (splitPolicyPrefix t)" a] one a(2)
    by (simp add: splitPolicyPrefix_def Let_def)
  show ?thesis unfolding fst snd Contains_iff [OF v] by (auto cong: conj_cong)
qed

section \<open>Exact union coverage\<close>

lemma Contains_self: "Prefix_IsValid t \<Longrightarrow> Contains t (pfx_addr t)"
  by (simp add: Contains_iff valid_addr)

lemma Contains_BitLen: "Contains p a \<Longrightarrow> BitLen a = BitLen (pfx_addr p)"
  by (simp add: Contains_def)

lemma Contains_trans:
  assumes "Prefix_IsValid p" and "Prefix_IsValid t" and "pfx_bits p \<le> pfx_bits t"
    and pt: "Contains p (pfx_addr t)" and ta: "Contains t a"
  shows "Contains p a"
proof -
  have "BitLen a - pfx_bits t \<le> BitLen a - pfx_bits p" using assms(3) by simp
  moreover have "BitLen a = BitLen (pfx_addr t)" using ta by (rule Contains_BitLen)
  ultimately show ?thesis
    using pt ta unfolding Contains_iff [OF assms(1)] Contains_iff [OF assms(2)]
    by (metis order_trans)
qed

lemma covered_by_one_iff:
  assumes "Prefix_IsValid t" and "\<forall>p\<in>set ps. Prefix_IsValid p"
  shows "covered_by_one t ps \<longleftrightarrow> (\<exists>p\<in>set ps. pfx_bits p \<le> pfx_bits t \<and> Contains p (pfx_addr t))"
proof -
  have "BitLen (pfx_addr p) = BitLen (pfx_addr t) \<and> Bits p \<le> Bits t \<and> Contains p (pfx_addr t)
      \<longleftrightarrow> pfx_bits p \<le> pfx_bits t \<and> Contains p (pfx_addr t)" if "p \<in> set ps" for p
    using that assms by (auto simp: valid_bits dest: Contains_BitLen)
  then show ?thesis by (auto simp: covered_by_one_def list_ex_iff)
qed

lemma anyPolicyOverlap_iff:
  assumes "Prefix_IsValid t" and "\<forall>p\<in>set ps. Prefix_IsValid p"
  shows "anyPolicyOverlap t ps \<longleftrightarrow> (\<exists>p\<in>set ps. \<exists>a. Contains p a \<and> Contains t a)"
proof -
  have "BitLen (pfx_addr p) = BitLen (pfx_addr t) \<and> Overlaps p t
      \<longleftrightarrow> (\<exists>a. Contains p a \<and> Contains t a)" if "p \<in> set ps" for p
    using that assms Overlaps_iff_common [of p t] by (metis Contains_BitLen)
  then show ?thesis by (auto simp: anyPolicyOverlap_def list_ex_iff)
qed

lemma policyUnionCovers_exact:
  assumes "canonical t" and "\<forall>p\<in>set ps. Prefix_IsValid p"
  shows "policyUnionCovers t ps \<longleftrightarrow> (\<forall>a. Contains t a \<longrightarrow> (\<exists>p\<in>set ps. Contains p a))"
  using assms
proof (induction t ps rule: policyUnionCovers.induct)
  case (1 t ps)
  have v: "Prefix_IsValid t" using "1.prems"(1) by (rule canonical_valid)
  note one = covered_by_one_iff [OF v "1.prems"(2)]
  consider (one) "covered_by_one t ps"
    | (none) "\<not> covered_by_one t ps" "\<not> anyPolicyOverlap t ps \<or> pfx_bits t = BitLen (pfx_addr t)"
    | (split) "\<not> covered_by_one t ps" "anyPolicyOverlap t ps" "pfx_bits t \<noteq> BitLen (pfx_addr t)"
    by blast
  then show ?case
  proof cases
    case one
    then obtain p where p: "p \<in> set ps" "pfx_bits p \<le> pfx_bits t" "Contains p (pfx_addr t)"
      using covered_by_one_iff [OF v "1.prems"(2)] by auto
    then have "\<forall>a. Contains t a \<longrightarrow> Contains p a"
      using "1.prems"(2) v Contains_trans by blast
    with p one show ?thesis by (subst policyUnionCovers.simps) auto
  next
    case none
    then have "\<not> policyUnionCovers t ps"
      by (subst policyUnionCovers.simps) (auto simp: valid_bits [OF v])
    moreover have "\<not> (\<exists>p\<in>set ps. Contains p (pfx_addr t))"
    proof
      assume "\<exists>p\<in>set ps. Contains p (pfx_addr t)"
      then obtain p where p: "p \<in> set ps" "Contains p (pfx_addr t)" by blast
      then have "anyPolicyOverlap t ps"
        using Contains_self [OF v] by (auto simp: anyPolicyOverlap_iff [OF v "1.prems"(2)])
      with none have "pfx_bits p \<le> pfx_bits t"
        using p "1.prems"(2) valid_addr(3) [of p] Contains_BitLen [OF p(2)] by auto
      with p none(1) show False
        by (auto simp: covered_by_one_iff [OF v "1.prems"(2)])
    qed
    ultimately show ?thesis using Contains_self [OF v] by blast
  next
    case split
    have "Bits t \<noteq> int (BitLen (pfx_addr t))" using split(3) by (simp add: valid_bits [OF v])
    then show ?thesis
      using "1.IH"(1) [OF split(1)] "1.IH"(2) [OF split(1)] split "1.prems"
        canonical_split [OF "1.prems"(1) split(3)] Contains_split [OF "1.prems"(1) split(3)]
      by (subst policyUnionCovers.simps) auto
  qed
qed

section \<open>Order and duplicates are irrelevant\<close>

lemma set_compact_loop: "set (compact_loop kept xs) = set kept \<union> set xs"
proof (induction kept xs rule: compact_loop.induct)
  case (2 kept x xs)
  then show ?case
    using last_in_set [of kept] by (cases "kept \<noteq> [] \<and> last kept = x") (simp, blast, simp, blast)
qed simp

lemma compact_loop_strict:
  fixes f :: "'a \<Rightarrow> 'b :: linorder"
  assumes "sorted_wrt (\<lambda>a b. f a < f b) kept" and "sorted (map f xs)"
    and "\<forall>k\<in>set kept. \<forall>x\<in>set xs. f k \<le> f x" and "inj_on f (set kept \<union> set xs)"
  shows "sorted_wrt (\<lambda>a b. f a < f b) (compact_loop kept xs)"
  using assms
proof (induction kept xs rule: compact_loop.induct)
  case (2 kept x xs)
  show ?case
  proof (cases "kept \<noteq> [] \<and> last kept = x")
    case True
    have "inj_on f (set kept \<union> set xs)" using "2.prems"(4) by (rule inj_on_subset) auto
    with "2.prems" have "sorted_wrt (\<lambda>a b. f a < f b) (compact_loop kept xs)"
      by (intro "2.IH"(1) [OF True]) simp_all
    then show ?thesis using True by (simp only: compact_loop.simps if_True simp_thms)
  next
    case False
    have "f k < f x" if k: "k \<in> set kept" for k
    proof -
      have le: "f k \<le> f x" using "2.prems"(3) k by simp
      have "f k \<noteq> f x"
      proof
        assume e: "f k = f x"
        then have kx: "k = x" using "2.prems"(4) k by (auto simp: inj_on_def)
        have l: "last kept \<in> set kept" using k by (metis last_in_set list.set(1) empty_iff)
        have "f (last kept) \<le> f x" using "2.prems"(3) l by simp
        moreover have "k = last kept \<or> f k < f (last kept)"
          using "2.prems"(1) k by (cases kept rule: rev_cases) (auto simp: sorted_wrt_append)
        moreover have "kept \<noteq> []" using k by auto
        ultimately show False using False kx by auto
      qed
      with le show ?thesis by simp
    qed
    then have "sorted_wrt (\<lambda>a b. f a < f b) (kept @ [x])" using "2.prems"(1) by (simp add: sorted_wrt_append)
    moreover have "\<forall>k\<in>set (kept @ [x]). \<forall>y\<in>set xs. f k \<le> f y" using "2.prems"(2,3) by simp
    moreover have "inj_on f (set (kept @ [x]) \<union> set xs)" using "2.prems"(4) by simp
    moreover have "sorted (map f xs)" using "2.prems"(2) by simp
    ultimately have "sorted_wrt (\<lambda>a b. f a < f b) (compact_loop (kept @ [x]) xs)"
      by (intro "2.IH"(2) [OF False])
    then show ?thesis using False by (simp only: compact_loop.simps if_False simp_thms)
  qed
qed simp

lemma strict_sorted_key_unique:
  fixes f :: "'a \<Rightarrow> 'b :: linorder"
  assumes "sorted_wrt (\<lambda>a b. f a < f b) xs" and "sorted_wrt (\<lambda>a b. f a < f b) ys"
    and "set xs = set ys" and "inj_on f (set xs)"
  shows "xs = ys"
proof -
  have "sorted_wrt (<) (map f xs)" "sorted_wrt (<) (map f ys)" using assms(1,2) by (simp_all add: sorted_wrt_map)
  moreover have "set (map f ys) = set (map f xs)" using assms(3) by simp
  ultimately have eq: "map f xs = map f ys"
    by (metis strict_sorted_equal)
  show ?thesis by (rule map_inj_on [OF eq]) (use assms(3,4) in simp)
qed

lemma canonical_inj: "\<forall>p\<in>A. canonical p \<Longrightarrow> inj_on Prefix_String A"
  by (auto intro!: Prefix_String_inj_on dest: canonical_valid)

lemma canonicalPolicyRelationPrefixes_eq:
  "canonicalPolicyRelationPrefixes name ps =
     (if \<forall>p\<in>set ps. canonical p then Inr (compact_loop [] (sort_key Prefix_String ps))
      else Inl (PolicyPrefixNotCanonical name))"
  unfolding canonicalPolicyRelationPrefixes_def canonical_neg by auto

lemma canonicalPolicyRelationPrefixes_cong:
  assumes "set ps = set qs"
  shows "canonicalPolicyRelationPrefixes name ps = canonicalPolicyRelationPrefixes name qs"
proof (cases "\<forall>p\<in>set ps. canonical p")
  case True
  then have i: "inj_on Prefix_String (set ps)" by (rule canonical_inj)
  have "compact_loop [] (sort_key Prefix_String ps) = compact_loop [] (sort_key Prefix_String qs)"
    by (rule strict_sorted_key_unique [where f = Prefix_String])
      (use i assms in \<open>auto intro!: compact_loop_strict simp: set_compact_loop\<close>)
  with True assms show ?thesis by (simp add: canonicalPolicyRelationPrefixes_eq)
next
  case False
  then have "\<not> (\<forall>p\<in>set qs. canonical p)" using assms by simp
  with False show ?thesis by (simp only: canonicalPolicyRelationPrefixes_eq if_False)
qed

section \<open>Properties\<close>

lemma policyUnionCovers_set_cong:
  assumes "canonical t" and "\<forall>p\<in>set ps. Prefix_IsValid p" and "set ps = set qs"
  shows "policyUnionCovers t ps = policyUnionCovers t qs"
  using assms by (simp add: policyUnionCovers_exact)

text \<open>
  Claim C1. For a canonical target and valid prefixes, the recursive halving of
  \<^verbatim>\<open>policyUnionCovers\<close> answers yes exactly when every address of the target lies in one of the
  prefixes: the union is covered exactly, also when no single prefix covers the target.
\<close>

theorem policyUnionCovers_is_union_coverage:
  assumes "canonical target" and "\<forall>p\<in>set prefixes. Prefix_IsValid p"
  shows "policyUnionCovers target prefixes \<longleftrightarrow>
           (\<forall>a. Contains target a \<longrightarrow> (\<exists>p\<in>set prefixes. Contains p a))"
  using assms by (rule policyUnionCovers_exact)

theorem policyUnionCovers_is_union_coverage_witness:
  "policyUnionCovers (PrefixFrom (Addr4 0x0A000000) 8)
       [PrefixFrom (Addr4 0x0A800000) 9, PrefixFrom (Addr4 0x0A000000) 9]
   \<and> (\<exists>p\<in>set [PrefixFrom (Addr4 0x0A800000) 9, PrefixFrom (Addr4 0x0A000000) 9]. Contains p (Addr4 0x0A8F0001))"
proof -
  let ?t = "PrefixFrom (Addr4 0x0A000000) 8"
    and ?ps = "[PrefixFrom (Addr4 0x0A800000) 9, PrefixFrom (Addr4 0x0A000000) 9]"
  have c: "canonical ?t" by code_simp
  have v: "\<forall>p\<in>set ?ps. Prefix_IsValid p" by code_simp
  have u: "policyUnionCovers ?t ?ps" by code_simp
  have "Contains ?t (Addr4 0x0A8F0001)" by code_simp
  then show ?thesis using u policyUnionCovers_is_union_coverage [OF c v] by blast
qed

text \<open>
  Claim C2. With a canonical target and canonical lists, \<^verbatim>\<open>ResolvePolicy\<close> succeeds; the coverage is
  none exactly when no address of the target is listed, full exactly when all are, and partial
  otherwise.
\<close>

theorem ResolvePolicy_coverage:
  assumes t: "canonical (pin_Target i)"
    and ps: "\<forall>p\<in>set (pin_Allowlists i) \<union> set (pin_ProtectedTargets i). canonical p"
  shows "\<exists>r. ResolvePolicy i = Inr r
     \<and> (res_Coverage r = PolicyCoverageNone \<longleftrightarrow>
          \<not> (\<exists>a. Contains (pin_Target i) a
                \<and> (\<exists>p\<in>set (pin_Allowlists i) \<union> set (pin_ProtectedTargets i). Contains p a)))
     \<and> (res_Coverage r = PolicyCoverageFull \<longleftrightarrow>
          (\<forall>a. Contains (pin_Target i) a \<longrightarrow>
               (\<exists>p\<in>set (pin_Allowlists i) \<union> set (pin_ProtectedTargets i). Contains p a)))
     \<and> res_Coverage r \<in> {PolicyCoverageNone, PolicyCoveragePartial, PolicyCoverageFull}"
proof -
  let ?S = "set (pin_Allowlists i) \<union> set (pin_ProtectedTargets i)"
  let ?al = "compact_loop [] (sort_key Prefix_String (pin_Allowlists i))"
    and ?pr = "compact_loop [] (sort_key Prefix_String (pin_ProtectedTargets i))"
  have set: "set (?al @ ?pr) = ?S" by (simp add: set_compact_loop)
  have v: "Prefix_IsValid (pin_Target i)" using t by (rule canonical_valid)
  have vs: "\<forall>p\<in>set (?al @ ?pr). Prefix_IsValid p"
    unfolding set using ps canonical_valid by blast
  have ov: "anyPolicyOverlap (pin_Target i) (?al @ ?pr) \<longleftrightarrow>
      (\<exists>a. Contains (pin_Target i) a \<and> (\<exists>p\<in>?S. Contains p a))"
    unfolding anyPolicyOverlap_iff [OF v vs] set by blast
  have cov: "policyUnionCovers (pin_Target i) (?al @ ?pr) \<longleftrightarrow>
      (\<forall>a. Contains (pin_Target i) a \<longrightarrow> (\<exists>p\<in>?S. Contains p a))"
    unfolding policyUnionCovers_exact [OF t vs] set ..
  have res: "ResolvePolicy i =
     (if \<not> anyPolicyOverlap (pin_Target i) (?al @ ?pr)
      then Inr \<lparr> res_Coverage = PolicyCoverageNone, res_RelationDigest = [] \<rparr>
      else Inr \<lparr> res_Coverage = (if policyUnionCovers (pin_Target i) (?al @ ?pr)
                                  then PolicyCoverageFull else PolicyCoveragePartial),
                 res_RelationDigest = policyRelationDigest (pin_Target i) ?al ?pr \<rparr>)"
    using t ps unfolding ResolvePolicy_def canonical_neg
    by (simp add: canonicalPolicyRelationPrefixes_eq Let_def) (simp add: anyPolicyOverlap_def)
  have "Contains (pin_Target i) (pfx_addr (pin_Target i))" using v by (rule Contains_self)
  then show ?thesis
    unfolding res ov [symmetric] cov [symmetric] using ov cov by auto
qed

theorem ResolvePolicy_coverage_witness:
  "\<exists>r. ResolvePolicy \<lparr> pin_Target = PrefixFrom (Addr4 0x0A000000) 8,
           pin_Allowlists = [PrefixFrom (Addr4 0x0A800000) 9],
           pin_ProtectedTargets = [PrefixFrom (Addr4 0x7F000000) 8] \<rparr> = Inr r
     \<and> res_Coverage r \<noteq> PolicyCoverageNone"
proof -
  let ?t = "PrefixFrom (Addr4 0x0A000000) 8" and ?a = "PrefixFrom (Addr4 0x0A800000) 9"
  let ?i = "\<lparr> pin_Target = ?t, pin_Allowlists = [?a],
              pin_ProtectedTargets = [PrefixFrom (Addr4 0x7F000000) 8] \<rparr>"
  have c: "canonical ?t" "\<forall>p\<in>{?a, PrefixFrom (Addr4 0x7F000000) 8}. canonical p" by code_simp+
  have "Contains ?t (Addr4 0x0A800000) \<and> Contains ?a (Addr4 0x0A800000)" by code_simp
  then show ?thesis using ResolvePolicy_coverage [of ?i] c by auto
qed

text \<open>
  Claim C3. The order of the listed prefixes and repetitions among them do not change the
  resolution, digest included.
\<close>

theorem ResolvePolicy_order_irrelevant:
  assumes "set a = set a'" and "set p = set p'"
  shows "ResolvePolicy \<lparr> pin_Target = t, pin_Allowlists = a, pin_ProtectedTargets = p \<rparr> =
         ResolvePolicy \<lparr> pin_Target = t, pin_Allowlists = a', pin_ProtectedTargets = p' \<rparr>"
  using canonicalPolicyRelationPrefixes_cong [OF assms(1)] canonicalPolicyRelationPrefixes_cong [OF assms(2)]
  by (simp only: ResolvePolicy_def PolicyInput.select_convs)

theorem ResolvePolicy_order_irrelevant_witness:
  "ResolvePolicy \<lparr> pin_Target = PrefixFrom (Addr4 0x0A000000) 8,
       pin_Allowlists = [PrefixFrom (Addr4 0x0A800000) 9, PrefixFrom (Addr4 0x0A000000) 16],
       pin_ProtectedTargets = [] \<rparr> =
   ResolvePolicy \<lparr> pin_Target = PrefixFrom (Addr4 0x0A000000) 8,
       pin_Allowlists = [PrefixFrom (Addr4 0x0A000000) 16, PrefixFrom (Addr4 0x0A800000) 9,
                         PrefixFrom (Addr4 0x0A000000) 16],
       pin_ProtectedTargets = [] \<rparr>"
  by (rule ResolvePolicy_order_irrelevant) auto

end
