(* ===== verification/Projection.thy ===== *)
theory Projection
  imports Core_Decision
begin

text \<open>
  \<^verbatim>\<open>internal/decision/projection.go\<close>: the ban projection of one target rebuilt from its
  decisions. The loop of \<^verbatim>\<open>AggregateProjection\<close> keeps a counter, the latest expiry seen and
  a flag; \<open>projection_spec\<close> says the same without a loop, and the two agree on every input
  whose decisions are created after the zero time.
\<close>

datatype aggregate_error =
    AggregateNodeMissing
  | AggregateTargetNotCanonical
  | AggregateDecisionInvalid string decision_error
  | AggregateForeignDecision string
  | AggregateProjectionInvalid projection_error

type_synonym aggregate_state = "u64 \<times> time \<times> bool"

definition aggregate_active :: "Decision \<Rightarrow> aggregate_state \<Rightarrow> aggregate_state" where
  "aggregate_active current st = (case st of (activeCount, latestExpiry, allFinite) \<Rightarrow>
     (case dec_ExpiresAt current of
        None \<Rightarrow> (activeCount + 1, latestExpiry, False)
      | Some x \<Rightarrow> (activeCount + 1, (if IsZero latestExpiry \<or> latestExpiry < x then x else latestExpiry), allFinite)))"

fun aggregate_loop ::
  "string \<Rightarrow> Prefix \<Rightarrow> Decision list \<Rightarrow> aggregate_state \<Rightarrow> aggregate_error + aggregate_state" where
  "aggregate_loop nodeID target [] st = Inr st"
| "aggregate_loop nodeID target (current # rest) st =
     (case Decision_Validate current of
        Some e \<Rightarrow> Inl (AggregateDecisionInvalid (dec_ID current) e)
      | None \<Rightarrow>
        if dec_NodeID current \<noteq> nodeID \<or> dec_CanonicalTarget current \<noteq> target
        then Inl (AggregateForeignDecision (dec_ID current))
        else if dec_State current \<noteq> DecisionActive then aggregate_loop nodeID target rest st
        else aggregate_loop nodeID target rest (aggregate_active current st))"

definition AggregateProjection ::
  "string \<Rightarrow> Prefix \<Rightarrow> u64 \<Rightarrow> Decision list \<Rightarrow> aggregate_error + DesiredBanProjection" where
  "AggregateProjection nodeID target revision decisions =
     (if nodeID = [] then Inl AggregateNodeMissing
      else if \<not> Prefix_IsValid target \<or> target \<noteq> Masked target then Inl AggregateTargetNotCanonical
      else (case aggregate_loop nodeID target decisions (0, 0, True) of
         Inl e \<Rightarrow> Inl e
       | Inr (activeCount, latestExpiry, allFinite) \<Rightarrow>
           (let projection = \<lparr> proj_NodeID = nodeID, proj_CanonicalTarget = target,
                  proj_State = (if activeCount = 0 then BanProjectionAbsent else BanProjectionPresent),
                  proj_ActiveCount = activeCount,
                  proj_EffectiveUntil = (if activeCount \<noteq> 0 \<and> allFinite then Some latestExpiry else None),
                  proj_Revision = revision \<rparr>
            in case DesiredBanProjection_Validate projection of
                 Some e \<Rightarrow> Inl (AggregateProjectionInvalid e)
               | None \<Rightarrow> Inr projection)))"

section \<open>The loop-free specification\<close>

definition active_decisions :: "Decision list \<Rightarrow> Decision list" where
  "active_decisions ds = filter (\<lambda>d. dec_State d = DecisionActive) ds"

definition latest_expiry :: "Decision list \<Rightarrow> time option" where
  "latest_expiry ds =
     (if ds = [] \<or> None \<in> set (map dec_ExpiresAt ds) then None
      else Some (Max (set (map (the \<circ> dec_ExpiresAt) ds))))"

definition projection_spec :: "string \<Rightarrow> Prefix \<Rightarrow> u64 \<Rightarrow> Decision list \<Rightarrow> DesiredBanProjection" where
  "projection_spec nodeID target revision ds =
     \<lparr> proj_NodeID = nodeID, proj_CanonicalTarget = target,
       proj_State = (if active_decisions ds = [] then BanProjectionAbsent else BanProjectionPresent),
       proj_ActiveCount = of_nat (length (active_decisions ds)),
       proj_EffectiveUntil = latest_expiry (active_decisions ds),
       proj_Revision = revision \<rparr>"

definition projects :: "string \<Rightarrow> Prefix \<Rightarrow> Decision \<Rightarrow> bool" where
  "projects nodeID target d \<longleftrightarrow>
     Decision_Validate d = None \<and> dec_NodeID d = nodeID \<and> dec_CanonicalTarget d = target"

section \<open>The loop computes the specification\<close>

definition aggregate_actives :: "Decision list \<Rightarrow> aggregate_state \<Rightarrow> aggregate_state" where
  "aggregate_actives ds st = fold aggregate_active ds st"

lemma aggregate_loop_projects:
  "\<forall>d\<in>set ds. projects nodeID target d \<Longrightarrow>
     aggregate_loop nodeID target ds st = Inr (aggregate_actives (active_decisions ds) st)"
  by (induction ds arbitrary: st) (simp_all add: aggregate_actives_def active_decisions_def projects_def)

lemma aggregate_loop_fails:
  "\<exists>d\<in>set ds. \<not> projects nodeID target d \<Longrightarrow> \<exists>e. aggregate_loop nodeID target ds st = Inl e"
proof (induction ds arbitrary: st)
  case (Cons d ds)
  show ?case
  proof (cases "projects nodeID target d")
    case True
    then have "\<exists>d\<in>set ds. \<not> projects nodeID target d" using Cons.prems by auto
    with True show ?thesis using Cons.IH by (simp add: projects_def)
  next
    case False
    then show ?thesis by (auto simp: projects_def split: option.split)
  qed
qed simp

lemma actives_count: "fst (aggregate_actives ds (c, l, f)) = c + of_nat (length ds)"
proof (induction ds arbitrary: c l f)
  case (Cons d ds)
  then show ?case
    by (cases "dec_ExpiresAt d") (simp_all add: aggregate_actives_def aggregate_active_def add_ac)
qed (simp add: aggregate_actives_def)

lemma actives_finite:
  "snd (snd (aggregate_actives ds (c, l, f))) \<longleftrightarrow> f \<and> None \<notin> set (map dec_ExpiresAt ds)"
proof (induction ds arbitrary: c l f)
  case (Cons d ds)
  then show ?case
    by (cases "dec_ExpiresAt d") (auto simp: aggregate_actives_def aggregate_active_def)
qed (simp add: aggregate_actives_def)

lemma Max_insert_max:
  "finite A \<Longrightarrow> Max (insert (max l x) A) = Max (insert l (insert x A))" for l :: "'a :: linorder"
  by (cases "A = {}") (simp_all add: max.assoc)

lemma actives_latest:
  assumes "\<forall>d\<in>set ds. \<exists>x. dec_ExpiresAt d = Some x \<and> 0 < x" and "0 \<le> l"
  shows "fst (snd (aggregate_actives ds (c, l, f))) = Max (insert l (set (map (the \<circ> dec_ExpiresAt) ds)))"
  using assms
proof (induction ds arbitrary: c l f)
  case (Cons d ds)
  then obtain x where x: "dec_ExpiresAt d = Some x" "0 < x" by auto
  then have "(if IsZero l \<or> l < x then x else l) = max l x"
    using Cons.prems(2) by (auto simp: IsZero_def)
  with x Cons show ?case
    by (simp add: aggregate_actives_def aggregate_active_def Max_insert_max del: Max_insert)
qed (simp add: aggregate_actives_def)

lemma latest_expiry_Some:
  "latest_expiry ds = Some t \<Longrightarrow> \<exists>d\<in>set ds. dec_ExpiresAt d = Some t"
proof -
  assume l: "latest_expiry ds = Some t"
  then have fin: "ds \<noteq> []" "None \<notin> set (map dec_ExpiresAt ds)"
    and t: "t = Max (set (map (the \<circ> dec_ExpiresAt) ds))"
    by (auto simp: latest_expiry_def split: if_splits)
  then have "t \<in> set (map (the \<circ> dec_ExpiresAt) ds)" by (simp del: set_map add: Max_in)
  with fin show ?thesis by (force simp: image_iff)
qed

lemma latest_expiry_upper:
  "latest_expiry ds = Some t \<Longrightarrow> d \<in> set ds \<Longrightarrow> \<exists>x. dec_ExpiresAt d = Some x \<and> x \<le> t"
  by (cases "dec_ExpiresAt d") (auto simp: latest_expiry_def split: if_splits intro!: Max_ge image_eqI [of _ _ d])

lemma actives_latest_expiry:
  assumes "\<forall>d\<in>set ds. \<forall>x. dec_ExpiresAt d = Some x \<longrightarrow> 0 < x" and "ds \<noteq> []"
    and "None \<notin> set (map dec_ExpiresAt ds)"
  shows "latest_expiry ds = Some (fst (snd (aggregate_actives ds (0, 0, f))))"
proof -
  have pos: "\<forall>d\<in>set ds. \<exists>x. dec_ExpiresAt d = Some x \<and> 0 < x"
    using assms by (metis image_eqI not_None_eq set_map)
  have "Max (insert 0 (set (map (the \<circ> dec_ExpiresAt) ds))) = Max (set (map (the \<circ> dec_ExpiresAt) ds))"
  proof -
    obtain d where "d \<in> set ds" using assms(2) by (meson list.set_sel(1))
    then have "0 < the (dec_ExpiresAt d)" "the (dec_ExpiresAt d) \<le> Max (set (map (the \<circ> dec_ExpiresAt) ds))"
      using pos by (auto intro: Max_ge)
    then show ?thesis using assms(2) by (simp add: max_def)
  qed
  with actives_latest [OF pos, of 0 0 f] assms show ?thesis
    by (simp add: latest_expiry_def)
qed

lemma valid_expiry_positive:
  "projects n t d \<Longrightarrow> 0 < dec_CreatedAt d \<Longrightarrow> dec_ExpiresAt d = Some x \<Longrightarrow> 0 < x"
  by (fastforce simp: projects_def Decision_Validate_None_iff decision_times_ok_def)

lemma of_nat_u64_eq_0_iff: "n < 2 ^ 64 \<Longrightarrow> (of_nat n :: u64) = 0 \<longleftrightarrow> n = 0"
  by (simp add: word_of_nat_eq_0_iff dvd_def) (metis (no_types) less_not_refl mult_is_0 nat_dvd_not_less dvd_triv_left gr0I)

lemma AggregateProjection_Inr_iff:
  assumes created: "\<forall>d\<in>set ds. 0 < dec_CreatedAt d" and small: "length ds < 2 ^ 64"
  shows "AggregateProjection nodeID target revision ds = Inr p \<longleftrightarrow>
         isLowerHex128 nodeID \<and> canonical target \<and> revision \<noteq> 0 \<and> (\<forall>d\<in>set ds. projects nodeID target d)
         \<and> p = projection_spec nodeID target revision ds"
proof (cases "nodeID \<noteq> [] \<and> canonical target \<and> (\<forall>d\<in>set ds. projects nodeID target d)")
  case True
  let ?as = "active_decisions ds"
  obtain c l f where st: "aggregate_actives ?as (0, 0, True) = (c, l, f)" by (metis prod.exhaust)
  have loop: "aggregate_loop nodeID target ds (0, 0, True) = Inr (c, l, f)"
    using True aggregate_loop_projects [of ds nodeID target "(0, 0, True)"] st by simp
  have c: "c = of_nat (length ?as)" using actives_count [of ?as 0 0 True] st by simp
  have f: "f \<longleftrightarrow> None \<notin> set (map dec_ExpiresAt ?as)" using actives_finite [of ?as 0 0 True] st by simp
  have "length ?as < 2 ^ 64"
    using small le_less_trans [OF length_filter_le] by (auto simp: active_decisions_def)
  then have c0: "c = 0 \<longleftrightarrow> ?as = []" using c of_nat_u64_eq_0_iff by auto
  have pos: "\<forall>d\<in>set ?as. \<forall>x. dec_ExpiresAt d = Some x \<longrightarrow> 0 < x"
    using True created valid_expiry_positive by (auto simp: active_decisions_def)
  have until: "(if c \<noteq> 0 \<and> f then Some l else None) = latest_expiry ?as"
  proof (cases "?as \<noteq> [] \<and> f")
    case True
    then have "latest_expiry ?as = Some l"
      using actives_latest_expiry [OF pos, of True] st f by simp
    with True c0 show ?thesis by simp
  next
    case False
    with c0 f show ?thesis by (auto simp: latest_expiry_def)
  qed
  have valid: "\<And>t. latest_expiry ?as = Some t \<Longrightarrow> \<not> IsZero t"
    using latest_expiry_Some pos by (fastforce simp: IsZero_def)
  have spec: "\<lparr> proj_NodeID = nodeID, proj_CanonicalTarget = target,
      proj_State = (if c = 0 then BanProjectionAbsent else BanProjectionPresent),
      proj_ActiveCount = c, proj_EffectiveUntil = (if c \<noteq> 0 \<and> f then Some l else None),
      proj_Revision = revision \<rparr> = projection_spec nodeID target revision ds"
    using until c c0 by (simp add: projection_spec_def)
  have "DesiredBanProjection_Validate (projection_spec nodeID target revision ds) = None
      \<longleftrightarrow> isLowerHex128 nodeID \<and> revision \<noteq> 0"
    using True valid c c0
    by (auto simp: DesiredBanProjection_Validate_None_iff projection_spec_def latest_expiry_def)
  then show ?thesis
    unfolding AggregateProjection_def canonical_neg
    using True by (simp only: loop Let_def sum.case prod.case spec) (auto split: option.split)
next
  case False
  then have "\<exists>e. AggregateProjection nodeID target revision ds = Inl e"
    using aggregate_loop_fails [of ds nodeID target "(0, 0, True)"]
    unfolding AggregateProjection_def canonical_neg
    by (cases "\<exists>d\<in>set ds. \<not> projects nodeID target d") auto
  moreover have "isLowerHex128 nodeID \<Longrightarrow> nodeID \<noteq> []" by (auto simp: isLowerHex128_def)
  ultimately show ?thesis using False by auto
qed

section \<open>Properties\<close>

text \<open>
  Claim C4. \<^verbatim>\<open>AggregateProjection\<close> implements its loop-free specification: it succeeds exactly for a
  well-formed node, a canonical target, a positive revision and decisions that are valid and belong
  to that node and target; the result then counts the active decisions, is present exactly when
  there is one, and carries the latest expiry exactly when all active decisions are finite.
\<close>

theorem AggregateProjection_refines_spec:
  assumes "\<forall>d\<in>set ds. 0 < dec_CreatedAt d" and "length ds < 2 ^ 64"
  shows "AggregateProjection nodeID target revision ds = Inr p \<longleftrightarrow>
         isLowerHex128 nodeID \<and> canonical target \<and> revision \<noteq> 0 \<and> (\<forall>d\<in>set ds. projects nodeID target d)
         \<and> p = projection_spec nodeID target revision ds"
  using assms by (rule AggregateProjection_Inr_iff)

definition sample_decision :: "time option \<Rightarrow> string \<Rightarrow> Decision" where
  "sample_decision expiry name =
     \<lparr> dec_ID = name, dec_NodeID = replicate 32 CHR ''0'', dec_Source = DecisionSourceManual,
       dec_RuleID = None, dec_RuleVersion = None, dec_AlertID = None,
       dec_CanonicalTarget = PrefixFrom (Addr4 0x0A000000) 8,
       dec_CreatedAt = 10, dec_UpdatedAt = 10, dec_LastTriggeredAt = 10, dec_ExpiresAt = expiry,
       dec_EndedAt = None, dec_State = DecisionActive, dec_EndReason = None, dec_SuppressedCount = 0 \<rparr>"

theorem AggregateProjection_refines_spec_witness:
  "AggregateProjection (replicate 32 CHR ''0'') (PrefixFrom (Addr4 0x0A000000) 8) 7
     [sample_decision (Some 50) ''a'', sample_decision (Some 90) ''b''] =
   Inr \<lparr> proj_NodeID = replicate 32 CHR ''0'', proj_CanonicalTarget = PrefixFrom (Addr4 0x0A000000) 8,
         proj_State = BanProjectionPresent, proj_ActiveCount = 2, proj_EffectiveUntil = Some 90,
         proj_Revision = 7 \<rparr>"
proof -
  let ?n = "replicate 32 CHR ''0''" and ?t = "PrefixFrom (Addr4 0x0A000000) 8"
  let ?ds = "[sample_decision (Some 50) ''a'', sample_decision (Some 90) ''b'']"
  have h: "\<forall>d\<in>set ?ds. 0 < dec_CreatedAt d" "length ?ds < 2 ^ 64"
    by (simp_all add: sample_decision_def)
  have ok: "isLowerHex128 ?n" "canonical ?t" "\<forall>d\<in>set ?ds. projects ?n ?t d" by code_simp+
  have spec: "projection_spec ?n ?t 7 ?ds =
      \<lparr> proj_NodeID = ?n, proj_CanonicalTarget = ?t, proj_State = BanProjectionPresent,
        proj_ActiveCount = 2, proj_EffectiveUntil = Some 90, proj_Revision = 7 \<rparr>"
    by (simp add: projection_spec_def active_decisions_def latest_expiry_def sample_decision_def)
  show ?thesis
    using AggregateProjection_refines_spec [OF h, of ?n ?t 7 "projection_spec ?n ?t 7 ?ds"] ok
    unfolding spec by simp
qed

end
