(* ===== verification/Decision_Memory.thy ===== *)
theory Decision_Memory
  imports Projection
begin

text \<open>
  \<^verbatim>\<open>internal/decision/service.go\<close>: the in-memory decision service. Its mutex makes every method
  one atomic step on the list of decisions; each method is a function from the list to the list
  and a result. The invariant says that all decisions are valid, identities are unique and at most
  one decision is active per manual or automatic key; no step ever changes a terminal decision.
\<close>

section \<open>Requests and errors\<close>

record AutomaticRequest =
  ar_DecisionID :: string
  ar_DeliveryID :: string
  ar_EventID :: string
  ar_NodeID :: string
  ar_RuleID :: string
  ar_RuleVersion :: "string option"
  ar_AlertID :: "string option"
  ar_Target :: Prefix
  ar_TriggeredAt :: time
  ar_ExpiresAt :: "time option"

record AutomaticResult =
  ares_Decision :: Decision
  ares_Created :: bool

record ManualRequest =
  mr_DecisionID :: string
  mr_NodeID :: string
  mr_Target :: Prefix
  mr_CreatedAt :: time
  mr_ExpiresAt :: "time option"

record ManualResult =
  mres_Previous :: "Decision option"
  mres_Current :: Decision
  mres_Replaced :: bool

datatype memory_error =
    RuleVersionRequired
  | CandidateInvalid decision_error
  | ErrSuppressionOverflow
  | ErrDecisionIDConflict string
  | AlreadyBannedError string
  | ReplacementPrecedes
  | ReplacedInvalid decision_error
  | ExpirationTimeRequired
  | ExpiredInvalid decision_error
  | RevokeTimeRequired
  | RevokedInvalid decision_error
  | TerminalConflictError string DecisionState "DecisionEndReason option" DecisionEndReason
  | ErrDecisionNotFound

section \<open>Operations\<close>

definition automatic_candidate :: "AutomaticRequest \<Rightarrow> Decision" where
  "automatic_candidate request =
     \<lparr> dec_ID = ar_DecisionID request, dec_NodeID = ar_NodeID request,
       dec_Source = DecisionSourceAutomatic, dec_RuleID = Some (ar_RuleID request),
       dec_RuleVersion = ar_RuleVersion request, dec_AlertID = ar_AlertID request,
       dec_CanonicalTarget = ar_Target request, dec_CreatedAt = ar_TriggeredAt request,
       dec_UpdatedAt = ar_TriggeredAt request, dec_LastTriggeredAt = ar_TriggeredAt request,
       dec_ExpiresAt = ar_ExpiresAt request, dec_EndedAt = None, dec_State = DecisionActive,
       dec_EndReason = None, dec_SuppressedCount = 0 \<rparr>"

definition manual_candidate :: "ManualRequest \<Rightarrow> Decision" where
  "manual_candidate request =
     \<lparr> dec_ID = mr_DecisionID request, dec_NodeID = mr_NodeID request,
       dec_Source = DecisionSourceManual, dec_RuleID = None, dec_RuleVersion = None, dec_AlertID = None,
       dec_CanonicalTarget = mr_Target request, dec_CreatedAt = mr_CreatedAt request,
       dec_UpdatedAt = mr_CreatedAt request, dec_LastTriggeredAt = mr_CreatedAt request,
       dec_ExpiresAt = mr_ExpiresAt request, dec_EndedAt = None, dec_State = DecisionActive,
       dec_EndReason = None, dec_SuppressedCount = 0 \<rparr>"

definition decisionIDExistsLocked :: "Decision list \<Rightarrow> string \<Rightarrow> bool" where
  "decisionIDExistsLocked decisions ident \<longleftrightarrow> list_ex (\<lambda>d. dec_ID d = ident) decisions"

definition automatic_match :: "AutomaticRequest \<Rightarrow> Decision \<Rightarrow> bool" where
  "automatic_match request current \<longleftrightarrow>
     \<not> (dec_State current \<noteq> DecisionActive \<or> dec_Source current \<noteq> DecisionSourceAutomatic
        \<or> dec_NodeID current \<noteq> ar_NodeID request \<or> dec_CanonicalTarget current \<noteq> ar_Target request
        \<or> dec_RuleID current = None \<or> the (dec_RuleID current) \<noteq> ar_RuleID request)"

definition manual_match :: "ManualRequest \<Rightarrow> Decision \<Rightarrow> bool" where
  "manual_match request current \<longleftrightarrow>
     \<not> (dec_State current \<noteq> DecisionActive \<or> dec_Source current \<noteq> DecisionSourceManual
        \<or> dec_NodeID current \<noteq> mr_NodeID request \<or> dec_CanonicalTarget current \<noteq> mr_Target request)"

text \<open>
  A loop that works on the first matching element and returns: the position of that element,
  or none.
\<close>

fun find_index :: "('a \<Rightarrow> bool) \<Rightarrow> 'a list \<Rightarrow> nat option" where
  "find_index P [] = None"
| "find_index P (x # xs) = (if P x then Some 0 else map_option Suc (find_index P xs))"

definition RecordAutomatic ::
  "Decision list \<Rightarrow> AutomaticRequest \<Rightarrow> Decision list \<times> (memory_error + AutomaticResult)" where
  "RecordAutomatic decisions request =
     (if ar_RuleVersion request = None then (decisions, Inl RuleVersionRequired)
      else let candidate = automatic_candidate request in
      (case Decision_Validate candidate of
         Some e \<Rightarrow> (decisions, Inl (CandidateInvalid e))
       | None \<Rightarrow>
         (case find_index (automatic_match request) decisions of
            Some index \<Rightarrow>
              (let current = decisions ! index in
               if dec_SuppressedCount current = MaxUint64 then (decisions, Inl ErrSuppressionOverflow)
               else let updated = current
                      \<lparr>dec_LastTriggeredAt :=
                         (if dec_LastTriggeredAt current < ar_TriggeredAt request
                          then ar_TriggeredAt request else dec_LastTriggeredAt current),
                       dec_SuppressedCount := dec_SuppressedCount current + 1\<rparr>
                    in (decisions[index := updated],
                        Inr \<lparr> ares_Decision = updated, ares_Created = False \<rparr>))
          | None \<Rightarrow>
              if decisionIDExistsLocked decisions (ar_DecisionID request)
              then (decisions, Inl (ErrDecisionIDConflict (ar_DecisionID request)))
              else (decisions @ [candidate], Inr \<lparr> ares_Decision = candidate, ares_Created = True \<rparr>))))"

definition replaced_decision :: "ManualRequest \<Rightarrow> Decision \<Rightarrow> Decision" where
  "replaced_decision request current = current
     \<lparr>dec_State := DecisionRevoked, dec_UpdatedAt := mr_CreatedAt request,
      dec_EndedAt := Some (mr_CreatedAt request), dec_EndReason := Some EndReasonManualReplace\<rparr>"

definition BanManual ::
  "Decision list \<Rightarrow> ManualRequest \<Rightarrow> bool \<Rightarrow> Decision list \<times> (memory_error + ManualResult)" where
  "BanManual decisions request replace =
     (let candidate = manual_candidate request in
      case Decision_Validate candidate of
        Some e \<Rightarrow> (decisions, Inl (CandidateInvalid e))
      | None \<Rightarrow>
        if decisionIDExistsLocked decisions (mr_DecisionID request)
        then (decisions, Inl (ErrDecisionIDConflict (mr_DecisionID request)))
        else (case find_index (manual_match request) decisions of
           Some index \<Rightarrow>
             (let current = decisions ! index in
              if \<not> replace then (decisions, Inl (AlreadyBannedError (dec_ID current)))
              else if mr_CreatedAt request < dec_CreatedAt current then (decisions, Inl ReplacementPrecedes)
              else let revoked = replaced_decision request current in
              (case Decision_Validate revoked of
                 Some e \<Rightarrow> (decisions, Inl (ReplacedInvalid e))
               | None \<Rightarrow> (decisions[index := revoked] @ [candidate],
                   Inr \<lparr> mres_Previous = Some revoked, mres_Current = candidate, mres_Replaced = True \<rparr>)))
         | None \<Rightarrow> (decisions @ [candidate],
             Inr \<lparr> mres_Previous = None, mres_Current = candidate, mres_Replaced = False \<rparr>)))"

definition due :: "time \<Rightarrow> Decision \<Rightarrow> bool" where
  "due now d \<longleftrightarrow> \<not> (dec_State d \<noteq> DecisionActive \<or> dec_ExpiresAt d = None \<or> now < the (dec_ExpiresAt d))"

definition expired_decision :: "time \<Rightarrow> Decision \<Rightarrow> Decision" where
  "expired_decision now current = current
     \<lparr>dec_State := DecisionExpired, dec_UpdatedAt := now,
      dec_EndedAt := Some now, dec_EndReason := Some EndReasonExpired\<rparr>"

text \<open>A validation error returns in the middle of the loop and keeps what was stored before it.\<close>

fun expire_loop :: "time \<Rightarrow> Decision list \<Rightarrow> Decision list \<times> (memory_error + Decision list)" where
  "expire_loop now [] = ([], Inr [])"
| "expire_loop now (current # rest) =
     (if \<not> due now current then
        (let (rest', r) = expire_loop now rest in (current # rest', r))
      else let e = expired_decision now current in
        (case Decision_Validate e of
           Some err \<Rightarrow> (current # rest, Inl (ExpiredInvalid err))
         | None \<Rightarrow>
             (let (rest', r) = expire_loop now rest
              in (e # rest', case r of Inl x \<Rightarrow> Inl x | Inr es \<Rightarrow> Inr (e # es)))))"

definition Expire :: "Decision list \<Rightarrow> time \<Rightarrow> Decision list \<times> (memory_error + Decision list)" where
  "Expire decisions now =
     (if IsZero now then (decisions, Inl ExpirationTimeRequired) else expire_loop now decisions)"

definition revoked_decision :: "time \<Rightarrow> DecisionEndReason \<Rightarrow> Decision \<Rightarrow> Decision" where
  "revoked_decision endedAt reason current = current
     \<lparr>dec_State := DecisionRevoked, dec_UpdatedAt := endedAt,
      dec_EndedAt := Some endedAt, dec_EndReason := Some reason\<rparr>"

definition Revoke ::
  "Decision list \<Rightarrow> string \<Rightarrow> time \<Rightarrow> DecisionEndReason \<Rightarrow> Decision list \<times> (memory_error + Decision)" where
  "Revoke decisions ident endedAt reason =
     (if IsZero endedAt then (decisions, Inl RevokeTimeRequired)
      else case find_index (\<lambda>d. dec_ID d = ident) decisions of
        None \<Rightarrow> (decisions, Inl ErrDecisionNotFound)
      | Some index \<Rightarrow>
        (let current = decisions ! index in
         if dec_State current \<noteq> DecisionActive then
           (if dec_State current = DecisionRevoked \<and> dec_EndReason current = Some reason
            then (decisions, Inr current)
            else (decisions, Inl (TerminalConflictError (dec_ID current) (dec_State current)
                                    (dec_EndReason current) reason)))
         else let revoked = revoked_decision endedAt reason current in
           (case Decision_Validate revoked of
              Some e \<Rightarrow> (decisions, Inl (RevokedInvalid e))
            | None \<Rightarrow> (decisions[index := revoked], Inr revoked))))"

section \<open>The service as a state machine\<close>

datatype memory_call =
    CallRecordAutomatic AutomaticRequest
  | CallBanManual ManualRequest bool
  | CallExpire time
  | CallRevoke string time DecisionEndReason

fun memory_step :: "Decision list \<Rightarrow> memory_call \<Rightarrow> Decision list" where
  "memory_step ds (CallRecordAutomatic r) = fst (RecordAutomatic ds r)"
| "memory_step ds (CallBanManual r b) = fst (BanManual ds r b)"
| "memory_step ds (CallExpire t) = fst (Expire ds t)"
| "memory_step ds (CallRevoke i t e) = fst (Revoke ds i t e)"

definition memory_run :: "memory_call list \<Rightarrow> Decision list" where
  "memory_run calls = foldl memory_step [] calls"

definition active_key :: "Decision \<Rightarrow> string \<times> Prefix \<times> string option" where
  "active_key d = (dec_NodeID d, dec_CanonicalTarget d,
     if dec_Source d = DecisionSourceManual then None else dec_RuleID d)"

definition memory_inv :: "Decision list \<Rightarrow> bool" where
  "memory_inv ds \<longleftrightarrow> (\<forall>d\<in>set ds. Decision_Validate d = None) \<and> distinct (map dec_ID ds)
     \<and> distinct (map active_key (active_decisions ds))"

section \<open>Lemmas on the list of decisions\<close>

lemma find_index_Some: "find_index P xs = Some i \<Longrightarrow> i < length xs \<and> P (xs ! i)"
  by (induction xs arbitrary: i) (auto split: if_splits)

lemma find_index_None: "find_index P xs = None \<longleftrightarrow> (\<forall>x\<in>set xs. \<not> P x)"
  by (induction xs) auto

lemma active_decisions_simps [simp]:
  "active_decisions [] = []"
  "active_decisions (d # ds) = (if dec_State d = DecisionActive then d # active_decisions ds else active_decisions ds)"
  "active_decisions (ds @ es) = active_decisions ds @ active_decisions es"
  "set (active_decisions ds) = {d \<in> set ds. dec_State d = DecisionActive}"
  by (simp_all add: active_decisions_def)

lemma memory_inv_split:
  "memory_inv (pre @ d # post) \<longleftrightarrow>
     memory_inv (pre @ post) \<and> Decision_Validate d = None \<and> dec_ID d \<notin> dec_ID ` set (pre @ post)
     \<and> (dec_State d = DecisionActive \<longrightarrow> active_key d \<notin> active_key ` set (active_decisions (pre @ post)))"
  by (auto simp: memory_inv_def)

lemma memory_inv_append:
  "memory_inv (ds @ [d]) \<longleftrightarrow>
     memory_inv ds \<and> Decision_Validate d = None \<and> dec_ID d \<notin> dec_ID ` set ds
     \<and> (dec_State d = DecisionActive \<longrightarrow> active_key d \<notin> active_key ` set (active_decisions ds))"
  using memory_inv_split [of ds d "[]"] by simp

lemma memory_inv_update:
  assumes "memory_inv ds" and "i < length ds" and "Decision_Validate d' = None"
    and "dec_ID d' = dec_ID (ds ! i)"
    and "dec_State d' \<noteq> DecisionActive \<or> dec_State (ds ! i) = DecisionActive \<and> active_key d' = active_key (ds ! i)"
  shows "memory_inv (ds[i := d'])"
proof -
  have ds: "ds = take i ds @ ds ! i # drop (Suc i) ds" using assms(2) by (rule id_take_nth_drop)
  have "memory_inv (take i ds @ ds ! i # drop (Suc i) ds)" using assms(1) ds by simp
  then have "memory_inv (take i ds @ d' # drop (Suc i) ds)"
    using assms(3-5) unfolding memory_inv_split by metis
  then show ?thesis using assms(2) by (simp add: upd_conv_take_nth_drop)
qed

lemma key_released:
  assumes "memory_inv ds" and "i < length ds" and "dec_State (ds ! i) = DecisionActive"
    and "dec_State d' \<noteq> DecisionActive"
  shows "active_key (ds ! i) \<notin> active_key ` set (active_decisions (ds[i := d']))"
proof -
  have ds: "ds = take i ds @ ds ! i # drop (Suc i) ds" using assms(2) by (rule id_take_nth_drop)
  have "memory_inv (take i ds @ ds ! i # drop (Suc i) ds)" using assms(1) ds by simp
  then have "active_key (ds ! i) \<notin> active_key ` set (active_decisions (take i ds @ drop (Suc i) ds))"
    using assms(3) unfolding memory_inv_split by blast
  moreover have "active_decisions (ds[i := d']) = active_decisions (take i ds @ drop (Suc i) ds)"
    using assms(2,4) by (simp add: upd_conv_take_nth_drop)
  ultimately show ?thesis by simp
qed

lemma ids_update: "i < length ds \<Longrightarrow> dec_ID d' = dec_ID (ds ! i) \<Longrightarrow> dec_ID ` set (ds[i := d']) = dec_ID ` set ds"
  by (metis list.set_map list_update_id map_update nth_map)

lemma decisionIDExists_iff [simp]: "decisionIDExistsLocked ds i \<longleftrightarrow> i \<in> dec_ID ` set ds"
  by (auto simp: decisionIDExistsLocked_def list_ex_iff)

section \<open>Validity of the decisions each method writes\<close>

lemma valid_source:
  "Decision_Validate d = None \<Longrightarrow> dec_Source d = DecisionSourceManual
     \<or> dec_Source d = DecisionSourceAutomatic \<and> dec_RuleID d \<noteq> None"
  by (auto simp: Decision_Validate_None_iff decision_identity_ok_def)

lemmas decision_valid_defs =
  Decision_Validate_None_iff decision_identity_ok_def decision_times_ok_def decision_end_ok_def

lemma suppressed_valid:
  "Decision_Validate d = None \<Longrightarrow> dec_LastTriggeredAt d \<le> t \<Longrightarrow>
     Decision_Validate (d\<lparr>dec_LastTriggeredAt := t, dec_SuppressedCount := n\<rparr>) = None"
  by (simp add: decision_valid_defs cong: DecisionState.case_cong)

lemma replaced_valid:
  "Decision_Validate d = None \<Longrightarrow> dec_Source d = DecisionSourceManual \<Longrightarrow>
     dec_CreatedAt d \<le> mr_CreatedAt r \<Longrightarrow> Decision_Validate (replaced_decision r d) = None"
  by (simp add: decision_valid_defs replaced_decision_def)

lemma expired_valid:
  "Decision_Validate d = None \<Longrightarrow> due now d \<Longrightarrow> Decision_Validate (expired_decision now d) = None"
  by (auto simp: decision_valid_defs expired_decision_def due_def)

lemma candidate_fields [simp]:
  "dec_State (automatic_candidate r) = DecisionActive" "dec_ID (automatic_candidate r) = ar_DecisionID r"
  "active_key (automatic_candidate r) = (ar_NodeID r, ar_Target r, Some (ar_RuleID r))"
  "dec_State (manual_candidate m) = DecisionActive" "dec_ID (manual_candidate m) = mr_DecisionID m"
  "active_key (manual_candidate m) = (mr_NodeID m, mr_Target m, None)"
  by (simp_all add: automatic_candidate_def manual_candidate_def active_key_def)

lemma written_fields [simp]:
  "dec_State (replaced_decision r d) = DecisionRevoked" "dec_ID (replaced_decision r d) = dec_ID d"
  "dec_State (expired_decision now d) = DecisionExpired" "dec_ID (expired_decision now d) = dec_ID d"
  "dec_State (revoked_decision t e d) = DecisionRevoked" "dec_ID (revoked_decision t e d) = dec_ID d"
  by (simp_all add: replaced_decision_def expired_decision_def revoked_decision_def)

lemma automatic_match_key:
  "Decision_Validate d = None \<Longrightarrow> dec_State d = DecisionActive \<Longrightarrow>
     automatic_match r d \<longleftrightarrow> active_key d = (ar_NodeID r, ar_Target r, Some (ar_RuleID r))"
  using valid_source [of d] by (auto simp: automatic_match_def active_key_def)

lemma manual_match_key:
  "Decision_Validate d = None \<Longrightarrow> dec_State d = DecisionActive \<Longrightarrow>
     manual_match r d \<longleftrightarrow> active_key d = (mr_NodeID r, mr_Target r, None)"
  using valid_source [of d] by (auto simp: manual_match_def active_key_def)

section \<open>The invariant\<close>

lemma memory_inv_valid: "memory_inv ds \<Longrightarrow> d \<in> set ds \<Longrightarrow> Decision_Validate d = None"
  by (simp add: memory_inv_def)

lemma RecordAutomatic_inv:
  assumes inv: "memory_inv ds" shows "memory_inv (fst (RecordAutomatic ds r))"
proof (cases "ar_RuleVersion r = None \<or> Decision_Validate (automatic_candidate r) \<noteq> None")
  case True
  then show ?thesis using inv by (auto simp: RecordAutomatic_def Let_def)
next
  case ok: False
  show ?thesis
  proof (cases "find_index (automatic_match r) ds")
    case None
    then have "active_key (automatic_candidate r) \<notin> active_key ` set (active_decisions ds)"
      using inv automatic_match_key memory_inv_valid
      by (fastforce simp: find_index_None)
    then have "decisionIDExistsLocked ds (ar_DecisionID r) \<or> memory_inv (ds @ [automatic_candidate r])"
      using inv ok by (auto simp: memory_inv_append)
    then show ?thesis using None ok inv by (auto simp: RecordAutomatic_def Let_def)
  next
    case (Some i)
    then have i: "i < length ds" "automatic_match r (ds ! i)" using find_index_Some by blast+
    let ?t = "if dec_LastTriggeredAt (ds ! i) < ar_TriggeredAt r then ar_TriggeredAt r
              else dec_LastTriggeredAt (ds ! i)"
    let ?u = "(ds ! i)\<lparr>dec_LastTriggeredAt := ?t, dec_SuppressedCount := dec_SuppressedCount (ds ! i) + 1\<rparr>"
    have v: "Decision_Validate (ds ! i) = None" using memory_inv_valid [OF inv] i(1) by simp
    have "Decision_Validate ?u = None" by (rule suppressed_valid [OF v]) simp
    moreover have "active_key ?u = active_key (ds ! i)" by (simp add: active_key_def)
    moreover have "dec_State (ds ! i) = DecisionActive" using i(2) by (simp add: automatic_match_def)
    ultimately have "memory_inv (ds[i := ?u])" by (intro memory_inv_update [OF inv i(1)]) simp_all
    then show ?thesis using Some ok inv by (auto simp: RecordAutomatic_def Let_def)
  qed
qed

lemma BanManual_inv:
  assumes inv: "memory_inv ds" shows "memory_inv (fst (BanManual ds r b))"
proof (cases "Decision_Validate (manual_candidate r) \<noteq> None \<or> mr_DecisionID r \<in> dec_ID ` set ds")
  case True
  then show ?thesis using inv by (auto simp: BanManual_def Let_def split: option.splits)
next
  case ok: False
  show ?thesis
  proof (cases "find_index (manual_match r) ds")
    case None
    then have "active_key (manual_candidate r) \<notin> active_key ` set (active_decisions ds)"
      using inv manual_match_key memory_inv_valid by (fastforce simp: find_index_None)
    then have "memory_inv (ds @ [manual_candidate r])"
      using inv ok by (auto simp: memory_inv_append)
    then show ?thesis using None ok by (simp add: BanManual_def Let_def)
  next
    case (Some i)
    then have i: "i < length ds" "manual_match r (ds ! i)" using find_index_Some by blast+
    have v: "Decision_Validate (ds ! i) = None" using memory_inv_valid [OF inv] i(1) by simp
    have act: "dec_State (ds ! i) = DecisionActive" using i(2) by (simp add: manual_match_def)
    let ?u = "replaced_decision r (ds ! i)"
    have "active_key (manual_candidate r) = active_key (ds ! i)"
      using manual_match_key [OF v act] i(2) by simp
    then have key: "active_key (manual_candidate r) \<notin> active_key ` set (active_decisions (ds[i := ?u]))"
      using key_released [OF inv i(1) act, of ?u] by simp
    have "memory_inv (ds[i := ?u] @ [manual_candidate r])" if "Decision_Validate ?u = None"
      using memory_inv_update [OF inv i(1) that] key ok ids_update [OF i(1), of ?u]
      unfolding memory_inv_append by simp
    then show ?thesis using Some ok inv by (auto simp: BanManual_def Let_def split: option.splits)
  qed
qed

lemma expire_loop_valid:
  assumes "\<forall>d\<in>set ds. Decision_Validate d = None"
  shows "expire_loop now ds =
     (map (\<lambda>d. if due now d then expired_decision now d else d) ds,
      Inr (map (expired_decision now) (filter (due now) ds)))"
  using assms by (induction ds) (auto simp: expired_valid Let_def)

lemma expire_map_inv:
  assumes "memory_inv ds"
  shows "memory_inv (map (\<lambda>d. if due now d then expired_decision now d else d) ds)"
  using assms
proof (induction ds)
  case (Cons d ds)
  let ?f = "\<lambda>d. if due now d then expired_decision now d else d"
  have ids: "dec_ID (?f x) = dec_ID x" for x by simp
  have sub: "active_key ` set (active_decisions (map ?f ds)) \<subseteq> active_key ` set (active_decisions ds)"
    by (auto split: if_splits)
  have c: "memory_inv ([] @ d # ds)" using Cons.prems by simp
  then have ih: "memory_inv (map ?f ds)" using Cons.IH unfolding memory_inv_split by simp
  have "dec_ID ` set (map ?f ds) = dec_ID ` set ds" by (simp only: set_map image_image ids)
  then have "dec_ID (?f d) \<notin> dec_ID ` set (map ?f ds)"
    using c ids unfolding memory_inv_split by simp
  moreover have "Decision_Validate (?f d) = None" using c expired_valid unfolding memory_inv_split by simp
  moreover have "active_key (?f d) \<notin> active_key ` set (active_decisions (map ?f ds))"
    if "dec_State (?f d) = DecisionActive"
    using c that sub unfolding memory_inv_split by (auto split: if_splits)
  ultimately have "memory_inv ([] @ ?f d # map ?f ds)" using ih unfolding memory_inv_split by simp
  then show ?case by simp
qed simp

lemma Expire_inv: "memory_inv ds \<Longrightarrow> memory_inv (fst (Expire ds now))"
  using expire_map_inv [of ds now] expire_loop_valid [of ds now] memory_inv_valid [of ds]
  by (simp add: Expire_def)

lemma Revoke_inv:
  assumes inv: "memory_inv ds" shows "memory_inv (fst (Revoke ds i t e))"
proof -
  have "memory_inv (ds[k := revoked_decision t e (ds ! k)])"
    if "find_index (\<lambda>d. dec_ID d = i) ds = Some k"
      "Decision_Validate (revoked_decision t e (ds ! k)) = None" for k
    using memory_inv_update [OF inv _ that(2)] find_index_Some [OF that(1)] by simp
  then show ?thesis using inv by (auto simp: Revoke_def Let_def split: option.splits)
qed

lemma memory_step_inv: "memory_inv ds \<Longrightarrow> memory_inv (memory_step ds c)"
  by (cases c) (simp_all add: RecordAutomatic_inv BanManual_inv Expire_inv Revoke_inv)

lemma memory_run_inv: "memory_inv (memory_run cs)"
proof -
  have "memory_inv ds \<Longrightarrow> memory_inv (foldl memory_step ds cs)" for ds
    by (induction cs arbitrary: ds) (simp_all add: memory_step_inv)
  moreover have "memory_inv []" by (simp add: memory_inv_def)
  ultimately show ?thesis by (simp add: memory_run_def)
qed

section \<open>Properties\<close>

definition terminal :: "Decision \<Rightarrow> bool" where
  "terminal d \<longleftrightarrow> dec_State d \<noteq> DecisionActive"

text \<open>
  Claim C11. Whatever calls the in-memory service receives, all its decisions are valid, no two
  share an identity, a target has at most one active manual decision, and at most one active
  automatic decision per rule.
\<close>

theorem memory_service_invariant:
  "(\<forall>d\<in>set (memory_run calls). Decision_Validate d = None)
   \<and> distinct (map dec_ID (memory_run calls))
   \<and> distinct (map active_key (active_decisions (memory_run calls)))"
  using memory_run_inv [of calls] by (simp add: memory_inv_def)

definition sample_manual :: "string \<Rightarrow> time \<Rightarrow> ManualRequest" where
  "sample_manual i t = \<lparr> mr_DecisionID = i, mr_NodeID = replicate 32 CHR ''0'',
     mr_Target = PrefixFrom (Addr4 0x0A000000) 8, mr_CreatedAt = t, mr_ExpiresAt = Some (t + 5) \<rparr>"

theorem memory_service_invariant_witness:
  "memory_run [CallBanManual (sample_manual ''a'' 10) False, CallBanManual (sample_manual ''b'' 12) True] \<noteq> []
   \<and> distinct (map dec_ID
       (memory_run [CallBanManual (sample_manual ''a'' 10) False, CallBanManual (sample_manual ''b'' 12) True]))"
proof -
  let ?c = "[CallBanManual (sample_manual ''a'' 10) False, CallBanManual (sample_manual ''b'' 12) True]"
  have "memory_run ?c \<noteq> []" by code_simp
  then show ?thesis using memory_service_invariant [of ?c] by blast
qed

lemma list_update_keeps: "x \<in> set xs \<Longrightarrow> x \<noteq> xs ! i \<Longrightarrow> x \<in> set (xs[i := y])"
  by (metis in_set_conv_nth length_list_update nth_list_update_neq)

lemma memory_step_keeps_terminal:
  assumes inv: "memory_inv ds" and d: "d \<in> set ds" "terminal d"
  shows "d \<in> set (memory_step ds c)"
proof (cases c)
  case (CallRecordAutomatic r)
  have "d \<in> set (ds[i := u])" if "find_index (automatic_match r) ds = Some i" for i u
  proof (rule list_update_keeps [OF d(1)])
    show "d \<noteq> ds ! i"
      using find_index_Some [OF that] d(2) by (auto simp: terminal_def automatic_match_def)
  qed
  then show ?thesis using CallRecordAutomatic d(1)
    by (auto simp: RecordAutomatic_def Let_def split: option.splits)
next
  case (CallBanManual r b)
  have "d \<in> set (ds[i := u])" if "find_index (manual_match r) ds = Some i" for i u
  proof (rule list_update_keeps [OF d(1)])
    show "d \<noteq> ds ! i"
      using find_index_Some [OF that] d(2) by (auto simp: terminal_def manual_match_def)
  qed
  then show ?thesis using CallBanManual d(1)
    by (auto simp: BanManual_def Let_def split: option.splits)
next
  case (CallExpire t)
  have "\<not> due t d" using d(2) by (auto simp: due_def terminal_def)
  then have "d \<in> set (map (\<lambda>d. if due t d then expired_decision t d else d) ds)"
    using d(1) by (auto simp: image_iff)
  then show ?thesis
    using CallExpire d(1) expire_loop_valid [of ds t] memory_inv_valid [OF inv] by (simp add: Expire_def)
next
  case (CallRevoke i t e)
  have "d \<in> set (ds[k := u])"
    if "find_index (\<lambda>d. dec_ID d = i) ds = Some k" "dec_State (ds ! k) = DecisionActive" for k u
    by (rule list_update_keeps [OF d(1)]) (use that d(2) in \<open>auto simp: terminal_def\<close>)
  then show ?thesis using CallRevoke d(1) by (auto simp: Revoke_def Let_def split: option.splits)
qed

lemma memory_run_append: "memory_run (cs @ ds) = foldl memory_step (memory_run cs) ds"
  by (simp add: memory_run_def)

text \<open>
  Claim C12. A decision that has reached a terminal state is never changed or removed by any later
  sequence of calls.
\<close>

theorem memory_terminal_permanent:
  assumes "d \<in> set (memory_run calls)" and "terminal d"
  shows "d \<in> set (memory_run (calls @ later))"
proof -
  have "memory_inv ds \<Longrightarrow> d \<in> set ds \<Longrightarrow> d \<in> set (foldl memory_step ds later)" for ds
  proof (induction later arbitrary: ds)
    case (Cons c cs)
    then show ?case using memory_step_inv memory_step_keeps_terminal [OF _ _ assms(2)] by simp
  qed simp
  then show ?thesis using assms(1) memory_run_inv by (simp add: memory_run_append)
qed

theorem memory_terminal_permanent_witness:
  "expired_decision 20 (manual_candidate (sample_manual ''a'' 10))
     \<in> set (memory_run ([CallBanManual (sample_manual ''a'' 10) False, CallExpire 20]
                       @ [CallBanManual (sample_manual ''b'' 30) False, CallRevoke ''a'' 40 EndReasonManual]))"
proof (rule memory_terminal_permanent)
  show "expired_decision 20 (manual_candidate (sample_manual ''a'' 10))
      \<in> set (memory_run [CallBanManual (sample_manual ''a'' 10) False, CallExpire 20])"
    by code_simp
  show "terminal (expired_decision 20 (manual_candidate (sample_manual ''a'' 10)))" by code_simp
qed

text \<open>
  Claim C13. In every reachable state \<^verbatim>\<open>Expire\<close> at a nonzero time succeeds and is atomic: it expires
  exactly the active decisions whose expiry has passed, reports them in order, leaves every other
  decision as it was, and afterwards no decision is due.
\<close>

theorem memory_Expire_complete:
  assumes "\<not> IsZero now"
  shows "Expire (memory_run calls) now =
           (map (\<lambda>d. if due now d then expired_decision now d else d) (memory_run calls),
            Inr (map (expired_decision now) (filter (due now) (memory_run calls))))
     \<and> (\<forall>d\<in>set (fst (Expire (memory_run calls) now)). \<not> due now d)"
proof
  have "\<forall>d\<in>set (memory_run calls). Decision_Validate d = None"
    using memory_inv_valid [OF memory_run_inv] by blast
  then show eq: "Expire (memory_run calls) now =
           (map (\<lambda>d. if due now d then expired_decision now d else d) (memory_run calls),
            Inr (map (expired_decision now) (filter (due now) (memory_run calls))))"
    using assms by (simp add: Expire_def expire_loop_valid)
  have "\<not> due now (expired_decision now d)" for d by (simp add: due_def)
  then show "\<forall>d\<in>set (fst (Expire (memory_run calls) now)). \<not> due now d"
    unfolding eq by auto
qed

theorem memory_Expire_complete_witness:
  "snd (Expire (memory_run [CallBanManual (sample_manual ''a'' 10) False]) 20) =
     Inr [expired_decision 20 (manual_candidate (sample_manual ''a'' 10))]"
proof -
  have run: "memory_run [CallBanManual (sample_manual ''a'' 10) False] = [manual_candidate (sample_manual ''a'' 10)]"
    by code_simp
  have "due 20 (manual_candidate (sample_manual ''a'' 10))" by code_simp
  moreover have "\<not> IsZero (20 :: time)" by (simp add: IsZero_def)
  ultimately show ?thesis
    using memory_Expire_complete [of 20 "[CallBanManual (sample_manual ''a'' 10) False]"] by (simp add: run)
qed

end
