(* ===== verification/Intent_Resolution.thy ===== *)
theory Intent_Resolution
  imports Core_Decision
begin

text \<open>
  \<^verbatim>\<open>internal/enforcement/intent.go\<close>: a ban projection and the policy of its target resolved
  into the normalized intent the firewall must realise. The target generation advances exactly
  when the physical meaning of the intent changes.
\<close>

definition M0SafetyGrace :: int where
  "M0SafetyGrace = 5 * Minute"

record TargetPolicy =
  tp_Coverage :: PolicyCoverage
  tp_RelationDigest :: string
  tp_Scopes :: EnforcementScope
  tp_NativeTimeoutSupported :: bool
  tp_BackendAttributesDigest :: string

datatype resolve_error =
    ResolveProjectionInvalid projection_error
  | ResolveScopesInvalid
  | ResolveCoverageInvalid
  | ResolvedIntentInvalid intent_error
  | PreviousIntentInvalid intent_error
  | PreviousOtherTarget
  | GenerationExhausted

definition addressFamily :: "bool \<Rightarrow> AddressFamily" where
  "addressFamily ipv4 = (if ipv4 then AddressFamilyIPv4 else AddressFamilyIPv6)"

definition equalTime :: "time option \<Rightarrow> time option \<Rightarrow> bool" where
  "equalTime left right \<longleftrightarrow>
     (case (left, right) of (Some l, Some r) \<Rightarrow> l = r | _ \<Rightarrow> left = None \<and> right = None)"

definition Equivalent ::
  "NormalizedTargetEnforcementIntent \<Rightarrow> NormalizedTargetEnforcementIntent \<Rightarrow> bool" where
  "Equivalent left right \<longleftrightarrow>
     int_NodeID left = int_NodeID right \<and>
     int_CanonicalTarget left = int_CanonicalTarget right \<and>
     int_BanMembership left = int_BanMembership right \<and>
     equalTime (int_EffectiveUntil left) (int_EffectiveUntil right) \<and>
     int_TimeoutMode left = int_TimeoutMode right \<and>
     int_Scopes left = int_Scopes right \<and>
     int_AddressFamily left = int_AddressFamily right \<and>
     int_PolicyCoverage left = int_PolicyCoverage right \<and>
     int_PolicyRelationDigest left = int_PolicyRelationDigest right \<and>
     int_BackendAttributesDigest left = int_BackendAttributesDigest right"

text \<open>The intent \<^verbatim>\<open>ResolveTarget\<close> assembles before it assigns a generation.\<close>

definition assemble_intent ::
  "DesiredBanProjection \<Rightarrow> TargetPolicy \<Rightarrow> u64 \<Rightarrow> NormalizedTargetEnforcementIntent" where
  "assemble_intent projection policy generation =
     (let present = proj_State projection = BanProjectionPresent in
      \<lparr> int_NodeID = proj_NodeID projection,
        int_CanonicalTarget = proj_CanonicalTarget projection,
        int_BanMembership = (if present then BanPresent else BanAbsent),
        int_EffectiveUntil = (if present then proj_EffectiveUntil projection else None),
        int_TimeoutMode =
          (if present \<and> proj_EffectiveUntil projection \<noteq> None \<and> tp_NativeTimeoutSupported policy
           then TimeoutNative else TimeoutNone),
        int_Scopes = tp_Scopes policy,
        int_AddressFamily = addressFamily (Is4 (pfx_addr (proj_CanonicalTarget projection))),
        int_PolicyCoverage = (if present then tp_Coverage policy else PolicyCoverageNone),
        int_PolicyRelationDigest = (if present then tp_RelationDigest policy else []),
        int_BackendAttributesDigest = tp_BackendAttributesDigest policy,
        int_Generation = generation \<rparr>)"

definition check_resolved ::
  "NormalizedTargetEnforcementIntent \<Rightarrow> bool \<Rightarrow> resolve_error + (NormalizedTargetEnforcementIntent \<times> bool)" where
  "check_resolved intent changed =
     (case NormalizedTargetEnforcementIntent_Validate intent of
        Some e \<Rightarrow> Inl (ResolvedIntentInvalid e)
      | None \<Rightarrow> Inr (intent, changed))"

definition ResolveTarget ::
  "DesiredBanProjection \<Rightarrow> TargetPolicy \<Rightarrow> NormalizedTargetEnforcementIntent option
     \<Rightarrow> resolve_error + (NormalizedTargetEnforcementIntent \<times> bool)" where
  "ResolveTarget projection policy previous =
     (case DesiredBanProjection_Validate projection of
        Some e \<Rightarrow> Inl (ResolveProjectionInvalid e)
      | None \<Rightarrow>
      if tp_Scopes policy = 0 \<or> tp_Scopes policy AND NOT (ScopeInput OR ScopeForward) \<noteq> 0
      then Inl ResolveScopesInvalid
      else if tp_Coverage policy \<noteq> PolicyCoverageNone \<and> tp_Coverage policy \<noteq> PolicyCoveragePartial
              \<and> tp_Coverage policy \<noteq> PolicyCoverageFull
      then Inl ResolveCoverageInvalid
      else (case previous of
         None \<Rightarrow> check_resolved (assemble_intent projection policy 1) True
       | Some prev \<Rightarrow>
         (case NormalizedTargetEnforcementIntent_Validate prev of
            Some e \<Rightarrow> Inl (PreviousIntentInvalid e)
          | None \<Rightarrow>
            (let intent = assemble_intent projection policy (int_Generation prev) in
             if int_NodeID prev \<noteq> int_NodeID intent
                \<or> int_CanonicalTarget prev \<noteq> int_CanonicalTarget intent
             then Inl PreviousOtherTarget
             else if Equivalent prev intent then check_resolved intent False
             else if int_Generation prev = MaxUint64 then Inl GenerationExhausted
             else check_resolved (intent\<lparr>int_Generation := int_Generation intent + 1\<rparr>) True))))"

definition NativeExpiryForIntent :: "NormalizedTargetEnforcementIntent \<Rightarrow> time option" where
  "NativeExpiryForIntent intent =
     (if int_TimeoutMode intent \<noteq> TimeoutNative then None
      else map_option (\<lambda>t. t + M0SafetyGrace) (int_EffectiveUntil intent))"

section \<open>Properties\<close>

definition policy_ok :: "TargetPolicy \<Rightarrow> bool" where
  "policy_ok p \<longleftrightarrow> scopes_ok (tp_Scopes p)
     \<and> tp_Coverage p \<in> {PolicyCoverageNone, PolicyCoveragePartial, PolicyCoverageFull}"

lemma equalTime_iff [simp]: "equalTime l r \<longleftrightarrow> l = r"
  by (auto simp: equalTime_def split: option.splits)

lemma Equivalent_iff: "Equivalent a b \<longleftrightarrow> a\<lparr>int_Generation := g\<rparr> = b\<lparr>int_Generation := g\<rparr>"
  by (cases a; cases b) (auto simp: Equivalent_def)

lemma Equivalent_generation [simp]:
  "Equivalent (a\<lparr>int_Generation := g\<rparr>) b = Equivalent a b"
  "Equivalent a (b\<lparr>int_Generation := g\<rparr>) = Equivalent a b"
  by (simp_all add: Equivalent_def)

lemma Equivalent_refl [simp]: "Equivalent a a" by (simp add: Equivalent_def)

lemma assemble_generation [simp]:
  "int_Generation (assemble_intent p q g) = g"
  "(assemble_intent p q g)\<lparr>int_Generation := h\<rparr> = assemble_intent p q h"
  "int_NodeID (assemble_intent p q g) = proj_NodeID p"
  "int_CanonicalTarget (assemble_intent p q g) = proj_CanonicalTarget p"
  by (simp_all add: assemble_intent_def Let_def)

lemma assemble_Equivalent [simp]: "Equivalent (assemble_intent p q g) (assemble_intent p q h)"
  by (simp add: Equivalent_def assemble_intent_def Let_def)

text \<open>Whatever a valid projection and a supported policy assemble is a valid intent.\<close>

lemma assemble_valid:
  assumes "DesiredBanProjection_Validate p = None" and "policy_ok q" and "g \<noteq> 0"
  shows "NormalizedTargetEnforcementIntent_Validate (assemble_intent p q g) = None"
  using assms
  by (auto simp: Intent_Validate_None_iff DesiredBanProjection_Validate_None_iff assemble_intent_def
      Let_def policy_ok_def addressFamily_def)

lemma u64_not_max_inc: "g \<noteq> MaxUint64 \<Longrightarrow> (g :: u64) + 1 \<noteq> 0"
  by (auto simp: MaxUint64_def eq_neg_iff_add_eq_0 [symmetric])

lemma policy_guards:
  "policy_ok q \<longleftrightarrow> \<not> (tp_Scopes q = 0 \<or> tp_Scopes q AND NOT (ScopeInput OR ScopeForward) \<noteq> 0)
     \<and> \<not> (tp_Coverage q \<noteq> PolicyCoverageNone \<and> tp_Coverage q \<noteq> PolicyCoveragePartial
           \<and> tp_Coverage q \<noteq> PolicyCoverageFull)"
  by (auto simp: policy_ok_def scopes_ok_def)

lemma ResolveTarget_eq:
  assumes "DesiredBanProjection_Validate p = None" and "policy_ok q"
  shows "ResolveTarget p q None = Inr (assemble_intent p q 1, True)"
    and "NormalizedTargetEnforcementIntent_Validate prev = None \<Longrightarrow>
         int_NodeID prev = proj_NodeID p \<Longrightarrow> int_CanonicalTarget prev = proj_CanonicalTarget p \<Longrightarrow>
         ResolveTarget p q (Some prev) =
           (if Equivalent prev (assemble_intent p q 1) then Inr (prev, False)
            else if int_Generation prev = MaxUint64 then Inl GenerationExhausted
            else Inr (assemble_intent p q (int_Generation prev + 1), True))"
proof -
  note g = assms(2) [unfolded policy_guards]
  show "ResolveTarget p q None = Inr (assemble_intent p q 1, True)"
    using assms(1) g assemble_valid [OF assms, of 1]
    by (simp only: ResolveTarget_def check_resolved_def) simp
next
  note g = assms(2) [unfolded policy_guards]
  assume v: "NormalizedTargetEnforcementIntent_Validate prev = None"
    and n: "int_NodeID prev = proj_NodeID p" and t: "int_CanonicalTarget prev = proj_CanonicalTarget p"
  have same: "Equivalent prev (assemble_intent p q (int_Generation prev))
      \<longleftrightarrow> Equivalent prev (assemble_intent p q 1)"
    by (simp add: Equivalent_def assemble_intent_def Let_def)
  have eq: "Equivalent prev (assemble_intent p q 1) \<Longrightarrow> assemble_intent p q (int_Generation prev) = prev"
    using Equivalent_iff [of prev "assemble_intent p q 1" "int_Generation prev"] by simp
  show "ResolveTarget p q (Some prev) =
           (if Equivalent prev (assemble_intent p q 1) then Inr (prev, False)
            else if int_Generation prev = MaxUint64 then Inl GenerationExhausted
            else Inr (assemble_intent p q (int_Generation prev + 1), True))"
    using assms(1) g v n t eq same assemble_valid [OF assms u64_not_max_inc, of "int_Generation prev"]
    by (cases "Equivalent prev (assemble_intent p q 1)"; simp only: ResolveTarget_def check_resolved_def)
      (simp_all add: Let_def)
qed

lemma ResolveTarget_Inr_guards:
  "ResolveTarget p q prev = Inr r \<Longrightarrow> DesiredBanProjection_Validate p = None \<and> policy_ok q
     \<and> (\<forall>i. prev = Some i \<longrightarrow> NormalizedTargetEnforcementIntent_Validate i = None
            \<and> int_NodeID i = proj_NodeID p \<and> int_CanonicalTarget i = proj_CanonicalTarget p)"
  unfolding policy_guards
  by (auto simp: ResolveTarget_def Let_def split: option.splits if_splits)

text \<open>
  Claim C5. On a successful resolution the intent is valid and describes the projection; without a
  previous intent the generation is 1 and the change is reported; with one, the generation is kept
  exactly when the new intent is equivalent to it and otherwise is the next one, never wrapping.
\<close>

theorem ResolveTarget_generation:
  assumes "ResolveTarget projection policy previous = Inr (intent, changed)"
  shows "NormalizedTargetEnforcementIntent_Validate intent = None
     \<and> Equivalent intent (assemble_intent projection policy 1)
     \<and> (case previous of
          None \<Rightarrow> changed \<and> int_Generation intent = 1
        | Some prev \<Rightarrow> (changed \<longleftrightarrow> \<not> Equivalent prev intent)
            \<and> (\<not> changed \<longrightarrow> intent = prev)
            \<and> (changed \<longrightarrow> unat (int_Generation intent) = Suc (unat (int_Generation prev))))"
proof -
  note g = ResolveTarget_Inr_guards [OF assms]
  then have ok: "DesiredBanProjection_Validate projection = None" "policy_ok policy" by blast+
  show ?thesis
  proof (cases previous)
    case None
    then show ?thesis
      using assms ResolveTarget_eq(1) [OF ok] assemble_valid [OF ok, of 1] by auto
  next
    case (Some prev)
    with g have prev: "NormalizedTargetEnforcementIntent_Validate prev = None"
      "int_NodeID prev = proj_NodeID projection" "int_CanonicalTarget prev = proj_CanonicalTarget projection"
      by blast+
    have same: "Equivalent prev (assemble_intent projection policy h)
        \<longleftrightarrow> Equivalent prev (assemble_intent projection policy 1)" for h
      by (simp add: Equivalent_def assemble_intent_def Let_def)
    show ?thesis
    proof (cases "Equivalent prev (assemble_intent projection policy 1)")
      case True
      then show ?thesis using assms ResolveTarget_eq(2) [OF ok prev] Some prev(1) by simp
    next
      case False
      then have r: "int_Generation prev \<noteq> MaxUint64" "changed"
        "intent = assemble_intent projection policy (int_Generation prev + 1)"
        using assms ResolveTarget_eq(2) [OF ok prev] Some by (simp_all split: if_splits)
      then show ?thesis
        using Some False same [of "int_Generation prev + 1"] assemble_valid [OF ok u64_not_max_inc [OF r(1)]]
        by (simp add: unat_inc MaxUint64_def)
    qed
  qed
qed

definition sample_projection :: DesiredBanProjection where
  "sample_projection =
     \<lparr> proj_NodeID = replicate 32 CHR ''0'', proj_CanonicalTarget = PrefixFrom (Addr4 0x0A000000) 8,
       proj_State = BanProjectionPresent, proj_ActiveCount = 1, proj_EffectiveUntil = Some 90,
       proj_Revision = 1 \<rparr>"

definition sample_policy :: "PolicyCoverage \<Rightarrow> TargetPolicy" where
  "sample_policy c = \<lparr> tp_Coverage = c, tp_RelationDigest = ''d'', tp_Scopes = 3,
     tp_NativeTimeoutSupported = True, tp_BackendAttributesDigest = ''b'' \<rparr>"

theorem ResolveTarget_generation_witness:
  "unat (int_Generation (assemble_intent sample_projection (sample_policy PolicyCoverageFull) 5)) = Suc (unat (4 :: u64))
   \<and> NormalizedTargetEnforcementIntent_Validate
       (assemble_intent sample_projection (sample_policy PolicyCoverageFull) 5) = None"
proof -
  let ?prev = "assemble_intent sample_projection (sample_policy PolicyCoverageNone) 4"
    and ?new = "assemble_intent sample_projection (sample_policy PolicyCoverageFull) 5"
  have "ResolveTarget sample_projection (sample_policy PolicyCoverageFull) (Some ?prev) = Inr (?new, True)"
    by code_simp
  from ResolveTarget_generation [OF this] show ?thesis by simp
qed

text \<open>
  Claim C6. A native timeout is installed only for a finite ban on a backend that supports it, and
  then it outlasts the expiry of the decisions by exactly the safety grace of five minutes; the
  decision-owned expiry itself is not changed.
\<close>

theorem NativeExpiryForIntent_grace:
  assumes "ResolveTarget projection policy previous = Inr (intent, changed)"
  shows "NativeExpiryForIntent intent =
           (case proj_EffectiveUntil projection of
              Some t \<Rightarrow> if tp_NativeTimeoutSupported policy then Some (t + 300000000000) else None
            | None \<Rightarrow> None)
     \<and> int_EffectiveUntil intent = proj_EffectiveUntil projection"
proof -
  have g: "DesiredBanProjection_Validate projection = None" "policy_ok policy"
    "\<And>i. previous = Some i \<Longrightarrow> NormalizedTargetEnforcementIntent_Validate i = None
            \<and> int_NodeID i = proj_NodeID projection \<and> int_CanonicalTarget i = proj_CanonicalTarget projection"
    using ResolveTarget_Inr_guards [OF assms] by blast+
  have "Equivalent intent (assemble_intent projection policy 1)"
  proof (cases previous)
    case None
    then show ?thesis using assms ResolveTarget_eq(1) [OF g(1,2)] by simp
  next
    case (Some prev)
    then show ?thesis
      using assms ResolveTarget_eq(2) [OF g(1,2), of prev] g(3) [OF Some] by (auto split: if_splits)
  qed
  then show ?thesis
    using g(1)
    by (auto simp: Equivalent_def assemble_intent_def Let_def NativeExpiryForIntent_def M0SafetyGrace_def
        Minute_def Second_def DesiredBanProjection_Validate_None_iff split: option.splits if_splits)
qed

theorem NativeExpiryForIntent_grace_witness:
  "NativeExpiryForIntent (assemble_intent sample_projection (sample_policy PolicyCoverageNone) 1)
     = Some (90 + 300000000000)"
proof -
  let ?new = "assemble_intent sample_projection (sample_policy PolicyCoverageNone) 1"
  have "ResolveTarget sample_projection (sample_policy PolicyCoverageNone) None = Inr (?new, True)"
    by code_simp
  from NativeExpiryForIntent_grace [OF this] show ?thesis
    by (simp add: sample_projection_def sample_policy_def)
qed

end
