(* ===== verification/Detection_Ledger.thy ===== *)
theory Detection_Ledger
  imports Identity "HOL-Library.AList" "HOL-Library.Product_Lexorder"
begin

text \<open>
  \<^verbatim>\<open>internal/detection/window.go\<close>: the in-memory membership ledger of detection. A call of
  \<^verbatim>\<open>PrepareBatch\<close> takes the guards of its windows one by one in canonical order, stages new
  memberships and returns previews; \<^verbatim>\<open>Confirm\<close> makes them visible, \<^verbatim>\<open>Abort\<close> drops them. Calls of
  several goroutines interleave: each critical section under \<^verbatim>\<open>l.mu\<close> and each receive from a
  guard channel is one step, and a call is named by a number. A guard is \<^term>\<open>None\<close> while its token
  is in the channel and \<^term>\<open>Some n\<close> while call \<open>n\<close> has taken it. \<^verbatim>\<open>Confirm\<close> and \<^verbatim>\<open>Abort\<close> give their
  guards back right after \<^verbatim>\<open>l.mu\<close> is released; the model gives them back in the same step.
\<close>

section \<open>Data\<close>

record ContributionKey =
  ck_EventID :: string
  ck_RuleID :: string
  ck_RuleVersion :: string

record WindowKey =
  wk_RuleID :: string
  wk_RuleVersion :: string
  wk_GroupKey :: string

record Candidate =
  cd_DeliveryID :: string
  cd_Key :: ContributionKey
  cd_Window :: WindowKey
  cd_DistinctKey :: string
  cd_ObservedAt :: time

record Snapshot =
  sn_Count :: u64
  sn_DistinctCount :: u64

record Preview =
  pv_Candidate :: Candidate
  pv_Snapshot :: Snapshot
  pv_WillContribute :: bool

text \<open>The committed tallies of a window; \<^verbatim>\<open>projectedState\<close> has the same two fields.\<close>

record windowTally =
  wt_count :: u64
  wt_distinct :: "(string \<times> u64) list"

record windowSlot =
  ws_guard :: "nat option"
  ws_tally :: windowTally

record memberRecord =
  mb_window :: WindowKey
  mb_distinctKey :: string
  mb_observedAt :: time

datatype phase = Locking | Reserved | Finished

record Reservation =
  rv_deliveryID :: string
  rv_batch :: "Candidate list"
  rv_wait :: "WindowKey list"
  rv_locked :: "WindowKey list"
  rv_candidates :: "Candidate list"
  rv_phase :: phase

record Ledger =
  lg_windows :: "WindowKey \<rightharpoonup> windowSlot"
  lg_memberships :: "ContributionKey \<rightharpoonup> memberRecord"
  lg_claims :: "ContributionKey \<rightharpoonup> nat"
  lg_pending :: "string \<rightharpoonup> nat"
  lg_calls :: "nat \<rightharpoonup> Reservation"

datatype ledger_error =
    LedgerDeliveryIDInvalid
  | CandidateOtherDelivery
  | CandidateEventIDInvalid
  | WindowRuleIDInvalid
  | WindowRuleVersionInvalid
  | WindowGroupKeyInvalid
  | CandidateRuleDiffers
  | CandidateDistinctKeyInvalid
  | CandidateObservedTimeRequired
  | InconsistentCandidates string
  | MemberMapsElsewhere string
  | MemberReservedElsewhere string

definition NewLedger :: Ledger where
  "NewLedger = \<lparr> lg_windows = Map.empty, lg_memberships = Map.empty, lg_claims = Map.empty,
                 lg_pending = Map.empty, lg_calls = Map.empty \<rparr>"

section \<open>Validation and ordering\<close>

definition validateWindowKey :: "WindowKey \<Rightarrow> ledger_error option" where
  "validateWindowKey key =
     (if wk_RuleID key = [] \<or> \<not> ValidString (wk_RuleID key) then Some WindowRuleIDInvalid
      else if wk_RuleVersion key = [] \<or> \<not> ValidString (wk_RuleVersion key) then Some WindowRuleVersionInvalid
      else if wk_GroupKey key = [] \<or> \<not> ValidString (wk_GroupKey key) then Some WindowGroupKeyInvalid
      else None)"

definition validateCandidate :: "string \<Rightarrow> Candidate \<Rightarrow> ledger_error option" where
  "validateCandidate deliveryID c =
     (if cd_DeliveryID c \<noteq> deliveryID then Some CandidateOtherDelivery
      else if \<not> ValidEventID (ck_EventID (cd_Key c)) then Some CandidateEventIDInvalid
      else (case validateWindowKey (cd_Window c) of
         Some e \<Rightarrow> Some e
       | None \<Rightarrow>
         if ck_RuleID (cd_Key c) \<noteq> wk_RuleID (cd_Window c)
            \<or> ck_RuleVersion (cd_Key c) \<noteq> wk_RuleVersion (cd_Window c)
         then Some CandidateRuleDiffers
         else if cd_DistinctKey c = [] \<or> \<not> ValidString (cd_DistinctKey c)
         then Some CandidateDistinctKeyInvalid
         else if IsZero (cd_ObservedAt c) then Some CandidateObservedTimeRequired
         else None))"

definition window_order :: "WindowKey \<Rightarrow> string \<times> string \<times> string" where
  "window_order k = (wk_RuleID k, wk_RuleVersion k, wk_GroupKey k)"

definition uniqueSortedWindowKeys :: "Candidate list \<Rightarrow> WindowKey list" where
  "uniqueSortedWindowKeys candidates = sort_key window_order (remdups (map cd_Window candidates))"

definition sameCandidateMapping :: "Candidate \<Rightarrow> Candidate \<Rightarrow> bool" where
  "sameCandidateMapping left right \<longleftrightarrow>
     cd_Window left = cd_Window right \<and> cd_DistinctKey left = cd_DistinctKey right
     \<and> cd_ObservedAt left = cd_ObservedAt right"

definition sameMemberMapping :: "memberRecord \<Rightarrow> Candidate \<Rightarrow> bool" where
  "sameMemberMapping m c \<longleftrightarrow>
     mb_window m = cd_Window c \<and> mb_distinctKey m = cd_DistinctKey c \<and> mb_observedAt m = cd_ObservedAt c"

definition snapshotOf :: "windowTally \<Rightarrow> Snapshot" where
  "snapshotOf t = \<lparr> sn_Count = wt_count t, sn_DistinctCount = of_nat (length (wt_distinct t)) \<rparr>"

section \<open>Windows and guards\<close>

definition empty_tally :: windowTally where
  "empty_tally = \<lparr> wt_count = 0, wt_distinct = [] \<rparr>"

definition tally_of :: "Ledger \<Rightarrow> WindowKey \<Rightarrow> windowTally" where
  "tally_of l k = (case lg_windows l k of None \<Rightarrow> empty_tally | Some s \<Rightarrow> ws_tally s)"

definition guard_of :: "Ledger \<Rightarrow> WindowKey \<Rightarrow> nat option" where
  "guard_of l k = (case lg_windows l k of None \<Rightarrow> None | Some s \<Rightarrow> ws_guard s)"

text \<open>\<^verbatim>\<open>window(key)\<close> creates a missing slot with its token in the channel.\<close>

definition window_slot :: "Ledger \<Rightarrow> WindowKey \<Rightarrow> windowSlot" where
  "window_slot l k =
     (case lg_windows l k of Some s \<Rightarrow> s | None \<Rightarrow> \<lparr> ws_guard = None, ws_tally = empty_tally \<rparr>)"

definition set_guard :: "nat option \<Rightarrow> WindowKey \<Rightarrow> Ledger \<Rightarrow> Ledger" where
  "set_guard g k l = l\<lparr>lg_windows := (lg_windows l)(k \<mapsto> (window_slot l k)\<lparr>ws_guard := g\<rparr>)\<rparr>"

definition releaseSlots :: "WindowKey list \<Rightarrow> Ledger \<Rightarrow> Ledger" where
  "releaseSlots ks l = fold (set_guard None) (rev ks) l"

definition bump :: "string \<Rightarrow> windowTally \<Rightarrow> windowTally" where
  "bump dk t = t\<lparr>wt_count := wt_count t + 1,
     wt_distinct := AList.update dk (case map_of (wt_distinct t) dk of None \<Rightarrow> 1 | Some n \<Rightarrow> n + 1) (wt_distinct t)\<rparr>"

definition put_call :: "nat \<Rightarrow> Reservation \<Rightarrow> Ledger \<Rightarrow> Ledger" where
  "put_call n c l = l\<lparr>lg_calls := (lg_calls l)(n \<mapsto> c)\<rparr>"

section \<open>PrepareBatch\<close>

fun prepare_check ::
  "Ledger \<Rightarrow> nat \<Rightarrow> (ContributionKey \<rightharpoonup> Candidate) \<Rightarrow> Candidate list \<Rightarrow> ledger_error option" where
  "prepare_check l r seen [] = None"
| "prepare_check l r seen (c # cs) =
     (case seen (cd_Key c) of
        Some prior \<Rightarrow>
          if \<not> sameCandidateMapping prior c then Some (InconsistentCandidates (ck_EventID (cd_Key c)))
          else prepare_check l r seen cs
      | None \<Rightarrow>
          (let seen' = seen(cd_Key c \<mapsto> c) in
           case lg_memberships l (cd_Key c) of
             Some m \<Rightarrow>
               if \<not> sameMemberMapping m c then Some (MemberMapsElsewhere (ck_EventID (cd_Key c)))
               else prepare_check l r seen' cs
           | None \<Rightarrow>
               (case lg_claims l (cd_Key c) of
                  Some owner \<Rightarrow>
                    if owner \<noteq> r then Some (MemberReservedElsewhere (ck_EventID (cd_Key c)))
                    else prepare_check l r seen' cs
                | None \<Rightarrow> prepare_check l r seen' cs)))"

text \<open>
  The staging loop: the projected tallies of the windows touched so far, the keys seen, and the
  previews and staged candidates in order.
\<close>

fun prepare_loop ::
  "Ledger \<Rightarrow> (WindowKey \<rightharpoonup> windowTally) \<Rightarrow> ContributionKey list \<Rightarrow> Candidate list
     \<Rightarrow> Preview list \<times> Candidate list \<times> (WindowKey \<rightharpoonup> windowTally)" where
  "prepare_loop l projected seen [] = ([], [], projected)"
| "prepare_loop l projected seen (c # cs) =
     (let state = (case projected (cd_Window c) of Some t \<Rightarrow> t | None \<Rightarrow> tally_of l (cd_Window c));
          new = (cd_Key c \<notin> set seen \<and> lg_memberships l (cd_Key c) = None);
          state' = (if new then bump (cd_DistinctKey c) state else state);
          (previews, staged, final) =
            prepare_loop l (projected(cd_Window c \<mapsto> state')) (cd_Key c # seen) cs
      in (\<lparr> pv_Candidate = c, pv_Snapshot = snapshotOf state', pv_WillContribute = new \<rparr> # previews,
          if new then c # staged else staged, final))"

definition prepareLocked ::
  "Ledger \<Rightarrow> nat \<Rightarrow> Candidate list \<Rightarrow> ledger_error + (Ledger \<times> Preview list \<times> Candidate list)" where
  "prepareLocked l r candidates =
     (case prepare_check l r Map.empty candidates of
        Some e \<Rightarrow> Inl e
      | None \<Rightarrow>
        (let (previews, staged, _) = prepare_loop l Map.empty [] candidates
         in Inr (l\<lparr>lg_claims := fold (\<lambda>c m. m(cd_Key c \<mapsto> r)) staged (lg_claims l)\<rparr>, previews, staged)))"

text \<open>The four steps of one call: validation, one guard, cancellation, and the locked section.\<close>

definition begin_batch :: "Ledger \<Rightarrow> nat \<Rightarrow> string \<Rightarrow> Candidate list \<Rightarrow> ledger_error + Ledger" where
  "begin_batch l n deliveryID candidates =
     (if \<not> ValidDeliveryID deliveryID then Inl LedgerDeliveryIDInvalid
      else case first_err (validateCandidate deliveryID) candidates of
        Some e \<Rightarrow> Inl e
      | None \<Rightarrow> Inr (put_call n
          \<lparr> rv_deliveryID = deliveryID, rv_batch = candidates,
            rv_wait = uniqueSortedWindowKeys candidates, rv_locked = [], rv_candidates = [],
            rv_phase = Locking \<rparr> l))"

definition lock_next :: "Ledger \<Rightarrow> nat \<Rightarrow> Ledger option" where
  "lock_next l n =
     (case lg_calls l n of
        Some c \<Rightarrow>
          (case (rv_phase c, rv_wait c) of
             (Locking, k # ks) \<Rightarrow>
               if guard_of l k = None
               then Some (put_call n (c\<lparr>rv_wait := ks, rv_locked := rv_locked c @ [k]\<rparr>) (set_guard (Some n) k l))
               else None
           | _ \<Rightarrow> None)
      | None \<Rightarrow> None)"

definition finish_call :: "nat \<Rightarrow> Reservation \<Rightarrow> Ledger \<Rightarrow> Ledger" where
  "finish_call n c l = put_call n (c\<lparr>rv_phase := Finished\<rparr>) (releaseSlots (rv_locked c) l)"

definition cancel_batch :: "Ledger \<Rightarrow> nat \<Rightarrow> Ledger option" where
  "cancel_batch l n =
     (case lg_calls l n of
        Some c \<Rightarrow> if rv_phase c = Locking then Some (finish_call n c l) else None
      | None \<Rightarrow> None)"

definition prepare_batch :: "Ledger \<Rightarrow> nat \<Rightarrow> (Ledger \<times> (ledger_error + Preview list)) option" where
  "prepare_batch l n =
     (case lg_calls l n of
        Some c \<Rightarrow>
          if rv_phase c = Locking \<and> rv_wait c = [] then
            Some (case prepareLocked l n (rv_batch c) of
                    Inl e \<Rightarrow> (finish_call n c l, Inl e)
                  | Inr (l', previews, staged) \<Rightarrow>
                      (put_call n (c\<lparr>rv_candidates := staged, rv_phase := Reserved\<rparr>) l', Inr previews))
          else None
      | None \<Rightarrow> None)"

section \<open>Confirm, Abort and deferred resolution\<close>

definition confirm_one :: "Candidate \<Rightarrow> Ledger \<Rightarrow> Ledger" where
  "confirm_one c l = l
     \<lparr>lg_windows := (lg_windows l)(cd_Window c \<mapsto>
        (window_slot l (cd_Window c))\<lparr>ws_tally := bump (cd_DistinctKey c) (tally_of l (cd_Window c))\<rparr>),
      lg_memberships := (lg_memberships l)(cd_Key c \<mapsto>
        \<lparr> mb_window = cd_Window c, mb_distinctKey = cd_DistinctKey c, mb_observedAt = cd_ObservedAt c \<rparr>),
      lg_claims := (lg_claims l)(cd_Key c := None)\<rparr>"

definition drop_pending :: "nat \<Rightarrow> string \<Rightarrow> Ledger \<Rightarrow> Ledger" where
  "drop_pending n d l = (if lg_pending l d = Some n then l\<lparr>lg_pending := (lg_pending l)(d := None)\<rparr> else l)"

definition Confirm :: "Ledger \<Rightarrow> nat \<Rightarrow> Ledger" where
  "Confirm l n =
     (case lg_calls l n of
        Some c \<Rightarrow>
          if rv_phase c = Reserved
          then finish_call n c (drop_pending n (rv_deliveryID c) (fold confirm_one (rv_candidates c) l))
          else l
      | None \<Rightarrow> l)"

definition abort_one :: "nat \<Rightarrow> Candidate \<Rightarrow> Ledger \<Rightarrow> Ledger" where
  "abort_one n c l =
     (if lg_claims l (cd_Key c) = Some n then l\<lparr>lg_claims := (lg_claims l)(cd_Key c := None)\<rparr> else l)"

definition Abort :: "Ledger \<Rightarrow> nat \<Rightarrow> Ledger" where
  "Abort l n =
     (case lg_calls l n of
        Some c \<Rightarrow>
          if rv_phase c = Reserved
          then finish_call n c (drop_pending n (rv_deliveryID c) (fold (abort_one n) (rv_candidates c) l))
          else l
      | None \<Rightarrow> l)"

definition DeferResolution :: "Ledger \<Rightarrow> nat \<Rightarrow> Ledger" where
  "DeferResolution l n =
     (case lg_calls l n of
        Some c \<Rightarrow>
          if rv_phase c \<noteq> Locking \<and> (lg_pending l (rv_deliveryID c) = None \<or> lg_pending l (rv_deliveryID c) = Some n)
          then l\<lparr>lg_pending := (lg_pending l)(rv_deliveryID c \<mapsto> n)\<rparr> else l
      | None \<Rightarrow> l)"

definition ResolveDeferred :: "Ledger \<Rightarrow> string \<Rightarrow> bool \<Rightarrow> Ledger \<times> bool" where
  "ResolveDeferred l deliveryID committed =
     (case lg_pending l deliveryID of
        None \<Rightarrow> (l, False)
      | Some n \<Rightarrow> (if committed then Confirm l n else Abort l n, True))"

text \<open>A read of the committed state waits while a call holds the guard: it is \<^term>\<open>None\<close> then.\<close>

definition Snapshot_read :: "Ledger \<Rightarrow> WindowKey \<Rightarrow> (ledger_error + Snapshot) option" where
  "Snapshot_read l key =
     (case validateWindowKey key of
        Some e \<Rightarrow> Some (Inl e)
      | None \<Rightarrow> if guard_of l key = None then Some (Inr (snapshotOf (tally_of l key))) else None)"

section \<open>Steps\<close>

inductive ledger_step :: "Ledger \<Rightarrow> Ledger \<Rightarrow> bool" where
  start: "lg_calls l n = None \<Longrightarrow> begin_batch l n d cs = Inr l' \<Longrightarrow> ledger_step l l'"
| lock: "lock_next l n = Some l' \<Longrightarrow> ledger_step l l'"
| cancel: "cancel_batch l n = Some l' \<Longrightarrow> ledger_step l l'"
| prepare: "prepare_batch l n = Some (l', r) \<Longrightarrow> ledger_step l l'"
| confirm: "ledger_step l (Confirm l n)"
| abort: "ledger_step l (Abort l n)"
| defer_resolution: "ledger_step l (DeferResolution l n)"
| resolve: "ledger_step l (fst (ResolveDeferred l d b))"

inductive ledger_reachable :: "Ledger \<Rightarrow> bool" where
  new: "ledger_reachable NewLedger"
| step: "ledger_reachable l \<Longrightarrow> ledger_step l l' \<Longrightarrow> ledger_reachable l'"

section \<open>How each primitive changes the observable parts\<close>

lemma set_guard_simps [simp]:
  "guard_of (set_guard g k l) k' = (if k' = k then g else guard_of l k')"
  "tally_of (set_guard g k l) = tally_of l"
  "lg_memberships (set_guard g k l) = lg_memberships l" "lg_claims (set_guard g k l) = lg_claims l"
  "lg_calls (set_guard g k l) = lg_calls l" "lg_pending (set_guard g k l) = lg_pending l"
  by (auto simp: set_guard_def guard_of_def tally_of_def window_slot_def fun_eq_iff split: option.splits)

lemma releaseSlots_simps [simp]:
  "guard_of (releaseSlots ks l) k = (if k \<in> set ks then None else guard_of l k)"
  "tally_of (releaseSlots ks l) = tally_of l"
  "lg_memberships (releaseSlots ks l) = lg_memberships l" "lg_claims (releaseSlots ks l) = lg_claims l"
  "lg_calls (releaseSlots ks l) = lg_calls l" "lg_pending (releaseSlots ks l) = lg_pending l"
proof -
  have "guard_of (fold (set_guard None) xs l) k = (if k \<in> set xs then None else guard_of l k)
      \<and> tally_of (fold (set_guard None) xs l) = tally_of l
      \<and> lg_memberships (fold (set_guard None) xs l) = lg_memberships l
      \<and> lg_claims (fold (set_guard None) xs l) = lg_claims l
      \<and> lg_calls (fold (set_guard None) xs l) = lg_calls l
      \<and> lg_pending (fold (set_guard None) xs l) = lg_pending l" for xs
    by (induction xs arbitrary: l) auto
  from this [of "rev ks"] show
    "guard_of (releaseSlots ks l) k = (if k \<in> set ks then None else guard_of l k)"
    "tally_of (releaseSlots ks l) = tally_of l"
    "lg_memberships (releaseSlots ks l) = lg_memberships l" "lg_claims (releaseSlots ks l) = lg_claims l"
    "lg_calls (releaseSlots ks l) = lg_calls l" "lg_pending (releaseSlots ks l) = lg_pending l"
    by (simp_all add: releaseSlots_def)
qed

lemma put_call_simps [simp]:
  "guard_of (put_call n c l) = guard_of l" "tally_of (put_call n c l) = tally_of l"
  "lg_memberships (put_call n c l) = lg_memberships l" "lg_claims (put_call n c l) = lg_claims l"
  "lg_calls (put_call n c l) = (lg_calls l)(n \<mapsto> c)" "lg_pending (put_call n c l) = lg_pending l"
  by (simp_all add: put_call_def guard_of_def tally_of_def fun_eq_iff)

lemma ledger_updates [simp]:
  "guard_of (l\<lparr>lg_claims := m\<rparr>) = guard_of l" "tally_of (l\<lparr>lg_claims := m\<rparr>) = tally_of l"
  "guard_of (l\<lparr>lg_pending := q\<rparr>) = guard_of l" "tally_of (l\<lparr>lg_pending := q\<rparr>) = tally_of l"
  by (simp_all add: guard_of_def tally_of_def fun_eq_iff)

lemma drop_pending_simps [simp]:
  "guard_of (drop_pending n d l) = guard_of l" "tally_of (drop_pending n d l) = tally_of l"
  "lg_memberships (drop_pending n d l) = lg_memberships l" "lg_claims (drop_pending n d l) = lg_claims l"
  "lg_calls (drop_pending n d l) = lg_calls l"
  by (simp_all add: drop_pending_def)

lemma confirm_one_simps [simp]:
  "guard_of (confirm_one c l) = guard_of l"
  "tally_of (confirm_one c l) = (tally_of l)(cd_Window c := bump (cd_DistinctKey c) (tally_of l (cd_Window c)))"
  "lg_calls (confirm_one c l) = lg_calls l" "lg_pending (confirm_one c l) = lg_pending l"
  by (auto simp: confirm_one_def guard_of_def tally_of_def window_slot_def fun_eq_iff split: option.splits)

lemma fold_confirm_simps [simp]:
  "guard_of (fold confirm_one cs l) = guard_of l" "lg_calls (fold confirm_one cs l) = lg_calls l"
  by (induction cs arbitrary: l) auto

lemma fold_confirm_claims:
  "lg_claims (fold confirm_one cs l) k = (if k \<in> cd_Key ` set cs then None else lg_claims l k)"
  by (induction cs arbitrary: l) (auto simp: confirm_one_def)

lemma fold_confirm_members:
  "k \<notin> cd_Key ` set cs \<Longrightarrow> lg_memberships (fold confirm_one cs l) k = lg_memberships l k"
  by (induction cs arbitrary: l) (auto simp: confirm_one_def)

lemma fold_abort_simps [simp]:
  "guard_of (fold (abort_one n) cs l) = guard_of l" "lg_calls (fold (abort_one n) cs l) = lg_calls l"
  "tally_of (fold (abort_one n) cs l) = tally_of l"
  "lg_memberships (fold (abort_one n) cs l) = lg_memberships l"
  by (induction cs arbitrary: l) (auto simp: abort_one_def)

lemma fold_abort_claims:
  "lg_claims (fold (abort_one n) cs l) k =
     (if k \<in> cd_Key ` set cs \<and> lg_claims l k = Some n then None else lg_claims l k)"
  by (induction cs arbitrary: l) (auto simp: abort_one_def)

section \<open>Tallies count memberships\<close>

definition members :: "(ContributionKey \<rightharpoonup> memberRecord) \<Rightarrow> WindowKey \<Rightarrow> ContributionKey set" where
  "members M k = {x. \<exists>m. M x = Some m \<and> mb_window m = k}"

definition members_at :: "(ContributionKey \<rightharpoonup> memberRecord) \<Rightarrow> WindowKey \<Rightarrow> string \<Rightarrow> ContributionKey set" where
  "members_at M k dk = {x. \<exists>m. M x = Some m \<and> mb_window m = k \<and> mb_distinctKey m = dk}"

definition tally_ok :: "(ContributionKey \<rightharpoonup> memberRecord) \<Rightarrow> WindowKey \<Rightarrow> windowTally \<Rightarrow> bool" where
  "tally_ok M k t \<longleftrightarrow>
     wt_count t = of_nat (card (members M k)) \<and> distinct (map fst (wt_distinct t))
     \<and> (\<forall>dk. map_of (wt_distinct t) dk =
             (if members_at M k dk = {} then None else Some (of_nat (card (members_at M k dk)))))"

lemma members_finite: "finite (dom M) \<Longrightarrow> finite (members M k)" "finite (dom M) \<Longrightarrow> finite (members_at M k dk)"
  by (auto simp: members_def members_at_def dom_def elim!: rev_finite_subset)

lemma members_insert:
  assumes "M x = None"
  shows "members (M(x \<mapsto> m)) k = (if mb_window m = k then insert x (members M k) else members M k)"
    and "members_at (M(x \<mapsto> m)) k dk =
      (if mb_window m = k \<and> mb_distinctKey m = dk then insert x (members_at M k dk) else members_at M k dk)"
    and "x \<notin> members M k" "x \<notin> members_at M k dk"
  using assms by (auto simp: members_def members_at_def)

lemma tally_ok_bump:
  assumes "tally_ok M k t" and "M x = None" and "finite (dom M)" and "mb_window m = k"
  shows "tally_ok (M(x \<mapsto> m)) k (bump (mb_distinctKey m) t)"
proof -
  note f = members_finite [OF assms(3)]
  have "wt_count (bump (mb_distinctKey m) t) = of_nat (card (members (M(x \<mapsto> m)) k))"
    using assms(1,4) f by (simp add: tally_ok_def bump_def members_insert [of M x, OF assms(2)])
  moreover have "distinct (map fst (wt_distinct (bump (mb_distinctKey m) t)))"
    using assms(1) by (simp add: tally_ok_def bump_def distinct_update)
  moreover have "map_of (wt_distinct (bump (mb_distinctKey m) t)) dk =
      (if members_at (M(x \<mapsto> m)) k dk = {} then None else Some (of_nat (card (members_at (M(x \<mapsto> m)) k dk))))" for dk
    using assms(1,4) f by (simp add: tally_ok_def bump_def update_conv members_insert [of M x, OF assms(2)])
  ultimately show ?thesis unfolding tally_ok_def by blast
qed

lemma tally_ok_other:
  "tally_ok M k t \<Longrightarrow> M x = None \<Longrightarrow> mb_window m \<noteq> k \<Longrightarrow> tally_ok (M(x \<mapsto> m)) k t"
  by (simp add: tally_ok_def members_insert)

definition tallies_ok :: "Ledger \<Rightarrow> bool" where
  "tallies_ok l \<longleftrightarrow> finite (dom (lg_memberships l)) \<and> (\<forall>k. tally_ok (lg_memberships l) k (tally_of l k))"

lemma confirm_one_tallies:
  assumes "tallies_ok l" and "lg_memberships l (cd_Key c) = None"
  shows "tallies_ok (confirm_one c l)"
proof -
  let ?m = "\<lparr> mb_window = cd_Window c, mb_distinctKey = cd_DistinctKey c, mb_observedAt = cd_ObservedAt c \<rparr>"
  have m: "lg_memberships (confirm_one c l) = (lg_memberships l)(cd_Key c \<mapsto> ?m)" by (simp add: confirm_one_def)
  have "tally_ok ((lg_memberships l)(cd_Key c \<mapsto> ?m)) k (tally_of (confirm_one c l) k)" for k
    using assms tally_ok_bump [of "lg_memberships l" k "tally_of l k" "cd_Key c" ?m]
      tally_ok_other [of "lg_memberships l" k "tally_of l k" "cd_Key c" ?m]
    by (auto simp: tallies_ok_def)
  then show ?thesis using assms(1) by (simp add: tallies_ok_def m)
qed

lemma fold_confirm_tallies:
  assumes "tallies_ok l" and "distinct (map cd_Key cs)" and "\<forall>c\<in>set cs. lg_memberships l (cd_Key c) = None"
  shows "tallies_ok (fold confirm_one cs l)"
  using assms
proof (induction cs arbitrary: l)
  case (Cons c cs)
  have "\<forall>x\<in>set cs. lg_memberships (confirm_one c l) (cd_Key x) = None"
    using Cons.prems(2,3) by (auto simp: confirm_one_def image_iff)
  then show ?case using Cons confirm_one_tallies by simp
qed simp

section \<open>What a batch stages\<close>

lemma prepare_check_owner:
  assumes "prepare_check l r seen cs = None" and "c \<in> set cs" and "seen (cd_Key c) = None"
    and "lg_memberships l (cd_Key c) = None"
  shows "lg_claims l (cd_Key c) = None \<or> lg_claims l (cd_Key c) = Some r"
  using assms
proof (induction cs arbitrary: seen)
  case (Cons d cs)
  show ?case
  proof (cases "cd_Key d = cd_Key c")
    case True
    then show ?thesis using Cons.prems by (auto simp: Let_def split: option.splits if_splits)
  next
    case False
    then have c: "c \<in> set cs" using Cons.prems(2) by auto
    have "prepare_check l r seen cs = None \<or> prepare_check l r (seen(cd_Key d \<mapsto> d)) cs = None"
      using Cons.prems(1) by (auto simp: Let_def split: option.splits if_splits)
    then show ?thesis using Cons.IH [OF _ c _ Cons.prems(4)] Cons.prems(3) False by auto
  qed
qed simp

lemma prepare_loop_staged:
  assumes "prepare_loop l pr seen cs = (ps, st, fin)"
  shows "set st \<subseteq> set cs \<and> distinct (map cd_Key st)
     \<and> (\<forall>c\<in>set st. lg_memberships l (cd_Key c) = None \<and> cd_Key c \<notin> set seen)"
  using assms
proof (induction l pr seen cs arbitrary: ps st fin rule: prepare_loop.induct)
  case (2 l pr seen c cs)
  let ?state = "case pr (cd_Window c) of Some t \<Rightarrow> t | None \<Rightarrow> tally_of l (cd_Window c)"
  let ?new = "cd_Key c \<notin> set seen \<and> lg_memberships l (cd_Key c) = None"
  let ?state' = "if ?new then bump (cd_DistinctKey c) ?state else ?state"
  obtain ps' st' fin' where rec: "prepare_loop l (pr(cd_Window c \<mapsto> ?state')) (cd_Key c # seen) cs = (ps', st', fin')"
    by (metis prod_cases3)
  note ih = "2.IH" [OF refl refl refl rec]
  have st: "st = (if ?new then c # st' else st')"
    using "2.prems" rec by (simp add: Let_def split: prod.splits)
  from ih show ?case unfolding st by auto
qed auto

lemma claims_fold:
  "fold (\<lambda>c m. m(cd_Key c \<mapsto> r)) st M k = (if k \<in> cd_Key ` set st then Some r else M k)"
  by (induction st arbitrary: M) auto

text \<open>Canonical order and uniqueness of the guards a batch takes.\<close>

lemma window_order_inj: "inj_on window_order A"
  by (rule inj_onI) (auto simp: window_order_def intro!: WindowKey.equality)

lemma uniqueSortedWindowKeys_facts:
  "set (uniqueSortedWindowKeys cs) = cd_Window ` set cs" "distinct (uniqueSortedWindowKeys cs)"
  "sorted (map window_order (uniqueSortedWindowKeys cs))"
  by (simp_all add: uniqueSortedWindowKeys_def)

section \<open>The invariant of the ledger\<close>

definition guards_ok :: "Ledger \<Rightarrow> bool" where
  "guards_ok l \<longleftrightarrow> (\<forall>k n. guard_of l k = Some n \<longleftrightarrow>
     (\<exists>c. lg_calls l n = Some c \<and> rv_phase c \<noteq> Finished \<and> k \<in> set (rv_locked c)))"

definition call_ok :: "Ledger \<Rightarrow> nat \<Rightarrow> Reservation \<Rightarrow> bool" where
  "call_ok l n c \<longleftrightarrow>
     (rv_phase c \<noteq> Finished \<longrightarrow> rv_locked c @ rv_wait c = uniqueSortedWindowKeys (rv_batch c))
     \<and> (rv_phase c = Reserved \<longrightarrow>
          rv_wait c = [] \<and> set (rv_candidates c) \<subseteq> set (rv_batch c) \<and> distinct (map cd_Key (rv_candidates c))
          \<and> (\<forall>x\<in>set (rv_candidates c). lg_claims l (cd_Key x) = Some n \<and> lg_memberships l (cd_Key x) = None))"

definition claims_ok :: "Ledger \<Rightarrow> bool" where
  "claims_ok l \<longleftrightarrow> (\<forall>k n. lg_claims l k = Some n \<longrightarrow>
     (\<exists>c. lg_calls l n = Some c \<and> rv_phase c = Reserved \<and> k \<in> cd_Key ` set (rv_candidates c)))"

definition ledger_inv :: "Ledger \<Rightarrow> bool" where
  "ledger_inv l \<longleftrightarrow> guards_ok l \<and> (\<forall>n c. lg_calls l n = Some c \<longrightarrow> call_ok l n c) \<and> claims_ok l
     \<and> tallies_ok l \<and> finite (dom (lg_calls l))"

lemma ledger_inv_new: "ledger_inv NewLedger"
  by (auto simp: ledger_inv_def NewLedger_def guards_ok_def claims_ok_def tallies_ok_def tally_ok_def
      members_def members_at_def guard_of_def tally_of_def empty_tally_def)

lemma call_ok_cong:
  "lg_claims l = lg_claims l' \<Longrightarrow> lg_memberships l = lg_memberships l' \<Longrightarrow> call_ok l n c = call_ok l' n c"
  by (simp add: call_ok_def)

lemma begin_batch_inv:
  assumes inv: "ledger_inv l" and fresh: "lg_calls l n = None" and ok: "begin_batch l n d cs = Inr l'"
  shows "ledger_inv l'"
proof -
  let ?c = "\<lparr> rv_deliveryID = d, rv_batch = cs, rv_wait = uniqueSortedWindowKeys cs, rv_locked = [],
              rv_candidates = [], rv_phase = Locking \<rparr>"
  have l': "l' = put_call n ?c l"
    using ok by (auto simp: begin_batch_def split: if_splits option.splits)
  have "guards_ok l'" using inv fresh by (auto simp: ledger_inv_def guards_ok_def l')
  moreover have "claims_ok l'" using inv fresh by (fastforce simp: ledger_inv_def claims_ok_def l')
  moreover have "\<forall>m c. lg_calls l' m = Some c \<longrightarrow> call_ok l' m c"
    using inv call_ok_cong [of l' l] by (auto simp: ledger_inv_def l' call_ok_def)
  ultimately show ?thesis using inv by (simp add: ledger_inv_def l' tallies_ok_def)
qed

lemma lock_next_inv:
  assumes inv: "ledger_inv l" and ok: "lock_next l n = Some l'"
  shows "ledger_inv l'"
proof -
  obtain c k ks where c: "lg_calls l n = Some c" "rv_phase c = Locking" "rv_wait c = k # ks"
    and free: "guard_of l k = None"
    and l': "l' = put_call n (c\<lparr>rv_wait := ks, rv_locked := rv_locked c @ [k]\<rparr>) (set_guard (Some n) k l)"
    using ok by (auto simp: lock_next_def split: option.splits phase.splits list.splits if_splits)
  have g: "guards_ok l" and cl: "claims_ok l" and call: "\<And>m d. lg_calls l m = Some d \<Longrightarrow> call_ok l m d"
    using inv by (auto simp: ledger_inv_def)
  have "guards_ok l'"
    unfolding guards_ok_def
  proof (intro allI)
    fix k' m
    show "guard_of l' k' = Some m \<longleftrightarrow>
        (\<exists>c. lg_calls l' m = Some c \<and> rv_phase c \<noteq> Finished \<and> k' \<in> set (rv_locked c))"
      using g [unfolded guards_ok_def, rule_format, of k' m] free c
      by (cases "m = n"; cases "k' = k") (auto simp: l')
  qed
  moreover have "claims_ok l'" using cl c by (fastforce simp: claims_ok_def l')
  moreover have "\<forall>m d. lg_calls l' m = Some d \<longrightarrow> call_ok l' m d"
    using call c call [OF c(1)] by (auto simp: l' call_ok_def)
  ultimately show ?thesis using inv by (simp add: ledger_inv_def l' tallies_ok_def)
qed

lemma finish_call_guards:
  assumes "guards_ok l" and c: "lg_calls l n = Some c" "rv_phase c \<noteq> Finished"
    and l: "guard_of l1 = guard_of l" "lg_calls l1 = lg_calls l"
  shows "guards_ok (finish_call n c l1)"
  unfolding guards_ok_def
proof (intro allI)
  fix k m
  show "guard_of (finish_call n c l1) k = Some m \<longleftrightarrow>
      (\<exists>d. lg_calls (finish_call n c l1) m = Some d \<and> rv_phase d \<noteq> Finished \<and> k \<in> set (rv_locked d))"
    using assms(1) [unfolded guards_ok_def, rule_format, of k m]
      assms(1) [unfolded guards_ok_def, rule_format, of k n] c l
    by (cases "m = n"; cases "k \<in> set (rv_locked c)") (auto simp: finish_call_def)
qed

lemma finish_call_simps [simp]:
  "lg_memberships (finish_call n c l) = lg_memberships l" "lg_claims (finish_call n c l) = lg_claims l"
  "tally_of (finish_call n c l) = tally_of l" "lg_calls (finish_call n c l) = (lg_calls l)(n \<mapsto> c\<lparr>rv_phase := Finished\<rparr>)"
  by (simp_all add: finish_call_def)

lemma cancel_inv_aux:
  assumes inv: "ledger_inv l" and c: "lg_calls l n = Some c" "rv_phase c = Locking"
  shows "ledger_inv (finish_call n c l)"
proof -
  have g: "guards_ok l" and cl: "claims_ok l" and call: "\<And>m d. lg_calls l m = Some d \<Longrightarrow> call_ok l m d"
    using inv by (auto simp: ledger_inv_def)
  have "guards_ok (finish_call n c l)" by (rule finish_call_guards [OF g c(1)]) (simp_all add: c)
  moreover have "claims_ok (finish_call n c l)" using cl c by (fastforce simp: claims_ok_def)
  moreover have "\<forall>m d. lg_calls (finish_call n c l) m = Some d \<longrightarrow> call_ok (finish_call n c l) m d"
    using call by (auto simp: call_ok_def)
  ultimately show ?thesis using inv by (simp add: ledger_inv_def tallies_ok_def)
qed

lemma prepareLocked_Inr:
  assumes "prepareLocked l n cs = Inr (l', ps, st)"
  shows "l' = l\<lparr>lg_claims := fold (\<lambda>c m. m(cd_Key c \<mapsto> n)) st (lg_claims l)\<rparr>"
    and "\<exists>fin. prepare_loop l Map.empty [] cs = (ps, st, fin)"
    and "\<forall>x\<in>set st. lg_claims l (cd_Key x) = None \<or> lg_claims l (cd_Key x) = Some n"
proof -
  obtain fin where chk: "prepare_check l n Map.empty cs = None"
    and loop: "prepare_loop l Map.empty [] cs = (ps, st, fin)"
    and l': "l' = l\<lparr>lg_claims := fold (\<lambda>c m. m(cd_Key c \<mapsto> n)) st (lg_claims l)\<rparr>"
    using assms by (auto simp: prepareLocked_def split: option.splits prod.splits)
  then show "l' = l\<lparr>lg_claims := fold (\<lambda>c m. m(cd_Key c \<mapsto> n)) st (lg_claims l)\<rparr>"
    and "\<exists>fin. prepare_loop l Map.empty [] cs = (ps, st, fin)" by auto
  show "\<forall>x\<in>set st. lg_claims l (cd_Key x) = None \<or> lg_claims l (cd_Key x) = Some n"
    using prepare_loop_staged [OF loop] prepare_check_owner [OF chk] by auto
qed

lemma prepare_batch_inv:
  assumes inv: "ledger_inv l" and ok: "prepare_batch l n = Some (l', r)"
  shows "ledger_inv l'"
proof -
  obtain c where c: "lg_calls l n = Some c" "rv_phase c = Locking" "rv_wait c = []"
    using ok by (auto simp: prepare_batch_def split: option.splits if_splits)
  show ?thesis
  proof (cases "prepareLocked l n (rv_batch c)")
    case (Inl e)
    then show ?thesis using ok c cancel_inv_aux [OF inv c(1,2)] by (simp add: prepare_batch_def)
  next
    case (Inr t)
    obtain l1 ps st where t: "t = (l1, ps, st)" by (metis prod_cases3)
    note p = prepareLocked_Inr [OF Inr [unfolded t]]
    have l': "l' = put_call n (c\<lparr>rv_candidates := st, rv_phase := Reserved\<rparr>) l1"
      using ok c Inr by (simp add: prepare_batch_def t)
    have st: "set st \<subseteq> set (rv_batch c)" "distinct (map cd_Key st)"
      "\<forall>x\<in>set st. lg_memberships l (cd_Key x) = None"
      using p(2) prepare_loop_staged by blast+
    have g: "guards_ok l" and cl: "claims_ok l" and call: "\<And>m d. lg_calls l m = Some d \<Longrightarrow> call_ok l m d"
      using inv by (auto simp: ledger_inv_def)
    have foreign: "m = n" if "lg_calls l m = Some d" "rv_phase d = Reserved" "x \<in> set (rv_candidates d)"
      "cd_Key x \<in> cd_Key ` set st" for m d x
    proof -
      have "lg_claims l (cd_Key x) = Some m" using call [OF that(1)] that(2,3) by (simp add: call_ok_def)
      then show ?thesis using p(3) that(4) by auto
    qed
    have "guards_ok l'" using g c by (auto simp: guards_ok_def l' p(1))
    moreover have "claims_ok l'"
      using cl c by (fastforce simp: claims_ok_def l' p(1) claims_fold)
    moreover have "call_ok l' m d" if "lg_calls l' m = Some d" for m d
    proof (cases "m = n")
      case True
      then show ?thesis using that call [OF c(1)] c st by (auto simp: l' p(1) call_ok_def claims_fold)
    next
      case False
      then have d: "lg_calls l m = Some d" using that by (simp add: l' p(1))
      then show ?thesis
        using call [OF d] foreign [OF d] False by (auto simp: l' p(1) call_ok_def claims_fold)
    qed
    ultimately show ?thesis using inv by (simp add: ledger_inv_def l' p(1) tallies_ok_def)
  qed
qed

lemma Confirm_inv:
  assumes inv: "ledger_inv l" shows "ledger_inv (Confirm l n)"
proof (cases "\<exists>c. lg_calls l n = Some c \<and> rv_phase c = Reserved")
  case True
  then obtain c where c: "lg_calls l n = Some c" "rv_phase c = Reserved" by blast
  have g: "guards_ok l" and cl: "claims_ok l" and call: "\<And>m d. lg_calls l m = Some d \<Longrightarrow> call_ok l m d"
    and ta: "tallies_ok l" and fin: "finite (dom (lg_calls l))"
    using inv by (auto simp: ledger_inv_def)
  have own: "distinct (map cd_Key (rv_candidates c))"
    "\<forall>x\<in>set (rv_candidates c). lg_claims l (cd_Key x) = Some n \<and> lg_memberships l (cd_Key x) = None"
    using call [OF c(1)] c(2) by (auto simp: call_ok_def)
  let ?l1 = "drop_pending n (rv_deliveryID c) (fold confirm_one (rv_candidates c) l)"
  have l': "Confirm l n = finish_call n c ?l1" using c by (simp add: Confirm_def)
  have "guards_ok (Confirm l n)" unfolding l' by (rule finish_call_guards [OF g c(1)]) (simp_all add: c)
  moreover have "tallies_ok (Confirm l n)"
    using fold_confirm_tallies [OF ta own(1)] own(2) by (simp add: l' tallies_ok_def)
  moreover have "claims_ok (Confirm l n)"
    using cl c by (fastforce simp: claims_ok_def l' fold_confirm_claims)
  moreover have "call_ok (Confirm l n) m d" if "lg_calls (Confirm l n) m = Some d" for m d
  proof (cases "m = n")
    case True
    then show ?thesis using that by (auto simp: l' call_ok_def)
  next
    case False
    then have d: "lg_calls l m = Some d" using that by (simp add: l')
    have "cd_Key x \<notin> cd_Key ` set (rv_candidates c)" if "rv_phase d = Reserved" "x \<in> set (rv_candidates d)" for x
      using call [OF d] that own(2) False by (force simp: call_ok_def)
    then show ?thesis using call [OF d] by (simp add: l' call_ok_def fold_confirm_claims fold_confirm_members)
  qed
  ultimately show ?thesis using fin by (simp add: ledger_inv_def l')
next
  case False
  then have "Confirm l n = l" by (auto simp: Confirm_def split: option.splits)
  then show ?thesis using inv by simp
qed

lemma Abort_inv:
  assumes inv: "ledger_inv l" shows "ledger_inv (Abort l n)"
proof (cases "\<exists>c. lg_calls l n = Some c \<and> rv_phase c = Reserved")
  case True
  then obtain c where c: "lg_calls l n = Some c" "rv_phase c = Reserved" by blast
  have g: "guards_ok l" and cl: "claims_ok l" and call: "\<And>m d. lg_calls l m = Some d \<Longrightarrow> call_ok l m d"
    and ta: "tallies_ok l" and fin: "finite (dom (lg_calls l))"
    using inv by (auto simp: ledger_inv_def)
  let ?l1 = "drop_pending n (rv_deliveryID c) (fold (abort_one n) (rv_candidates c) l)"
  have l': "Abort l n = finish_call n c ?l1" using c by (simp add: Abort_def)
  have "guards_ok (Abort l n)" unfolding l' by (rule finish_call_guards [OF g c(1)]) (simp_all add: c)
  moreover have "tallies_ok (Abort l n)" using ta by (simp add: l' tallies_ok_def)
  moreover have "claims_ok (Abort l n)"
    using cl c by (fastforce simp: claims_ok_def l' fold_abort_claims split: if_splits)
  moreover have "call_ok (Abort l n) m d" if "lg_calls (Abort l n) m = Some d" for m d
  proof (cases "m = n")
    case True
    then show ?thesis using that by (auto simp: l' call_ok_def)
  next
    case False
    then have d: "lg_calls l m = Some d" using that by (simp add: l')
    then show ?thesis using call [OF d] False by (simp add: l' call_ok_def fold_abort_claims)
  qed
  ultimately show ?thesis using fin by (simp add: ledger_inv_def l')
next
  case False
  then have "Abort l n = l" by (auto simp: Abort_def split: option.splits)
  then show ?thesis using inv by simp
qed

lemma pending_inv: "ledger_inv l \<Longrightarrow> ledger_inv (l\<lparr>lg_pending := q\<rparr>)"
  by (simp add: ledger_inv_def guards_ok_def claims_ok_def tallies_ok_def call_ok_def)

lemma DeferResolution_inv: "ledger_inv l \<Longrightarrow> ledger_inv (DeferResolution l n)"
  by (simp add: DeferResolution_def pending_inv split: option.split)

lemma cancel_batch_inv: "ledger_inv l \<Longrightarrow> cancel_batch l n = Some l' \<Longrightarrow> ledger_inv l'"
  by (auto simp: cancel_batch_def cancel_inv_aux split: option.splits if_splits)

lemma ledger_step_inv: "ledger_step l l' \<Longrightarrow> ledger_inv l \<Longrightarrow> ledger_inv l'"
proof (induction rule: ledger_step.induct)
  case (resolve l d b)
  then show ?case by (simp add: ResolveDeferred_def Confirm_inv Abort_inv split: option.split)
qed (auto intro: begin_batch_inv lock_next_inv cancel_batch_inv prepare_batch_inv Confirm_inv Abort_inv
      DeferResolution_inv)

lemma ledger_reachable_inv: "ledger_reachable l \<Longrightarrow> ledger_inv l"
  by (induction rule: ledger_reachable.induct) (auto intro: ledger_inv_new ledger_step_inv)

section \<open>Previews and progress\<close>

definition projected_tally :: "Ledger \<Rightarrow> (WindowKey \<rightharpoonup> windowTally) \<Rightarrow> WindowKey \<Rightarrow> windowTally" where
  "projected_tally l pr w = (case pr w of Some t \<Rightarrow> t | None \<Rightarrow> tally_of l w)"

definition bumps :: "WindowKey \<Rightarrow> Candidate list \<Rightarrow> windowTally \<Rightarrow> windowTally" where
  "bumps w st t = fold (\<lambda>c. bump (cd_DistinctKey c)) (filter (\<lambda>c. cd_Window c = w) st) t"

lemma fold_confirm_tally: "tally_of (fold confirm_one st l) w = bumps w st (tally_of l w)"
  by (induction st arbitrary: l) (auto simp: bumps_def)

text \<open>The last preview of a window shows the tally that staging leaves for it.\<close>

lemma prepare_loop_previews:
  assumes "prepare_loop l pr seen cs = (ps, st, fin)"
  shows "projected_tally l fin w = bumps w st (projected_tally l pr w)
     \<and> (\<forall>pre p post. ps = pre @ p # post \<and> cd_Window (pv_Candidate p) = w
          \<and> (\<forall>q\<in>set post. cd_Window (pv_Candidate q) \<noteq> w) \<longrightarrow> pv_Snapshot p = snapshotOf (projected_tally l fin w))
     \<and> ((\<forall>q\<in>set ps. cd_Window (pv_Candidate q) \<noteq> w) \<longrightarrow> projected_tally l fin w = projected_tally l pr w)"
  using assms
proof (induction l pr seen cs arbitrary: ps st fin rule: prepare_loop.induct)
  case (1 l pr seen)
  then show ?case by (simp add: bumps_def)
next
  case (2 l pr seen c cs)
  let ?state = "case pr (cd_Window c) of Some t \<Rightarrow> t | None \<Rightarrow> tally_of l (cd_Window c)"
  let ?new = "cd_Key c \<notin> set seen \<and> lg_memberships l (cd_Key c) = None"
  let ?state' = "if ?new then bump (cd_DistinctKey c) ?state else ?state"
  let ?pr = "pr(cd_Window c \<mapsto> ?state')"
  obtain ps' st' fin' where rec: "prepare_loop l ?pr (cd_Key c # seen) cs = (ps', st', fin')"
    by (metis prod_cases3)
  note ih = "2.IH" [OF refl refl refl rec]
  have res: "ps = \<lparr> pv_Candidate = c, pv_Snapshot = snapshotOf ?state', pv_WillContribute = ?new \<rparr> # ps'"
      "st = (if ?new then c # st' else st')" "fin = fin'"
    using "2.prems" rec by (simp_all add: Let_def split: prod.splits)
  have upd: "projected_tally l ?pr w = (if cd_Window c = w then ?state' else projected_tally l pr w)"
    by (simp add: projected_tally_def)
  have st: "projected_tally l pr (cd_Window c) = ?state" by (simp add: projected_tally_def)
  have i1: "projected_tally l fin' w = bumps w st' (projected_tally l ?pr w)" using ih by blast
  have "projected_tally l fin w = bumps w st (projected_tally l pr w)"
    unfolding res(2,3) i1 upd using st by (cases "cd_Window c = w"; cases ?new) (auto simp: bumps_def)
  moreover have "pv_Snapshot p = snapshotOf (projected_tally l fin w)"
    if "ps = pre @ p # post" "cd_Window (pv_Candidate p) = w" "\<forall>q\<in>set post. cd_Window (pv_Candidate q) \<noteq> w"
    for pre p post
  proof (cases pre)
    case Nil
    then have p: "p = \<lparr> pv_Candidate = c, pv_Snapshot = snapshotOf ?state', pv_WillContribute = ?new \<rparr>" "ps' = post"
      using that(1) res(1) by simp_all
    then have "projected_tally l fin' w = projected_tally l ?pr w" using ih that(3) by blast
    then show ?thesis using p that(2) upd by (simp add: res(3))
  next
    case (Cons x pre')
    then have "ps' = pre' @ p # post" using that(1) res(1) by simp
    then show ?thesis using ih that(2,3) res(3) by blast
  qed
  moreover have "projected_tally l fin w = projected_tally l pr w"
    if "\<forall>q\<in>set ps. cd_Window (pv_Candidate q) \<noteq> w"
  proof -
    have "\<forall>q\<in>set ps'. cd_Window (pv_Candidate q) \<noteq> w" using that by (simp add: res(1))
    then have "projected_tally l fin' w = projected_tally l ?pr w" using ih by blast
    moreover have "cd_Window c \<noteq> w" using that by (simp add: res(1))
    ultimately show ?thesis unfolding upd res(3) by simp
  qed
  ultimately show ?case by blast
qed

lemma prepare_confirm_tally:
  assumes "prepare_batch l n = Some (l', Inr ps)"
  shows "\<exists>st fin cs. prepare_loop l Map.empty [] cs = (ps, st, fin) \<and> tally_of (Confirm l' n) w = bumps w st (tally_of l w)"
proof -
  obtain c where c: "lg_calls l n = Some c" "rv_phase c = Locking" "rv_wait c = []"
    using assms by (auto simp: prepare_batch_def split: option.splits if_splits)
  obtain l1 st where p: "prepareLocked l n (rv_batch c) = Inr (l1, ps, st)"
    and l': "l' = put_call n (c\<lparr>rv_candidates := st, rv_phase := Reserved\<rparr>) l1"
    using assms c by (auto simp: prepare_batch_def split: sum.splits)
  have t: "tally_of l' = tally_of l" by (simp add: l' prepareLocked_Inr(1) [OF p])
  have "tally_of (Confirm l' n) w = tally_of (fold confirm_one st l') w"
    by (simp add: Confirm_def l')
  then have "tally_of (Confirm l' n) w = bumps w st (tally_of l w)" by (simp add: fold_confirm_tally t)
  then show ?thesis using prepareLocked_Inr(2) [OF p] by blast
qed

text \<open>A guard already taken by a call precedes every guard the call still waits for.\<close>

lemma locked_before_wait:
  assumes "call_ok l n c" and "rv_phase c \<noteq> Finished" and "k \<in> set (rv_locked c)" and "h \<in> set (rv_wait c)"
  shows "window_order k < window_order h"
proof -
  have eq: "rv_locked c @ rv_wait c = uniqueSortedWindowKeys (rv_batch c)"
    using assms(1,2) by (simp add: call_ok_def)
  have "sorted (map window_order (rv_locked c @ rv_wait c))" "distinct (rv_locked c @ rv_wait c)"
    unfolding eq by (simp_all add: uniqueSortedWindowKeys_facts)
  then have "window_order k \<le> window_order h" "k \<noteq> h"
    using assms(3,4) by (auto simp: sorted_append)
  moreover have "window_order k \<noteq> window_order h"
    using inj_onD [OF window_order_inj [of UNIV], of k h] \<open>k \<noteq> h\<close> by blast
  ultimately show ?thesis by (simp add: order.strict_iff_order)
qed

lemma ledger_progress:
  assumes inv: "ledger_inv l" and c: "lg_calls l n = Some c" "rv_phase c = Locking"
    and nores: "\<forall>m d. lg_calls l m = Some d \<longrightarrow> rv_phase d \<noteq> Reserved"
  shows "\<exists>m. lock_next l m \<noteq> None \<or> prepare_batch l m \<noteq> None"
proof (rule ccontr)
  assume stuck: "\<nexists>m. lock_next l m \<noteq> None \<or> prepare_batch l m \<noteq> None"
  define W where "W = {(m, d). lg_calls l m = Some d \<and> rv_phase d = Locking}"
  have W: "(n, c) \<in> W" using c by (simp add: W_def)
  have fin: "finite W"
  proof (rule finite_subset)
    show "W \<subseteq> (\<lambda>m. (m, the (lg_calls l m))) ` dom (lg_calls l)" by (force simp: W_def)
    show "finite ((\<lambda>m. (m, the (lg_calls l m))) ` dom (lg_calls l))" using inv by (simp add: ledger_inv_def)
  qed
  have blocked: "\<exists>k ks m'. rv_wait d = k # ks \<and> guard_of l k = Some m'" if "(m, d) \<in> W" for m d
  proof (cases "rv_wait d")
    case Nil
    then have "prepare_batch l m \<noteq> None" using that by (simp add: W_def prepare_batch_def)
    then show ?thesis using stuck by blast
  next
    case (Cons k ks)
    have "lock_next l m = None" using stuck by blast
    then have "guard_of l k \<noteq> None" using that Cons by (auto simp: W_def lock_next_def split: if_splits)
    then show ?thesis using Cons by auto
  qed
  define f where "f = (\<lambda>(m :: nat, d :: Reservation). window_order (hd (rv_wait d)))"
  have "Max (f ` W) \<in> f ` W" using fin W by (intro Max_in) auto
  then obtain m d where md: "(m, d) \<in> W" and "f (m, d) = Max (f ` W)" by (metis imageE prod.exhaust)
  then have top: "\<forall>x\<in>W. f x \<le> f (m, d)" using fin by simp
  obtain k ks m' where k: "rv_wait d = k # ks" "guard_of l k = Some m'" using blocked [OF md] by blast
  then obtain d' where d': "lg_calls l m' = Some d'" "rv_phase d' \<noteq> Finished" "k \<in> set (rv_locked d')"
    using inv by (auto simp: ledger_inv_def guards_ok_def)
  then have w': "(m', d') \<in> W" using nores by (cases "rv_phase d'") (auto simp: W_def)
  obtain h hs where h: "rv_wait d' = h # hs" using blocked [OF w'] by blast
  have "window_order k < window_order h"
    using locked_before_wait [OF _ d'(2,3), of l m' h] inv d'(1) h by (simp add: ledger_inv_def)
  moreover have "window_order h \<le> window_order k" using top w' h k(1) by (auto simp: f_def)
  ultimately show False by simp
qed

section \<open>Properties\<close>

lemma tally_ok_distinct_count:
  assumes "tally_ok M k t"
  shows "length (wt_distinct t) = card {dk. members_at M k dk \<noteq> {}}"
proof -
  have "dom (map_of (wt_distinct t)) = {dk. members_at M k dk \<noteq> {}}"
    using assms by (auto simp: tally_ok_def dom_def split: if_splits)
  moreover have "length (wt_distinct t) = card (fst ` set (wt_distinct t))"
    using assms distinct_card [of "map fst (wt_distinct t)"] by (simp add: tally_ok_def)
  ultimately show ?thesis by (simp add: dom_map_of_conv_image_fst)
qed

text \<open>
  Claim C14. In every state the interleaved calls can reach, a completed read of a window returns
  the number of confirmed memberships of that window and the number of distinct values among them
  (modulo \<open>2 ^ 64\<close>): staged, aborted and repeated contributions are never counted.
\<close>

theorem ledger_snapshot_counts_members:
  assumes "ledger_reachable l" and "Snapshot_read l k = Some (Inr s)"
  shows "sn_Count s = of_nat (card (members (lg_memberships l) k))
     \<and> sn_DistinctCount s = of_nat (card {dk. members_at (lg_memberships l) k dk \<noteq> {}})"
proof -
  have ok: "tally_ok (lg_memberships l) k (tally_of l k)"
    using ledger_reachable_inv [OF assms(1)] by (simp add: ledger_inv_def tallies_ok_def)
  have "s = snapshotOf (tally_of l k)"
    using assms(2) by (auto simp: Snapshot_read_def split: option.splits if_splits)
  then show ?thesis
    using ok tally_ok_distinct_count [OF ok] by (simp add: snapshotOf_def tally_ok_def)
qed

text \<open>
  Claim C15. In every reachable state the guard of a window is held by at most one unfinished call,
  a contribution is staged by at most one reservation, and a staged contribution is not yet a
  member.
\<close>

theorem ledger_exclusive:
  assumes "ledger_reachable l" and "lg_calls l m = Some c" and "lg_calls l n = Some d" and "m \<noteq> n"
  shows "(rv_phase c \<noteq> Finished \<and> rv_phase d \<noteq> Finished \<longrightarrow> set (rv_locked c) \<inter> set (rv_locked d) = {})
     \<and> (rv_phase c = Reserved \<and> rv_phase d = Reserved \<longrightarrow>
          cd_Key ` set (rv_candidates c) \<inter> cd_Key ` set (rv_candidates d) = {})
     \<and> (rv_phase c = Reserved \<longrightarrow> (\<forall>x\<in>set (rv_candidates c). lg_memberships l (cd_Key x) = None))"
proof -
  have inv: "ledger_inv l" using assms(1) by (rule ledger_reachable_inv)
  have ok: "call_ok l m c" "call_ok l n d" using inv assms(2,3) by (auto simp: ledger_inv_def)
  have "guard_of l k = Some m" if "rv_phase c \<noteq> Finished" "k \<in> set (rv_locked c)" for k
    using inv assms(2) that by (auto simp: ledger_inv_def guards_ok_def)
  moreover have "guard_of l k = Some n" if "rv_phase d \<noteq> Finished" "k \<in> set (rv_locked d)" for k
    using inv assms(3) that by (auto simp: ledger_inv_def guards_ok_def)
  ultimately have "rv_phase c \<noteq> Finished \<and> rv_phase d \<noteq> Finished \<longrightarrow> set (rv_locked c) \<inter> set (rv_locked d) = {}"
    using assms(4) by force
  then show ?thesis using ok assms(4) by (force simp: call_ok_def)
qed

text \<open>
  Claim C16. Taking the guards in canonical order cannot deadlock: while some call is still
  collecting guards and no reservation is open, some call can take its next guard or finish its
  locked section.
\<close>

theorem ledger_no_deadlock:
  assumes "ledger_reachable l" and "lg_calls l n = Some c" and "rv_phase c = Locking"
    and "\<forall>m d. lg_calls l m = Some d \<longrightarrow> rv_phase d \<noteq> Reserved"
  shows "\<exists>m. lock_next l m \<noteq> None \<or> prepare_batch l m \<noteq> None"
  using ledger_progress [OF ledger_reachable_inv [OF assms(1)] assms(2-4)] .

text \<open>
  Claim C17. The previews are post-commit previews: for each window of a batch the last preview
  shows exactly the snapshot that is visible once the batch is confirmed.
\<close>

theorem ledger_preview_is_post_commit:
  assumes "prepare_batch l n = Some (l', Inr (pre @ p # post))"
    and "\<forall>q\<in>set post. cd_Window (pv_Candidate q) \<noteq> cd_Window (pv_Candidate p)"
  shows "pv_Snapshot p = snapshotOf (tally_of (Confirm l' n) (cd_Window (pv_Candidate p)))"
proof -
  let ?w = "cd_Window (pv_Candidate p)"
  obtain st fin cs where loop: "prepare_loop l Map.empty [] cs = (pre @ p # post, st, fin)"
    and t: "tally_of (Confirm l' n) ?w = bumps ?w st (tally_of l ?w)"
    using prepare_confirm_tally [OF assms(1)] by blast
  have e: "projected_tally l Map.empty ?w = tally_of l ?w" by (simp add: projected_tally_def)
  have "projected_tally l fin ?w = bumps ?w st (tally_of l ?w)"
    "pv_Snapshot p = snapshotOf (projected_tally l fin ?w)"
    using prepare_loop_previews [OF loop, of ?w] assms(2) unfolding e by blast+
  then show ?thesis by (simp add: t)
qed

section \<open>A concrete run\<close>

definition run_delivery :: string where "run_delivery = ''dlv1_'' @ replicate 52 CHR ''0''"

definition run_candidate :: "string \<Rightarrow> Candidate" where
  "run_candidate g =
     \<lparr> cd_DeliveryID = run_delivery,
       cd_Key = \<lparr> ck_EventID = ''evt1_'' @ replicate 52 CHR ''0'', ck_RuleID = ''r'', ck_RuleVersion = ''1'' \<rparr>,
       cd_Window = \<lparr> wk_RuleID = ''r'', wk_RuleVersion = ''1'', wk_GroupKey = g \<rparr>,
       cd_DistinctKey = ''u'', cd_ObservedAt = 5 \<rparr>"

definition run_call :: Reservation where
  "run_call = \<lparr> rv_deliveryID = run_delivery, rv_batch = [run_candidate ''g''],
     rv_wait = uniqueSortedWindowKeys [run_candidate ''g''], rv_locked = [], rv_candidates = [],
     rv_phase = Locking \<rparr>"

definition run1 :: Ledger where "run1 = put_call 0 run_call NewLedger"
definition run2 :: Ledger where "run2 = put_call 1 run_call run1"
definition run3 :: Ledger where "run3 = the (lock_next run2 0)"
definition run4 :: Ledger where "run4 = fst (the (prepare_batch run3 0))"
definition run5 :: Ledger where "run5 = Confirm run4 0"

lemma run_valid: "ValidDeliveryID run_delivery" "validateCandidate run_delivery (run_candidate ''g'') = None"
proof -
  show "ValidDeliveryID run_delivery" unfolding run_delivery_def by (rule zero_identities)
  have w: "validateWindowKey (cd_Window (run_candidate ''g'')) = None" by code_simp
  have d: "ValidString ''u''" by code_simp
  show "validateCandidate run_delivery (run_candidate ''g'') = None"
    using w d zero_identities(2) by (simp add: validateCandidate_def run_candidate_def IsZero_def)
qed

lemma run_steps:
  "begin_batch NewLedger 0 run_delivery [run_candidate ''g''] = Inr run1"
  "begin_batch run1 1 run_delivery [run_candidate ''g''] = Inr run2"
  by (simp_all add: run1_def run2_def run_call_def begin_batch_def run_valid)

lemma run1_calls: "lg_calls run1 = [0 \<mapsto> run_call]"
  by (simp add: run1_def NewLedger_def)

lemma run_some: "Option.is_none x = False \<Longrightarrow> x = Some (the x)"
  by (cases x) auto

lemma run_reachable:
  "ledger_reachable run1" "ledger_reachable run2" "ledger_reachable run3" "ledger_reachable run4" "ledger_reachable run5"
proof -
  have n: "lg_calls NewLedger 0 = None" "lg_calls run1 1 = None"
    by (simp_all add: NewLedger_def run1_calls)
  have l3: "lock_next run2 0 = Some run3" unfolding run3_def by (rule run_some) code_simp
  have "prepare_batch run3 0 = Some (the (prepare_batch run3 0))" by (rule run_some) code_simp
  then have p4: "prepare_batch run3 0 = Some (run4, snd (the (prepare_batch run3 0)))"
    unfolding run4_def by simp
  show r1: "ledger_reachable run1"
    by (rule ledger_reachable.step [OF ledger_reachable.new ledger_step.start [OF n(1) run_steps(1)]])
  show r2: "ledger_reachable run2"
    by (rule ledger_reachable.step [OF r1 ledger_step.start [OF n(2) run_steps(2)]])
  show r3: "ledger_reachable run3" by (rule ledger_reachable.step [OF r2 ledger_step.lock [OF l3]])
  show r4: "ledger_reachable run4" by (rule ledger_reachable.step [OF r3 ledger_step.prepare [OF p4]])
  show "ledger_reachable run5" unfolding run5_def by (rule ledger_reachable.step [OF r4 ledger_step.confirm])
qed

theorem ledger_snapshot_counts_members_witness:
  "(1 :: u64) = of_nat (card (members (lg_memberships run5) (cd_Window (run_candidate ''g''))))"
proof -
  have "Snapshot_read run5 (cd_Window (run_candidate ''g'')) = Some (Inr \<lparr> sn_Count = 1, sn_DistinctCount = 1 \<rparr>)"
    by code_simp
  from ledger_snapshot_counts_members [OF run_reachable(5) this] show ?thesis by simp
qed

theorem ledger_exclusive_witness:
  "set (rv_locked (the (lg_calls run4 0))) \<inter> set (rv_locked (the (lg_calls run4 1))) = {}
   \<and> rv_locked (the (lg_calls run4 0)) \<noteq> []"
proof -
  have c: "lg_calls run4 0 = Some (the (lg_calls run4 0))" "lg_calls run4 1 = Some (the (lg_calls run4 1))"
    by (rule run_some, code_simp)+
  have "rv_phase (the (lg_calls run4 0)) \<noteq> Finished" "rv_phase (the (lg_calls run4 1)) \<noteq> Finished"
    "rv_locked (the (lg_calls run4 0)) \<noteq> []" by code_simp+
  with ledger_exclusive [OF run_reachable(4) c] show ?thesis by simp
qed

theorem ledger_no_deadlock_witness: "\<exists>m. lock_next run1 m \<noteq> None \<or> prepare_batch run1 m \<noteq> None"
  by (rule ledger_no_deadlock [OF run_reachable(1) fun_cong [OF run1_calls, of 0, simplified]])
    (simp_all add: run1_calls run_call_def)

theorem ledger_preview_is_post_commit_witness:
  "snapshotOf (tally_of (Confirm run4 0) (cd_Window (run_candidate ''g''))) =
     \<lparr> sn_Count = 1, sn_DistinctCount = 1 \<rparr>"
proof -
  let ?p = "\<lparr> pv_Candidate = run_candidate ''g'', pv_Snapshot = \<lparr> sn_Count = 1, sn_DistinctCount = 1 \<rparr>,
              pv_WillContribute = True \<rparr>"
  have d: "prepare_batch run3 0 = Some (the (prepare_batch run3 0))" by (rule run_some) code_simp
  have "snd (the (prepare_batch run3 0)) = Inr [?p]" by code_simp
  then have "prepare_batch run3 0 = Some (run4, Inr ([] @ ?p # []))"
    using d unfolding run4_def by (metis append_Nil prod.collapse)
  from ledger_preview_is_post_commit [OF this] show ?thesis by simp
qed

end
