(* ===== verification/Checkpoint.thy ===== *)
theory Checkpoint
  imports Core_Model
begin

text \<open>
  \<^verbatim>\<open>internal/source/checkpoint.go\<close>: the tracker that advances over the highest contiguous durable
  completion of one source session, the merge of file ranges, and the manager that saves
  checkpoints. A flush reads the pending candidate, calls the store and clears the candidate in
  three sections, between which completions interleave; the manager is therefore a step machine
  whose history of saved candidates the properties speak about.
\<close>

section \<open>File ranges\<close>

datatype checkpoint_error =
    CompletionSourceMismatch
  | InvalidDurableCompletion
  | SequenceSpaceExhausted
  | ConflictingPositions u64
  | RangeNotContiguous string
  | TrackerSourceRequired
  | TrackerNextRequired

text \<open>The index map of the merge holds for each generation the last position that has it.\<close>

fun gen_index :: "string \<Rightarrow> FilePosition list \<Rightarrow> nat option" where
  "gen_index g [] = None"
| "gen_index g (x # xs) =
     (case gen_index g xs of
        Some i \<Rightarrow> Some (Suc i)
      | None \<Rightarrow> if fp_Generation x = g then Some 0 else None)"

fun mergeFileRanges :: "FilePosition list \<Rightarrow> FilePosition list \<Rightarrow> checkpoint_error + FilePosition list" where
  "mergeFileRanges merged [] = Inr merged"
| "mergeFileRanges merged (file # rest) =
     (case gen_index (fp_Generation file) merged of
        Some i \<Rightarrow>
          (let l = merged ! i in
           if fp_DeviceID l \<noteq> fp_DeviceID file \<or> fp_Inode l \<noteq> fp_Inode file
              \<or> fp_EndOffset l \<noteq> fp_StartOffset file
           then Inl (RangeNotContiguous (fp_Generation file))
           else mergeFileRanges (merged[i := l\<lparr>fp_EndOffset := fp_EndOffset file\<rparr>]) rest)
      | None \<Rightarrow> mergeFileRanges (merged @ [file]) rest)"

section \<open>The completion tracker\<close>

record checkpointCandidate =
  cc_SourceID :: string
  cc_ThroughSequence :: u64
  cc_Position :: SourcePosition
  cc_FileRanges :: "FilePosition list"

record CompletionTracker =
  tr_sourceID :: string
  tr_next :: u64
  tr_completed :: "u64 \<rightharpoonup> SourcePosition"
  tr_exhausted :: bool

definition NewCompletionTracker :: "string \<Rightarrow> u64 \<Rightarrow> checkpoint_error + CompletionTracker" where
  "NewCompletionTracker sourceID next =
     (if sourceID = [] then Inl TrackerSourceRequired
      else if next = 0 then Inl TrackerNextRequired
      else Inr \<lparr> tr_sourceID = sourceID, tr_next = next, tr_completed = Map.empty, tr_exhausted = False \<rparr>)"

definition extend_candidate ::
  "string \<Rightarrow> checkpointCandidate option \<Rightarrow> u64 \<Rightarrow> SourcePosition \<Rightarrow> checkpoint_error + checkpointCandidate" where
  "extend_candidate sourceID candidate next position =
     (let c = (case candidate of
                 None \<Rightarrow> \<lparr> cc_SourceID = sourceID, cc_ThroughSequence = next, cc_Position = position, cc_FileRanges = [] \<rparr>
               | Some c \<Rightarrow> c\<lparr>cc_ThroughSequence := next, cc_Position := position\<rparr>)
      in case SourcePosition_File position of
           None \<Rightarrow> Inr c
         | Some file \<Rightarrow>
             (case mergeFileRanges (cc_FileRanges c) [file] of
                Inl e \<Rightarrow> Inl e
              | Inr rs \<Rightarrow> Inr (c\<lparr>cc_FileRanges := rs\<rparr>)))"

function scan_completed ::
  "string \<Rightarrow> (u64 \<rightharpoonup> SourcePosition) \<Rightarrow> u64 \<Rightarrow> checkpointCandidate option
     \<Rightarrow> checkpoint_error + checkpointCandidate option" where
  "scan_completed sourceID completed next candidate =
     (case completed next of
        None \<Rightarrow> Inr candidate
      | Some position \<Rightarrow>
          (case extend_candidate sourceID candidate next position of
             Inl e \<Rightarrow> Inl e
           | Inr c \<Rightarrow>
               if next = MaxUint64 then Inr (Some c)
               else scan_completed sourceID completed (next + 1) (Some c)))"
  by pat_completeness auto
termination
proof (relation "measure (\<lambda>(_, _, next, _). 2 ^ 64 - unat next)")
  fix s :: string and completed :: "u64 \<rightharpoonup> SourcePosition" and "next" :: u64 and cand c x
  assume "next \<noteq> MaxUint64"
  then have "unat (next + 1) = Suc (unat next)" by (simp add: unat_inc MaxUint64_def)
  moreover have "unat next < 2 ^ 64" using unsigned_less [of "next", where 'a = nat] by simp
  ultimately show "((s, completed, next + 1, Some c), (s, completed, next, cand))
      \<in> measure (\<lambda>(_, _, next, _). 2 ^ 64 - unat next)" by simp
qed simp

declare scan_completed.simps [simp del]

text \<open>The second loop removes what the candidate covers and moves \<^verbatim>\<open>next\<close> past it.\<close>

function advance :: "CompletionTracker \<Rightarrow> u64 \<Rightarrow> CompletionTracker" where
  "advance t through =
     (let t' = t\<lparr>tr_completed := (tr_completed t)(tr_next t := None)\<rparr> in
      if tr_next t = MaxUint64 then t'\<lparr>tr_exhausted := True\<rparr>
      else let t'' = t'\<lparr>tr_next := tr_next t + 1\<rparr> in
           if through < tr_next t'' then t'' else advance t'' through)"
  by pat_completeness auto
termination
proof (relation "measure (\<lambda>(t, _). 2 ^ 64 - unat (tr_next t))"; clarsimp)
  fix t :: "'a CompletionTracker_scheme"
  assume "tr_next t \<noteq> MaxUint64"
  then have "unat (tr_next t + 1) = Suc (unat (tr_next t))" by (simp add: unat_inc MaxUint64_def)
  moreover have "unat (tr_next t) < 2 ^ 64" using unsigned_less [of "tr_next t", where 'a = nat] by simp
  ultimately show "18446744073709551616 - unat (tr_next t + 1) < 18446744073709551616 - unat (tr_next t)" by simp
qed

declare advance.simps [simp del]

definition Mark ::
  "CompletionTracker \<Rightarrow> DurableCompletion
     \<Rightarrow> CompletionTracker \<times> (checkpoint_error + checkpointCandidate option)" where
  "Mark t completion =
     (if dc_SourceID completion \<noteq> tr_sourceID t then (t, Inl CompletionSourceMismatch)
      else if \<not> ValidDeliveryID (dc_DeliveryID completion) \<or> dc_Sequence completion = 0
              \<or> \<not> SourcePosition_Valid (dc_Position completion)
      then (t, Inl InvalidDurableCompletion)
      else if tr_exhausted t then (t, Inl SequenceSpaceExhausted)
      else if dc_Sequence completion < tr_next t then (t, Inr None)
      else (case tr_completed t (dc_Sequence completion) of
         Some existing \<Rightarrow>
           (t, if existing \<noteq> dc_Position completion then Inl (ConflictingPositions (dc_Sequence completion))
               else Inr None)
       | None \<Rightarrow>
         (let t' = t\<lparr>tr_completed := (tr_completed t)(dc_Sequence completion \<mapsto> dc_Position completion)\<rparr> in
          case scan_completed (tr_sourceID t) (tr_completed t') (tr_next t) None of
            Inl e \<Rightarrow> (t', Inl e)
          | Inr None \<Rightarrow> (t', Inr None)
          | Inr (Some candidate) \<Rightarrow> (advance t' (cc_ThroughSequence candidate), Inr (Some candidate)))))"

section \<open>The checkpoint manager\<close>

text \<open>
  The store is \<^verbatim>\<open>checkpointStore\<close>; only whether a save succeeds matters here. \<open>cm_flushing\<close> is the
  local copy of \<^verbatim>\<open>pending\<close> while a flush holds \<^verbatim>\<open>flushMu\<close>, and \<open>cm_saved\<close> records the saves that
  succeeded, in order.
\<close>

record CheckpointManager =
  cm_tracker :: CompletionTracker
  cm_pending :: "checkpointCandidate option"
  cm_invalid :: "checkpoint_error option"
  cm_flushing :: "checkpointCandidate option"
  cm_saved :: "checkpointCandidate list"

definition NewCheckpointManager :: "CompletionTracker \<Rightarrow> CheckpointManager" where
  "NewCheckpointManager t =
     \<lparr> cm_tracker = t, cm_pending = None, cm_invalid = None, cm_flushing = None, cm_saved = [] \<rparr>"

text \<open>\<^verbatim>\<open>Complete\<close> up to its call of \<^verbatim>\<open>Flush\<close>: the section under the mutex.\<close>

definition Complete_mark :: "CheckpointManager \<Rightarrow> DurableCompletion \<Rightarrow> CheckpointManager \<times> checkpoint_error option" where
  "Complete_mark m completion =
     (case cm_invalid m of
        Some e \<Rightarrow> (m, Some e)
      | None \<Rightarrow>
        (case Mark (cm_tracker m) completion of
           (t, Inl e) \<Rightarrow> (m\<lparr>cm_tracker := t, cm_invalid := Some e\<rparr>, Some e)
         | (t, Inr None) \<Rightarrow> (m\<lparr>cm_tracker := t\<rparr>, None)
         | (t, Inr (Some candidate)) \<Rightarrow>
             (case cm_pending m of
                None \<Rightarrow> (m\<lparr>cm_tracker := t, cm_pending := Some candidate\<rparr>, None)
              | Some p \<Rightarrow>
                  (case mergeFileRanges (cc_FileRanges p) (cc_FileRanges candidate) of
                     Inl e \<Rightarrow> (m\<lparr>cm_tracker := t, cm_invalid := Some e\<rparr>, Some e)
                   | Inr rs \<Rightarrow>
                       (m\<lparr>cm_tracker := t, cm_pending := Some (candidate\<lparr>cc_FileRanges := rs\<rparr>)\<rparr>, None)))))"

definition Flush_begin :: "CheckpointManager \<Rightarrow> CheckpointManager" where
  "Flush_begin m =
     (if cm_flushing m \<noteq> None \<or> cm_invalid m \<noteq> None then m
      else m\<lparr>cm_flushing := cm_pending m\<rparr>)"

definition Flush_end :: "CheckpointManager \<Rightarrow> bool \<Rightarrow> CheckpointManager" where
  "Flush_end m saved =
     (case cm_flushing m of
        None \<Rightarrow> m
      | Some p \<Rightarrow>
          if \<not> saved then m\<lparr>cm_flushing := None\<rparr>
          else m\<lparr>cm_flushing := None, cm_saved := cm_saved m @ [p],
                 cm_pending := (case cm_pending m of
                                  Some q \<Rightarrow> if cc_ThroughSequence q = cc_ThroughSequence p then None else Some q
                                | None \<Rightarrow> None)\<rparr>)"

datatype checkpoint_event =
    EvComplete DurableCompletion
  | EvFlushBegin
  | EvFlushEnd bool

fun checkpoint_step :: "CheckpointManager \<Rightarrow> checkpoint_event \<Rightarrow> CheckpointManager" where
  "checkpoint_step m (EvComplete c) = fst (Complete_mark m c)"
| "checkpoint_step m EvFlushBegin = Flush_begin m"
| "checkpoint_step m (EvFlushEnd ok) = Flush_end m ok"

definition checkpoint_run :: "CheckpointManager \<Rightarrow> checkpoint_event list \<Rightarrow> CheckpointManager" where
  "checkpoint_run m es = foldl checkpoint_step m es"

section \<open>The loops\<close>

lemma u64_interval_step:
  "(n :: u64) \<noteq> MaxUint64 \<Longrightarrow> n \<le> s \<longleftrightarrow> s = n \<or> n + 1 \<le> s"
  "(n :: u64) \<noteq> MaxUint64 \<Longrightarrow> n < n + 1"
  "(n :: u64) \<noteq> MaxUint64 \<Longrightarrow> s < n + 1 \<longleftrightarrow> s \<le> n"
  using unat_inc [of n] by (auto simp: MaxUint64_def word_le_nat_alt word_less_nat_alt word_unat_eq_iff)

lemma u64_le_max [simp]: "(s :: u64) \<le> MaxUint64"
  by (simp add: MaxUint64_def)

lemma u64_max_le [simp]: "MaxUint64 \<le> (s :: u64) \<longleftrightarrow> s = MaxUint64"
  using order.antisym [OF u64_le_max] by auto

lemma u64_cap:
  assumes "p \<le> (q :: u64)" and "q \<noteq> MaxUint64"
  shows "p \<noteq> MaxUint64 \<and> p < q + 1"
proof -
  have "p \<noteq> MaxUint64" using assms u64_max_le [of q] by blast
  moreover have "p < q + 1" using assms u64_interval_step(3) [OF assms(2), of p] by blast
  ultimately show ?thesis by blast
qed

definition run_to :: "(u64 \<rightharpoonup> 'a) \<Rightarrow> u64 \<Rightarrow> u64 \<Rightarrow> bool" where
  "run_to C n k \<longleftrightarrow> n \<le> k \<and> (\<forall>s. n \<le> s \<and> s \<le> k \<longrightarrow> C s \<noteq> None) \<and> (k = MaxUint64 \<or> C (k + 1) = None)"

lemma run_to_step:
  assumes "n \<noteq> MaxUint64" and "C n \<noteq> None" and "run_to C (n + 1) k"
  shows "run_to C n k"
  using assms u64_interval_step [OF assms(1)] by (auto simp: run_to_def)

lemma extend_candidate_through:
  "extend_candidate src cand n p = Inr c \<Longrightarrow> cc_ThroughSequence c = n \<and> cc_Position c = p"
  by (auto simp: extend_candidate_def Let_def split: option.splits sum.splits)

lemma scan_completed_spec:
  "scan_completed src C n cand = Inr r \<Longrightarrow>
     (if C n = None then r = cand
      else \<exists>c. r = Some c \<and> run_to C n (cc_ThroughSequence c) \<and> C (cc_ThroughSequence c) = Some (cc_Position c))"
proof (induction src C n cand rule: scan_completed.induct)
  case (1 src C n cand)
  show ?case
  proof (cases "C n")
    case None
    then show ?thesis using "1.prems" by (simp add: scan_completed.simps [of src C n])
  next
    case (Some p)
    then obtain c where c: "extend_candidate src cand n p = Inr c"
      using "1.prems" by (cases "extend_candidate src cand n p") (simp_all add: scan_completed.simps [of src C n])
    note through = extend_candidate_through [OF c]
    show ?thesis
    proof (cases "n = MaxUint64")
      case True
      then have "r = Some c" using "1.prems" Some c by (simp add: scan_completed.simps [of src C MaxUint64])
      then show ?thesis using through True Some by (auto simp: run_to_def)
    next
      case False
      have rec: "scan_completed src C (n + 1) (Some c) = Inr r"
        using "1.prems" Some c False by (simp add: scan_completed.simps [of src C n])
      note ih = "1.IH" [OF Some c False rec]
      show ?thesis
      proof (cases "C (n + 1)")
        case None
        then have "r = Some c" using ih by simp
        moreover have "run_to C n n" using Some None by (auto simp: run_to_def)
        ultimately show ?thesis using through Some by simp
      next
        case (Some q)
        then show ?thesis using ih run_to_step [OF False, of C] \<open>C n = Some p\<close> by auto
      qed
    qed
  qed
qed

definition forget :: "u64 \<Rightarrow> u64 \<Rightarrow> (u64 \<rightharpoonup> 'a) \<Rightarrow> (u64 \<rightharpoonup> 'a)" where
  "forget lo hi C = (\<lambda>s. if lo \<le> s \<and> s \<le> hi then None else C s)"

lemma forget_same: "forget n n C = C(n := None)"
proof
  show "forget n n C s = (C(n := None)) s" for s
  proof (cases "s = n")
    case False
    then have "\<not> (n \<le> s \<and> s \<le> n)" using order.antisym by blast
    then have "forget n n C s = C s" unfolding forget_def by (rule if_not_P)
    with False show ?thesis by simp
  qed (simp add: forget_def)
qed

lemma forget_step:
  assumes "n \<noteq> MaxUint64" and "n \<le> k"
  shows "forget (n + 1) k (C(n := None)) = forget n k C"
proof
  show "forget (n + 1) k (C(n := None)) s = forget n k C s" for s
  proof (cases "s = n")
    case True
    then show ?thesis using assms(2) by (simp add: forget_def)
  next
    case False
    then show ?thesis using u64_interval_step(1) [OF assms(1), of s] by (simp add: forget_def)
  qed
qed

lemma advance_spec:
  "tr_next t \<le> k \<Longrightarrow> advance t k =
     t\<lparr>tr_completed := forget (tr_next t) k (tr_completed t),
       tr_next := (if k = MaxUint64 then k else k + 1),
       tr_exhausted := (tr_exhausted t \<or> k = MaxUint64)\<rparr>" for t :: CompletionTracker
proof (induction t k rule: advance.induct)
  case (1 t k)
  show ?case
  proof (cases "tr_next t = MaxUint64")
    case True
    then have "k = MaxUint64" using "1.prems" by simp
    then show ?thesis using True by (subst advance.simps) (simp add: Let_def forget_same)
  next
    case False
    let ?t = "t\<lparr>tr_completed := (tr_completed t)(tr_next t := None), tr_next := tr_next t + 1\<rparr>"
    note step = u64_interval_step [OF False]
    show ?thesis
    proof (cases "k < tr_next t + 1")
      case True
      then have k: "k = tr_next t" using order.antisym [OF _ "1.prems"] step(3) by blast
      then show ?thesis using False step(2) by (subst advance.simps) (simp add: Let_def forget_same)
    next
      case less: False
      have rec: "advance t k = advance ?t k" using False less by (subst advance.simps) (simp add: Let_def)
      have "advance ?t k = ?t
         \<lparr>tr_completed := forget (tr_next ?t) k (tr_completed ?t),
          tr_next := (if k = MaxUint64 then k else k + 1),
          tr_exhausted := (tr_exhausted ?t \<or> k = MaxUint64)\<rparr>"
        by (rule "1.IH" [OF refl False refl]) (use less in simp_all)
      also have "\<dots> = t
         \<lparr>tr_completed := forget (tr_next t + 1) k ((tr_completed t)(tr_next t := None)),
          tr_next := (if k = MaxUint64 then k else k + 1),
          tr_exhausted := (tr_exhausted t \<or> k = MaxUint64)\<rparr>"
        by (simp del: fun_upd_apply)
      finally show ?thesis unfolding rec forget_step [OF False "1.prems"] .
    qed
  qed
qed

section \<open>The tracker over a history of completions\<close>

definition tracker_inv :: "u64 \<Rightarrow> u64 set \<Rightarrow> CompletionTracker \<Rightarrow> bool" where
  "tracker_inv start D t \<longleftrightarrow>
     start \<le> tr_next t
     \<and> (\<forall>s. start \<le> s \<and> (s < tr_next t \<or> tr_exhausted t) \<longrightarrow> s \<in> D)
     \<and> (\<forall>s. tr_completed t s \<noteq> None \<longrightarrow> s \<in> D \<and> tr_next t < s)
     \<and> (\<not> tr_exhausted t \<longrightarrow> (\<forall>s\<in>D. tr_next t \<le> s \<longrightarrow> tr_completed t s \<noteq> None))"

definition acceptable_completion :: "string \<Rightarrow> DurableCompletion \<Rightarrow> bool" where
  "acceptable_completion src c \<longleftrightarrow>
     dc_SourceID c = src \<and> ValidDeliveryID (dc_DeliveryID c) \<and> dc_Sequence c \<noteq> 0 \<and> SourcePosition_Valid (dc_Position c)"

lemma tracker_inv_record:
  assumes inv: "tracker_inv start D t" and ex: "\<not> tr_exhausted t" and n: "tr_next t < n"
  shows "tracker_inv start (insert n D) (t\<lparr>tr_completed := (tr_completed t)(n \<mapsto> p)\<rparr>)"
  using assms by (auto simp: tracker_inv_def)

lemma tracker_inv_advance:
  assumes inv: "tracker_inv start D t" and ex: "\<not> tr_exhausted t" and n: "tr_next t \<le> n"
    and run: "run_to ((tr_completed t)(n \<mapsto> p)) (tr_next t) k"
  shows "tracker_inv start (insert n D) (advance (t\<lparr>tr_completed := (tr_completed t)(n \<mapsto> p)\<rparr>) k)"
proof -
  define C where "C = (tr_completed t)(n \<mapsto> p)"
  let ?D = "insert n D"
  have base: "start \<le> tr_next t" "\<And>s. start \<le> s \<Longrightarrow> s < tr_next t \<Longrightarrow> s \<in> D"
    "\<And>s. tr_completed t s \<noteq> None \<Longrightarrow> s \<in> D \<and> tr_next t < s"
    "\<And>s. s \<in> D \<Longrightarrow> tr_next t \<le> s \<Longrightarrow> tr_completed t s \<noteq> None"
    using inv ex by (simp_all add: tracker_inv_def)
  have le: "tr_next t \<le> k" and all: "\<And>s. tr_next t \<le> s \<Longrightarrow> s \<le> k \<Longrightarrow> C s \<noteq> None"
    and stop: "k = MaxUint64 \<or> C (k + 1) = None"
    using run by (simp_all add: run_to_def C_def)
  have CD: "C s \<noteq> None \<Longrightarrow> s \<in> ?D \<and> tr_next t \<le> s" for s
    using base(3) [of s] n unfolding C_def by (cases "s = n") (simp_all add: order.strict_implies_order)
  have DC: "s \<in> ?D \<Longrightarrow> tr_next t \<le> s \<Longrightarrow> C s \<noteq> None" for s
    using base(4) [of s] unfolding C_def by (cases "s = n") simp_all
  have covered: "s \<in> ?D" if "start \<le> s" "s \<le> k" for s
    using that base(2) CD all by (metis insertCI not_le)
  have adv: "advance (t\<lparr>tr_completed := C\<rparr>) k =
      t\<lparr>tr_completed := forget (tr_next t) k C,
        tr_next := (if k = MaxUint64 then k else k + 1), tr_exhausted := (tr_exhausted t \<or> k = MaxUint64)\<rparr>"
    using le by (simp add: advance_spec)
  have "tracker_inv start ?D (advance (t\<lparr>tr_completed := C\<rparr>) k)"
  proof (cases "k = MaxUint64")
    case True
    have "forget (tr_next t) k C s = None" for s
      using CD [of s] True by (cases "C s") (auto simp: forget_def)
    then show ?thesis unfolding adv using True base(1) covered by (simp add: tracker_inv_def)
  next
    case kfin: False
    note step = u64_interval_step [OF kfin]
    have k1: "k < k + 1" by (rule step(2))
    have "start \<le> k + 1" using base(1) le k1 by (meson order.trans order.strict_implies_order)
    moreover have "s \<in> ?D" if "start \<le> s" "s < k + 1" for s
      using that covered step(3) by blast
    moreover have "s \<in> ?D \<and> k + 1 < s" if "forget (tr_next t) k C s \<noteq> None" for s
    proof -
      have out: "\<not> (tr_next t \<le> s \<and> s \<le> k)" and c: "C s \<noteq> None"
        using that by (auto simp: forget_def split: if_splits)
      have "k < s" using out CD [OF c] by (meson not_le)
      moreover have "s \<noteq> k + 1" using stop kfin c by auto
      ultimately have "k + 1 < s" using step(1) [of s] by (metis order.strict_iff_order)
      then show ?thesis using CD [OF c] by blast
    qed
    moreover have "forget (tr_next t) k C s \<noteq> None" if "s \<in> ?D" "k + 1 \<le> s" for s
    proof -
      have "k < s" using that(2) k1 by (rule less_le_trans [rotated])
      then have "\<not> s \<le> k" "tr_next t \<le> s" using le by (simp_all add: not_le order.strict_implies_order order.strict_trans1)
      then show ?thesis using DC [OF that(1)] by (simp add: forget_def)
    qed
    ultimately show ?thesis unfolding adv using ex kfin by (simp add: tracker_inv_def)
  qed
  then show ?thesis unfolding C_def .
qed

definition mark_moves :: "CompletionTracker \<Rightarrow> CompletionTracker \<Rightarrow> checkpointCandidate option \<Rightarrow> bool" where
  "mark_moves t t' r \<longleftrightarrow>
     (case r of
        None \<Rightarrow> tr_next t' = tr_next t \<and> tr_exhausted t' = tr_exhausted t
      | Some k \<Rightarrow> \<not> tr_exhausted t \<and> tr_next t \<le> cc_ThroughSequence k
          \<and> (if cc_ThroughSequence k = MaxUint64 then tr_exhausted t'
             else \<not> tr_exhausted t' \<and> tr_next t' = cc_ThroughSequence k + 1))"

lemma Mark_ok:
  assumes "Mark t c = (t', Inr r)"
  shows "acceptable_completion (tr_sourceID t) c \<and> \<not> tr_exhausted t"
  using assms by (auto simp: Mark_def acceptable_completion_def split: if_splits)

lemma Mark_inv:
  assumes inv: "tracker_inv start D t" and m: "Mark t c = (t', Inr r)"
  shows "tracker_inv start (insert (dc_Sequence c) D) t' \<and> tr_sourceID t' = tr_sourceID t \<and> mark_moves t t' r"
proof -
  let ?s = "dc_Sequence c"
  have ok: "dc_SourceID c = tr_sourceID t" "ValidDeliveryID (dc_DeliveryID c)" "?s \<noteq> 0"
    "SourcePosition_Valid (dc_Position c)" "\<not> tr_exhausted t"
    using Mark_ok [OF m] by (auto simp: acceptable_completion_def)
  show ?thesis
  proof (cases "?s < tr_next t \<or> tr_completed t ?s \<noteq> None")
    case True
    then have "t' = t" "r = None" using m ok by (auto simp: Mark_def split: if_splits)
    moreover have "tracker_inv start (insert ?s D) t"
      using inv True ok(5) by (auto simp: tracker_inv_def not_less)
    ultimately show ?thesis by (simp add: mark_moves_def)
  next
    case False
    let ?C = "(tr_completed t)(?s \<mapsto> dc_Position c)"
    let ?t = "t\<lparr>tr_completed := ?C\<rparr>"
    obtain q where scan: "scan_completed (tr_sourceID t) ?C (tr_next t) None = Inr q"
      using m ok False by (cases "scan_completed (tr_sourceID t) ?C (tr_next t) None") (auto simp: Mark_def Let_def)
    have res: "r = q" "t' = (case q of None \<Rightarrow> ?t | Some k \<Rightarrow> advance ?t (cc_ThroughSequence k))"
      using m ok False scan by (auto simp: Mark_def Let_def split: option.splits)
    show ?thesis
    proof (cases q)
      case None
      then have "?C (tr_next t) = None"
        using scan_completed_spec [OF scan] by (cases "?C (tr_next t) = None") auto
      then have "tr_next t < ?s" using False by (auto simp: less_le not_less split: if_splits)
      then show ?thesis using tracker_inv_record [OF inv ok(5)] res None by (simp add: mark_moves_def)
    next
      case (Some k)
      then have run: "run_to ?C (tr_next t) (cc_ThroughSequence k)"
        using scan_completed_spec [OF scan] by (auto split: if_splits)
      then have le: "tr_next t \<le> cc_ThroughSequence k" by (simp add: run_to_def)
      have "tracker_inv start (insert ?s D) t'"
        using tracker_inv_advance [OF inv ok(5) _ run] False res(2) Some by (simp add: not_less)
      then show ?thesis using res Some le ok(5) by (simp add: mark_moves_def advance_spec)
    qed
  qed
qed

section \<open>The manager over a history of events\<close>

definition completed_by :: "string \<Rightarrow> checkpoint_event list \<Rightarrow> u64 set" where
  "completed_by src es = {dc_Sequence c | c. EvComplete c \<in> set es \<and> acceptable_completion src c}"

text \<open>A sequence number the tracker has passed.\<close>

definition passed :: "CompletionTracker \<Rightarrow> u64 \<Rightarrow> bool" where
  "passed t n \<longleftrightarrow> n < tr_next t \<or> tr_exhausted t"

definition caught_up :: "u64 \<Rightarrow> CompletionTracker \<Rightarrow> u64 option \<Rightarrow> bool" where
  "caught_up start t n \<longleftrightarrow>
     (case n of
        None \<Rightarrow> tr_next t = start \<and> \<not> tr_exhausted t
      | Some k \<Rightarrow> if k = MaxUint64 then tr_exhausted t else \<not> tr_exhausted t \<and> tr_next t = k + 1)"

definition last_saved :: "CheckpointManager \<Rightarrow> u64 option" where
  "last_saved m = (if cm_saved m = [] then None else Some (cc_ThroughSequence (last (cm_saved m))))"

definition frontier :: "CheckpointManager \<Rightarrow> u64 option" where
  "frontier m = (case cm_pending m of Some p \<Rightarrow> Some (cc_ThroughSequence p) | None \<Rightarrow> last_saved m)"

definition below :: "u64 option \<Rightarrow> u64 option \<Rightarrow> bool" where
  "below a b \<longleftrightarrow> (case (a, b) of (Some x, Some y) \<Rightarrow> x < y | _ \<Rightarrow> True)"

definition manager_inv :: "string \<Rightarrow> u64 \<Rightarrow> u64 set \<Rightarrow> CheckpointManager \<Rightarrow> bool" where
  "manager_inv src start D m \<longleftrightarrow>
     tr_sourceID (cm_tracker m) = src
     \<and> sorted_wrt (\<lambda>a b. cc_ThroughSequence a < cc_ThroughSequence b) (cm_saved m)
     \<and> (\<forall>c\<in>set (cm_saved m). start \<le> cc_ThroughSequence c \<and> passed (cm_tracker m) (cc_ThroughSequence c))
     \<and> (\<forall>s. start \<le> s \<and> passed (cm_tracker m) s \<longrightarrow> s \<in> D)
     \<and> start \<le> tr_next (cm_tracker m)
     \<and> (\<forall>p. cm_pending m = Some p \<longrightarrow> start \<le> cc_ThroughSequence p
            \<and> below (last_saved m) (Some (cc_ThroughSequence p)))
     \<and> (\<forall>f. cm_flushing m = Some f \<longrightarrow> start \<le> cc_ThroughSequence f
            \<and> below (last_saved m) (Some (cc_ThroughSequence f))
            \<and> (\<exists>p. cm_pending m = Some p \<and> cc_ThroughSequence f \<le> cc_ThroughSequence p))
     \<and> (cm_invalid m = None \<longrightarrow> tracker_inv start D (cm_tracker m)
          \<and> caught_up start (cm_tracker m) (frontier m))
     \<and> (\<forall>p. cm_pending m = Some p \<longrightarrow> passed (cm_tracker m) (cc_ThroughSequence p))"

lemma last_saved_simps [simp]:
  "last_saved (m\<lparr>cm_tracker := t\<rparr>) = last_saved m" "last_saved (m\<lparr>cm_invalid := e\<rparr>) = last_saved m"
  "last_saved (m\<lparr>cm_pending := p\<rparr>) = last_saved m" "last_saved (m\<lparr>cm_flushing := p\<rparr>) = last_saved m"
  "last_saved (m\<lparr>cm_saved := xs @ [f]\<rparr>) = Some (cc_ThroughSequence f)"
  by (simp_all add: last_saved_def)

lemma frontier_simps [simp]:
  "frontier (m\<lparr>cm_tracker := t\<rparr>) = frontier m" "frontier (m\<lparr>cm_invalid := e\<rparr>) = frontier m"
  "frontier (m\<lparr>cm_flushing := p\<rparr>) = frontier m" "frontier (m\<lparr>cm_pending := Some q\<rparr>) = Some (cc_ThroughSequence q)"
  "frontier (m\<lparr>cm_pending := None\<rparr>) = last_saved m"
  "cm_pending m = Some q \<Longrightarrow> frontier m = Some (cc_ThroughSequence q)"
  by (simp_all add: frontier_def split: option.split)

lemma manager_inv_mono: "manager_inv src start D m \<Longrightarrow> cm_invalid m \<noteq> None \<Longrightarrow> D \<subseteq> D' \<Longrightarrow> manager_inv src start D' m"
  by (auto simp: manager_inv_def)

lemma Mark_error:
  "Mark t c = (t', Inl e) \<Longrightarrow> tr_next t' = tr_next t \<and> tr_exhausted t' = tr_exhausted t \<and> tr_sourceID t' = tr_sourceID t"
  by (auto simp: Mark_def Let_def split: if_splits option.splits sum.splits)

lemma passed_mono:
  "mark_moves t t' r \<Longrightarrow> passed t n \<Longrightarrow> passed t' n"
  "mark_moves t t' (Some k) \<Longrightarrow> passed t' (cc_ThroughSequence k)"
  "mark_moves t t' (Some k) \<Longrightarrow> passed t n \<Longrightarrow> n < cc_ThroughSequence k"
proof -
  show "passed t' n" if m: "mark_moves t t' r" and n: "passed t n"
  proof (cases r)
    case None
    then show ?thesis using m n by (simp add: mark_moves_def passed_def)
  next
    case (Some k)
    have "n < tr_next t" "tr_next t \<le> cc_ThroughSequence k" using m n Some by (auto simp: mark_moves_def passed_def)
    then have "n \<le> cc_ThroughSequence k" by simp
    then show ?thesis
      using m Some u64_cap [of n "cc_ThroughSequence k"] by (auto simp: mark_moves_def passed_def split: if_splits)
  qed
  show "passed t' (cc_ThroughSequence k)" if "mark_moves t t' (Some k)"
    using that u64_interval_step(2) [of "cc_ThroughSequence k"] by (auto simp: mark_moves_def passed_def split: if_splits)
  show "n < cc_ThroughSequence k" if "mark_moves t t' (Some k)" "passed t n"
    using that by (auto simp: mark_moves_def passed_def)
qed

lemma saved_below:
  assumes "manager_inv src start D m" and "\<And>n. passed (cm_tracker m) n \<Longrightarrow> n < k"
  shows "below (last_saved m) (Some k)"
  using assms last_in_set [of "cm_saved m"] by (auto simp: below_def last_saved_def manager_inv_def)

lemma tracker_inv_passed: "tracker_inv start D t \<Longrightarrow> start \<le> s \<Longrightarrow> passed t s \<Longrightarrow> s \<in> D"
  by (auto simp: tracker_inv_def passed_def)

lemma tracker_inv_start: "tracker_inv start D t \<Longrightarrow> start \<le> tr_next t"
  by (simp add: tracker_inv_def)

lemma manager_inv_tracker_error:
  assumes inv: "manager_inv src start D m" and "D \<subseteq> D'"
    and t: "tr_sourceID t = src" "start \<le> tr_next t" "\<And>n. passed (cm_tracker m) n \<Longrightarrow> passed t n"
      "\<And>n. start \<le> n \<Longrightarrow> passed t n \<Longrightarrow> n \<in> D'"
  shows "manager_inv src start D' (m\<lparr>cm_tracker := t, cm_invalid := Some e\<rparr>)"
  using inv t by (simp add: manager_inv_def)

lemma Complete_mark_inv:
  assumes inv: "manager_inv src start D m"
  shows "manager_inv src start (if acceptable_completion src c then insert (dc_Sequence c) D else D)
           (fst (Complete_mark m c))"
proof (cases "cm_invalid m")
  case (Some e)
  then show ?thesis using manager_inv_mono [OF inv] by (auto simp: Complete_mark_def)
next
  case None
  have src: "tr_sourceID (cm_tracker m) = src" using inv by (simp add: manager_inv_def)
  have ti: "tracker_inv start D (cm_tracker m)" using inv None by (simp add: manager_inv_def)
  let ?D = "if acceptable_completion src c then insert (dc_Sequence c) D else D"
  obtain t q where q: "Mark (cm_tracker m) c = (t, q)" by (metis prod.exhaust)
  show ?thesis
  proof (cases q)
    case (Inl e)
    note err = Mark_error [OF q [unfolded Inl]]
    have "manager_inv src start ?D (m\<lparr>cm_tracker := t, cm_invalid := Some e\<rparr>)"
      using inv err src tracker_inv_passed [OF ti] tracker_inv_start [OF ti]
      by (intro manager_inv_tracker_error) (auto simp: passed_def)
    then show ?thesis using None q Inl by (simp add: Complete_mark_def)
  next
    case (Inr r)
    note ok = Mark_inv [OF ti q [unfolded Inr]]
    have D: "?D = insert (dc_Sequence c) D" using Mark_ok [OF q [unfolded Inr]] src by simp
    have ti': "tracker_inv start ?D t" and mv: "mark_moves (cm_tracker m) t r" and src': "tr_sourceID t = src"
      using ok src D by auto
    note pass = passed_mono(1) [OF mv]
    have common: "start \<le> tr_next t" "\<And>n. start \<le> n \<Longrightarrow> passed t n \<Longrightarrow> n \<in> ?D"
      using tracker_inv_start [OF ti'] tracker_inv_passed [OF ti'] by blast+
    show ?thesis
    proof (cases r)
      case rn: None
      have cu: "caught_up start t x = caught_up start (cm_tracker m) x" for x
        using mv rn by (simp add: mark_moves_def caught_up_def split: option.split)
      have "manager_inv src start ?D (m\<lparr>cm_tracker := t\<rparr>)"
        using inv None src' common ti' pass cu by (simp add: manager_inv_def)
      then show ?thesis using None q Inr rn by (simp add: Complete_mark_def)
    next
      case (Some k)
      let ?k = "cc_ThroughSequence k"
      have kp: "passed t ?k" and above: "\<And>n. passed (cm_tracker m) n \<Longrightarrow> n < ?k"
        using passed_mono(2) passed_mono(3) mv Some by blast+
      have ks: "start \<le> ?k" using mv Some inv by (auto simp: mark_moves_def manager_inv_def)
      have kc: "caught_up start t (Some ?k)" using mv Some by (auto simp: mark_moves_def caught_up_def)
      have new: "manager_inv src start ?D (m\<lparr>cm_tracker := t, cm_pending := Some k'\<rparr>)"
        if "cc_ThroughSequence k' = ?k" for k'
        using inv None that src' common ti' pass kp ks kc saved_below [OF inv above] above
        by (auto simp: manager_inv_def) (meson order.trans order.strict_implies_order)+
      have bad: "manager_inv src start ?D (m\<lparr>cm_tracker := t, cm_invalid := Some e\<rparr>)" for e
        using inv src' common pass by (intro manager_inv_tracker_error) auto
      show ?thesis
        using None q Inr Some new bad
        by (auto simp: Complete_mark_def split: option.split sum.split)
    qed
  qed
qed

lemma Flush_begin_inv: "manager_inv src start D m \<Longrightarrow> manager_inv src start D (Flush_begin m)"
  by (auto simp: Flush_begin_def manager_inv_def)

lemma sorted_wrt_last: "sorted_wrt P xs \<Longrightarrow> a \<in> set xs \<Longrightarrow> a = last xs \<or> P a (last xs)"
  by (cases xs rule: rev_cases) (auto simp: sorted_wrt_append)

lemma Flush_end_inv:
  assumes inv: "manager_inv src start D m" shows "manager_inv src start D (Flush_end m ok)"
proof (cases "cm_flushing m")
  case None
  then show ?thesis using inv by (simp add: Flush_end_def)
next
  case (Some f)
  then obtain p where p: "cm_pending m = Some p" "cc_ThroughSequence f \<le> cc_ThroughSequence p"
    and f: "start \<le> cc_ThroughSequence f" "below (last_saved m) (Some (cc_ThroughSequence f))"
    using inv by (auto simp: manager_inv_def)
  have "passed (cm_tracker m) (cc_ThroughSequence p)" using inv p by (simp add: manager_inv_def)
  then have fp: "passed (cm_tracker m) (cc_ThroughSequence f)"
    unfolding passed_def using le_less_trans [OF p(2)] by blast
  have upto: "cc_ThroughSequence a < cc_ThroughSequence f" if "a \<in> set (cm_saved m)" for a
  proof -
    have "sorted_wrt (\<lambda>a b. cc_ThroughSequence a < cc_ThroughSequence b) (cm_saved m)"
      using inv by (simp add: manager_inv_def)
    from sorted_wrt_last [OF this that]
    have "a = last (cm_saved m) \<or> cc_ThroughSequence a < cc_ThroughSequence (last (cm_saved m))" .
    moreover have "cc_ThroughSequence (last (cm_saved m)) < cc_ThroughSequence f"
      using f(2) that by (auto simp: below_def last_saved_def split: if_splits)
    ultimately show ?thesis by auto
  qed
  show ?thesis
  proof (cases ok)
    case False
    then show ?thesis using inv Some by (simp add: Flush_end_def manager_inv_def)
  next
    case True
    let ?m = "m\<lparr>cm_flushing := None, cm_saved := cm_saved m @ [f]\<rparr>"
    have parts: "tr_sourceID (cm_tracker m) = src"
      "sorted_wrt (\<lambda>a b. cc_ThroughSequence a < cc_ThroughSequence b) (cm_saved m)"
      "\<forall>c\<in>set (cm_saved m). start \<le> cc_ThroughSequence c \<and> passed (cm_tracker m) (cc_ThroughSequence c)"
      "\<forall>s. start \<le> s \<and> passed (cm_tracker m) s \<longrightarrow> s \<in> D" "start \<le> tr_next (cm_tracker m)"
      "start \<le> cc_ThroughSequence p" "passed (cm_tracker m) (cc_ThroughSequence p)"
      "cm_invalid m = None \<longrightarrow> tracker_inv start D (cm_tracker m)
         \<and> caught_up start (cm_tracker m) (Some (cc_ThroughSequence p))"
      using inv p by (simp_all add: manager_inv_def)
    have sorted: "sorted_wrt (\<lambda>a b. cc_ThroughSequence a < cc_ThroughSequence b) (cm_saved m @ [f])"
      using parts(2) upto by (simp add: sorted_wrt_append)
    show ?thesis
    proof (cases "cc_ThroughSequence p = cc_ThroughSequence f")
      case eq: True
      have "Flush_end m ok = ?m\<lparr>cm_pending := None\<rparr>" using Some True p eq by (simp add: Flush_end_def)
      moreover have "manager_inv src start D (?m\<lparr>cm_pending := None\<rparr>)"
        unfolding manager_inv_def using parts sorted f fp eq by simp
      ultimately show ?thesis by simp
    next
      case neq: False
      then have lt: "below (Some (cc_ThroughSequence f)) (Some (cc_ThroughSequence p))"
        using p(2) by (simp add: below_def less_le)
      have "Flush_end m ok = ?m\<lparr>cm_pending := Some p\<rparr>" using Some True p neq by (simp add: Flush_end_def)
      moreover have "manager_inv src start D (?m\<lparr>cm_pending := Some p\<rparr>)"
        unfolding manager_inv_def using parts sorted f fp lt by simp
      ultimately show ?thesis by simp
    qed
  qed
qed

lemma checkpoint_step_inv:
  assumes "manager_inv src start (completed_by src es) m"
  shows "manager_inv src start (completed_by src (es @ [e])) (checkpoint_step m e)"
proof (cases e)
  case (EvComplete c)
  have "completed_by src (es @ [e]) =
      (if acceptable_completion src c then insert (dc_Sequence c) (completed_by src es) else completed_by src es)"
    unfolding completed_by_def EvComplete by auto
  then show ?thesis using Complete_mark_inv [OF assms, of c] EvComplete by simp
next
  case EvFlushBegin
  have "completed_by src (es @ [e]) = completed_by src es" unfolding completed_by_def EvFlushBegin by auto
  then show ?thesis using Flush_begin_inv [OF assms] EvFlushBegin by simp
next
  case (EvFlushEnd ok)
  have "completed_by src (es @ [e]) = completed_by src es" unfolding completed_by_def EvFlushEnd by auto
  then show ?thesis using Flush_end_inv [OF assms] EvFlushEnd by simp
qed

lemma checkpoint_run_inv:
  assumes "NewCompletionTracker src start = Inr t"
  shows "manager_inv src start (completed_by src es) (checkpoint_run (NewCheckpointManager t) es)"
proof (induction es rule: rev_induct)
  case Nil
  have "t = \<lparr> tr_sourceID = src, tr_next = start, tr_completed = Map.empty, tr_exhausted = False \<rparr>"
    using assms by (auto simp: NewCompletionTracker_def split: if_splits)
  then show ?case
    by (auto simp: checkpoint_run_def NewCheckpointManager_def manager_inv_def tracker_inv_def caught_up_def
        frontier_def last_saved_def passed_def completed_by_def)
next
  case (snoc e es)
  then show ?case using checkpoint_step_inv [OF snoc.IH, of e] by (simp add: checkpoint_run_def)
qed

section \<open>Merged ranges\<close>

definition range_bytes :: "string \<Rightarrow> FilePosition list \<Rightarrow> nat set" where
  "range_bytes g fs = (\<Union>f\<in>{f \<in> set fs. fp_Generation f = g}. {unat (fp_StartOffset f)..<unat (fp_EndOffset f)})"

definition ranges_ok :: "FilePosition list \<Rightarrow> bool" where
  "ranges_ok fs \<longleftrightarrow> (\<forall>f\<in>set fs. fp_StartOffset f \<le> fp_EndOffset f)"

lemma gen_index_Some: "gen_index g xs = Some i \<Longrightarrow> i < length xs \<and> fp_Generation (xs ! i) = g"
  by (induction xs arbitrary: i) (auto split: option.splits if_splits)

lemma gen_index_None: "gen_index g xs = None \<longleftrightarrow> g \<notin> fp_Generation ` set xs"
  by (induction xs) (auto split: option.splits)

lemma range_bytes_append: "range_bytes g (xs @ ys) = range_bytes g xs \<union> range_bytes g ys"
  by (auto simp: range_bytes_def)

lemma range_bytes_Cons:
  "range_bytes g (f # fs) =
     (if fp_Generation f = g then {unat (fp_StartOffset f)..<unat (fp_EndOffset f)} else {}) \<union> range_bytes g fs"
  by (auto simp: range_bytes_def)

lemma range_bytes_extend:
  assumes i: "i < length fs" and ok: "ranges_ok fs" "fp_StartOffset f \<le> fp_EndOffset f"
    and same: "fp_Generation (fs ! i) = fp_Generation f" "fp_EndOffset (fs ! i) = fp_StartOffset f"
  shows "range_bytes g (fs[i := (fs ! i)\<lparr>fp_EndOffset := fp_EndOffset f\<rparr>]) = range_bytes g fs \<union> range_bytes g [f]"
    and "ranges_ok (fs[i := (fs ! i)\<lparr>fp_EndOffset := fp_EndOffset f\<rparr>])"
proof -
  let ?x = "fs ! i" and ?a = "take i fs" and ?b = "drop (Suc i) fs"
  have fs: "fs = ?a @ ?x # ?b" using i by (rule id_take_nth_drop)
  have le: "fp_StartOffset ?x \<le> fp_EndOffset ?x" using ok(1) i by (simp add: ranges_ok_def)
  have join: "{unat (fp_StartOffset ?x)..<unat (fp_EndOffset f)} =
      {unat (fp_StartOffset ?x)..<unat (fp_EndOffset ?x)} \<union> {unat (fp_StartOffset f)..<unat (fp_EndOffset f)}"
    using le ok(2) same(2) by (auto simp: word_le_nat_alt)
  have up: "fs[i := ?x\<lparr>fp_EndOffset := fp_EndOffset f\<rparr>] = ?a @ ?x\<lparr>fp_EndOffset := fp_EndOffset f\<rparr> # ?b"
    using i by (rule upd_conv_take_nth_drop)
  have "range_bytes g fs = range_bytes g (?a @ ?x # ?b)" using fs by simp
  then show "range_bytes g (fs[i := ?x\<lparr>fp_EndOffset := fp_EndOffset f\<rparr>]) = range_bytes g fs \<union> range_bytes g [f]"
    unfolding up using join same(1)
    by (cases "fp_Generation f = g") (auto simp: range_bytes_append range_bytes_Cons range_bytes_def [of _ "[]"])
  have "set (fs[i := ?x\<lparr>fp_EndOffset := fp_EndOffset f\<rparr>]) \<subseteq> insert (?x\<lparr>fp_EndOffset := fp_EndOffset f\<rparr>) (set fs)"
    by (rule set_update_subset_insert)
  moreover have "fp_StartOffset ?x \<le> fp_EndOffset f" using le ok(2) same(2) by simp
  ultimately show "ranges_ok (fs[i := ?x\<lparr>fp_EndOffset := fp_EndOffset f\<rparr>])"
    using ok(1) unfolding ranges_ok_def by fastforce
qed

lemma mergeFileRanges_bytes:
  assumes "ranges_ok merged" and "ranges_ok next" and "mergeFileRanges merged next = Inr m"
    and "distinct (map fp_Generation merged)"
  shows "ranges_ok m \<and> distinct (map fp_Generation m)
     \<and> range_bytes g m = range_bytes g merged \<union> range_bytes g next"
  using assms
proof (induction merged "next" rule: mergeFileRanges.induct)
  case (1 merged)
  then show ?case by (simp add: range_bytes_def)
next
  case (2 merged f rest)
  have ok: "fp_StartOffset f \<le> fp_EndOffset f" "ranges_ok rest" using "2.prems"(2) by (simp_all add: ranges_ok_def)
  have cons: "range_bytes g (f # rest) = range_bytes g [f] \<union> range_bytes g rest"
    using range_bytes_append [of g "[f]" rest] by simp
  show ?case
  proof (cases "gen_index (fp_Generation f) merged")
    case None
    have "ranges_ok (merged @ [f])" using "2.prems"(1) ok(1) by (simp add: ranges_ok_def)
    moreover have "distinct (map fp_Generation (merged @ [f]))"
      using "2.prems"(4) None by (simp add: gen_index_None)
    moreover have "mergeFileRanges (merged @ [f]) rest = Inr m" using "2.prems"(3) None by simp
    ultimately show ?thesis using "2.IH"(1) [OF None _ ok(2)] cons by (simp add: range_bytes_append Un_assoc)
  next
    case (Some i)
    let ?l = "merged ! i"
    let ?m = "merged[i := ?l\<lparr>fp_EndOffset := fp_EndOffset f\<rparr>]"
    note i = gen_index_Some [OF Some]
    have good: "\<not> (fp_DeviceID ?l \<noteq> fp_DeviceID f \<or> fp_Inode ?l \<noteq> fp_Inode f \<or> fp_EndOffset ?l \<noteq> fp_StartOffset f)"
      and rec: "mergeFileRanges ?m rest = Inr m"
      using "2.prems"(3) Some by (auto simp: Let_def split: if_splits)
    have ext: "range_bytes g ?m = range_bytes g merged \<union> range_bytes g [f]" "ranges_ok ?m"
      using range_bytes_extend [OF conjunct1 [OF i] "2.prems"(1) ok(1)] i good by simp_all
    have "map fp_Generation ?m = map fp_Generation merged"
      using i by (metis (no_types, lifting) FilePosition.ext_inject FilePosition.surjective FilePosition.update_convs(5)
          list_update_id map_update nth_map)
    then have "distinct (map fp_Generation ?m)" using "2.prems"(4) by simp
    then show ?thesis using "2.IH"(2) [OF Some refl good ext(2) ok(2) rec] ext(1) cons by (simp add: Un_assoc)
  qed
qed

section \<open>Properties\<close>

text \<open>
  Claim C18. However completions and flushes interleave and whichever saves fail, a saved checkpoint
  never passes a sequence number that was not durably completed, and the saved sequence numbers
  strictly increase.
\<close>

theorem checkpoint_never_skips:
  assumes "NewCompletionTracker src start = Inr t"
  shows "sorted_wrt (\<lambda>a b. cc_ThroughSequence a < cc_ThroughSequence b)
           (cm_saved (checkpoint_run (NewCheckpointManager t) es))
     \<and> (\<forall>c\<in>set (cm_saved (checkpoint_run (NewCheckpointManager t) es)).
          \<forall>s. start \<le> s \<and> s \<le> cc_ThroughSequence c \<longrightarrow> s \<in> completed_by src es)"
proof -
  let ?m = "checkpoint_run (NewCheckpointManager t) es"
  have inv: "manager_inv src start (completed_by src es) ?m" by (rule checkpoint_run_inv [OF assms])
  have "s \<in> completed_by src es"
    if "c \<in> set (cm_saved ?m)" "start \<le> s" "s \<le> cc_ThroughSequence c" for c s
  proof -
    have "passed (cm_tracker ?m) (cc_ThroughSequence c)" using inv that(1) by (simp add: manager_inv_def)
    then have "passed (cm_tracker ?m) s" unfolding passed_def using le_less_trans [OF that(3)] by blast
    then show ?thesis using inv that(2) by (simp add: manager_inv_def)
  qed
  then show ?thesis using inv by (simp add: manager_inv_def)
qed

text \<open>
  Claim C19. When the manager is idle and no error stopped it, the last saved checkpoint is the
  highest contiguous one: the next sequence number has not been completed.
\<close>

theorem checkpoint_catches_up:
  assumes "NewCompletionTracker src start = Inr t"
    and "cm_pending (checkpoint_run (NewCheckpointManager t) es) = None"
    and "cm_invalid (checkpoint_run (NewCheckpointManager t) es) = None"
  shows "case last_saved (checkpoint_run (NewCheckpointManager t) es) of
           None \<Rightarrow> start \<notin> completed_by src es
         | Some k \<Rightarrow> k = MaxUint64 \<or> k + 1 \<notin> completed_by src es"
proof -
  let ?m = "checkpoint_run (NewCheckpointManager t) es"
  have inv: "manager_inv src start (completed_by src es) ?m" by (rule checkpoint_run_inv [OF assms(1)])
  have cu: "caught_up start (cm_tracker ?m) (last_saved ?m)" and ti: "tracker_inv start (completed_by src es) (cm_tracker ?m)"
    using inv assms(2,3) by (simp_all add: manager_inv_def frontier_def)
  have gap: "tr_next (cm_tracker ?m) \<notin> completed_by src es" if "\<not> tr_exhausted (cm_tracker ?m)"
  proof
    assume "tr_next (cm_tracker ?m) \<in> completed_by src es"
    then have "tr_completed (cm_tracker ?m) (tr_next (cm_tracker ?m)) \<noteq> None"
      using ti that by (simp add: tracker_inv_def)
    then have "tr_next (cm_tracker ?m) < tr_next (cm_tracker ?m)" using ti unfolding tracker_inv_def by blast
    then show False by simp
  qed
  show ?thesis
  proof (cases "last_saved ?m")
    case None
    then show ?thesis using cu gap by (auto simp: caught_up_def)
  next
    case (Some k)
    then show ?thesis using cu gap by (cases "k = MaxUint64") (auto simp: caught_up_def)
  qed
qed

text \<open>
  Claim C20. Merging file ranges keeps one range per generation and loses no byte and invents none:
  each generation covers exactly the bytes of both inputs.
\<close>

theorem mergeFileRanges_exact:
  assumes "ranges_ok previous" and "ranges_ok next" and "distinct (map fp_Generation previous)"
    and "mergeFileRanges previous next = Inr m"
  shows "ranges_ok m \<and> distinct (map fp_Generation m)
     \<and> range_bytes g m = range_bytes g previous \<union> range_bytes g next"
  using mergeFileRanges_bytes [OF assms(1,2,4,3)] .

text \<open>
  Claim C21. The loop that moves the tracker past a candidate ends for every bound and has a closed
  form: it forgets exactly the sequence numbers up to the bound and stops at the end of the
  sequence space instead of wrapping around.
\<close>

theorem advance_closed_form:
  assumes "tr_next t \<le> k"
  shows "advance t k = t\<lparr>tr_completed := forget (tr_next t) k (tr_completed t),
       tr_next := (if k = MaxUint64 then k else k + 1), tr_exhausted := (tr_exhausted t \<or> k = MaxUint64)\<rparr>"
  using assms by (rule advance_spec)

definition cp_source :: string where "cp_source = ''s''"

definition cp_completion :: "u64 \<Rightarrow> DurableCompletion" where
  "cp_completion n = \<lparr> dc_SourceID = cp_source, dc_DeliveryID = ''dlv1_'' @ replicate 52 CHR ''0'',
     dc_Sequence = n, dc_Position = PositionJournald ''c'' \<rparr>"

definition cp_tracker :: CompletionTracker where
  "cp_tracker = \<lparr> tr_sourceID = cp_source, tr_next = 1, tr_completed = Map.empty, tr_exhausted = False \<rparr>"

lemma cp_new: "NewCompletionTracker cp_source 1 = Inr cp_tracker"
  by (simp add: NewCompletionTracker_def cp_tracker_def cp_source_def)

lemma cp_mark: "Mark cp_tracker (cp_completion 2) = (cp_tracker\<lparr>tr_completed := [2 \<mapsto> PositionJournald ''c'']\<rparr>, Inr None)"
proof -
  have v: "SourcePosition_Valid (PositionJournald ''c'')" by code_simp
  show ?thesis
    using v zero_identities(1)
    by (simp add: Mark_def cp_tracker_def cp_completion_def Let_def scan_completed.simps [of _ _ 1])
qed

lemma cp_mark_first: "Mark cp_tracker (cp_completion 1) = (cp_tracker\<lparr>tr_next := 2\<rparr>,
    Inr (Some \<lparr> cc_SourceID = cp_source, cc_ThroughSequence = 1, cc_Position = PositionJournald ''c'', cc_FileRanges = [] \<rparr>))"
proof -
  have v: "SourcePosition_Valid (PositionJournald ''c'')" by code_simp
  have ne: "(1 :: u64) \<noteq> MaxUint64" by (simp add: MaxUint64_def)
  show ?thesis
    using v zero_identities(1) ne
    by (simp add: Mark_def cp_tracker_def cp_completion_def Let_def scan_completed.simps [of _ _ 1]
        scan_completed.simps [of _ _ 2] extend_candidate_def advance.simps)
qed

theorem checkpoint_never_skips_witness:
  "map cc_ThroughSequence (cm_saved (checkpoint_run (NewCheckpointManager cp_tracker)
                      [EvComplete (cp_completion 1), EvFlushBegin, EvFlushEnd True])) = [1]
   \<and> 1 \<in> completed_by cp_source [EvComplete (cp_completion 1), EvFlushBegin, EvFlushEnd True]"
proof -
  let ?es = "[EvComplete (cp_completion 1), EvFlushBegin, EvFlushEnd True]"
  let ?c = "\<lparr> cc_SourceID = cp_source, cc_ThroughSequence = 1, cc_Position = PositionJournald ''c'', cc_FileRanges = [] \<rparr>"
  have saved: "cm_saved (checkpoint_run (NewCheckpointManager cp_tracker) ?es) = [?c]"
    by (simp add: checkpoint_run_def NewCheckpointManager_def Complete_mark_def cp_mark_first
        Flush_begin_def Flush_end_def)
  then have "1 \<in> completed_by cp_source ?es"
    using checkpoint_never_skips [OF cp_new, of ?es] by simp
  then show ?thesis using saved by simp
qed

theorem checkpoint_catches_up_witness:
  "last_saved (checkpoint_run (NewCheckpointManager cp_tracker) [EvComplete (cp_completion 2)]) = None
   \<and> 1 \<notin> completed_by cp_source [EvComplete (cp_completion 2)]"
proof -
  let ?m = "checkpoint_run (NewCheckpointManager cp_tracker) [EvComplete (cp_completion 2)]"
  have m: "?m = (NewCheckpointManager cp_tracker)\<lparr>cm_tracker := cp_tracker\<lparr>tr_completed := [2 \<mapsto> PositionJournald ''c'']\<rparr>\<rparr>"
    by (simp add: checkpoint_run_def NewCheckpointManager_def Complete_mark_def cp_mark)
  have ls: "last_saved ?m = None" unfolding m by (simp add: last_saved_def NewCheckpointManager_def)
  have "cm_pending ?m = None" "cm_invalid ?m = None" unfolding m by (simp_all add: NewCheckpointManager_def)
  from checkpoint_catches_up [OF cp_new this] ls show ?thesis by simp
qed

theorem mergeFileRanges_exact_witness:
  "range_bytes ''g'' [\<lparr> fp_Generation = ''g'', fp_DeviceID = 1, fp_Inode = 2, fp_StartOffset = 0, fp_EndOffset = 9 \<rparr>] =
   range_bytes ''g'' [\<lparr> fp_Generation = ''g'', fp_DeviceID = 1, fp_Inode = 2, fp_StartOffset = 0, fp_EndOffset = 4 \<rparr>]
   \<union> range_bytes ''g'' [\<lparr> fp_Generation = ''g'', fp_DeviceID = 1, fp_Inode = 2, fp_StartOffset = 4, fp_EndOffset = 9 \<rparr>]"
  by (rule conjunct2 [OF conjunct2 [OF mergeFileRanges_exact]]) (simp_all add: ranges_ok_def)

theorem advance_closed_form_witness:
  "tr_exhausted (advance (cp_tracker\<lparr>tr_next := MaxUint64\<rparr>) MaxUint64)"
  using advance_closed_form [of "cp_tracker\<lparr>tr_next := MaxUint64\<rparr>" MaxUint64] by simp

end
