(* ===== verification/Observed_State.thy ===== *)
theory Observed_State
  imports Core_Policy
begin

text \<open>
  The observed side of the firewall (\<^verbatim>\<open>internal/core/observed_state.go\<close> and the observed types at
  the end of \<^verbatim>\<open>internal/core/model.go\<close>): what a probe may report about the infrastructure, the
  policy and each target, and the checks every report passes before it is stored. The central rule
  is that an unknown observation carries no physical and no confirmed state, so that a failed probe
  can never be mistaken for evidence.
\<close>

section \<open>Observations\<close>

datatype ObservedPresence =
  ObservedPresenceUnknown | ObservedPresenceAbsent | ObservedPresencePresent | ObservedPresence_other u8

datatype ObservedMembership =
  ObservedMembershipUnknown | ObservedMembershipAbsent | ObservedMembershipPresent | ObservedMembership_other u8

datatype ObservedPolicyCoverage =
  ObservedPolicyUnknown | ObservedPolicyNone | ObservedPolicyPartial | ObservedPolicyFull
| ObservedPolicyCoverage_other u8

datatype TargetObservationEvidence =
  TargetObservationEvidenceComplete | TargetObservationEvidenceManagedSnapshot
| TargetObservationEvidence_other u8

record InfrastructureObservedState =
  ios_Presence :: ObservedPresence
  ios_ObservedAt :: time
  ios_Backend :: string
  ios_OwnerVersion :: string
  ios_Digest :: string
  ios_ConfirmedRevision :: u64
  ios_LastErrorCode :: string

record PolicyObservedState =
  pos_Presence :: ObservedPresence
  pos_ObservedAt :: time
  pos_RelationDigest :: string
  pos_ConfirmedRevision :: u64
  pos_LastErrorCode :: string

record PhysicalTargetObserved =
  pto_CanonicalTarget :: Prefix
  pto_ObservedAt :: time
  pto_Evidence :: TargetObservationEvidence
  pto_Backend :: string
  pto_BanMembership :: ObservedMembership
  pto_PolicyCoverage :: ObservedPolicyCoverage
  pto_PolicyRelationDigest :: string
  pto_TimeoutMode :: TimeoutMode
  pto_NativeExpiry :: "time option"
  pto_Scopes :: EnforcementScope
  pto_AddressFamily :: AddressFamily
  pto_OwnerVersion :: string
  pto_LastErrorCode :: string

text \<open>\<^verbatim>\<open>TargetObservedState\<close> embeds the physical observation and adds the confirmed generation.\<close>

record TargetObservedState = PhysicalTargetObserved +
  tos_ConfirmedGeneration :: u64

record ObservedFirewallUpdate =
  ofu_NodeID :: string
  ofu_Infrastructure :: "InfrastructureObservedState option"
  ofu_Policy :: "PolicyObservedState option"
  ofu_Targets :: "TargetObservedState list"

section \<open>Validation\<close>

datatype observed_error =
    ObservedTimeInvalid
  | UnknownWithState
  | UnknownWithoutError
  | AbsentWithState
  | PresentIncomplete
  | PresentWithError
  | PresenceInvalid
  | ObservedTargetNotCanonical
  | EvidenceInvalid
  | PresentWithoutIdentity
  | PresentScopesUnsupported
  | PresentFamilyMismatch
  | PresentTimeoutInvalid
  | NativeExpiryNotPaired
  | ObservedNativeExpiryInvalid
  | SnapshotInferredState
  | PresentCoverageInvalid
  | UncoveredWithDigest
  | CoveredWithoutDigest
  | MembershipInvalid
  | UpdateNodeNotHex
  | UpdateEmpty
  | UpdateInfrastructure observed_error
  | UpdatePolicy observed_error
  | UpdateTarget nat observed_error
  | UpdateTargetDuplicated Prefix

definition validateObservedTime :: "time \<Rightarrow> observed_error option" where
  "validateObservedTime t = (if IsZero t \<or> UnixMicro t \<le> 0 then Some ObservedTimeInvalid else None)"

definition InfrastructureObservedState_Validate :: "InfrastructureObservedState \<Rightarrow> observed_error option" where
  "InfrastructureObservedState_Validate s =
     (case validateObservedTime (ios_ObservedAt s) of Some e \<Rightarrow> Some e | None \<Rightarrow>
      (case ios_Presence s of
         ObservedPresenceUnknown \<Rightarrow>
           if ios_Backend s \<noteq> [] \<or> ios_OwnerVersion s \<noteq> [] \<or> ios_Digest s \<noteq> [] \<or> ios_ConfirmedRevision s \<noteq> 0
           then Some UnknownWithState
           else if ios_LastErrorCode s = [] then Some UnknownWithoutError
           else None
       | ObservedPresenceAbsent \<Rightarrow>
           if ios_Backend s \<noteq> [] \<or> ios_OwnerVersion s \<noteq> [] \<or> ios_Digest s \<noteq> [] \<or> ios_ConfirmedRevision s \<noteq> 0
              \<or> ios_LastErrorCode s \<noteq> []
           then Some AbsentWithState
           else None
       | ObservedPresencePresent \<Rightarrow>
           if ios_Backend s = [] \<or> ios_OwnerVersion s = [] \<or> ios_Digest s = [] then Some PresentIncomplete
           else if ios_LastErrorCode s \<noteq> [] then Some PresentWithError
           else None
       | ObservedPresence_other _ \<Rightarrow> Some PresenceInvalid))"

definition PolicyObservedState_Validate :: "PolicyObservedState \<Rightarrow> observed_error option" where
  "PolicyObservedState_Validate s =
     (case validateObservedTime (pos_ObservedAt s) of Some e \<Rightarrow> Some e | None \<Rightarrow>
      (case pos_Presence s of
         ObservedPresenceUnknown \<Rightarrow>
           if pos_RelationDigest s \<noteq> [] \<or> pos_ConfirmedRevision s \<noteq> 0 then Some UnknownWithState
           else if pos_LastErrorCode s = [] then Some UnknownWithoutError
           else None
       | ObservedPresenceAbsent \<Rightarrow>
           if pos_RelationDigest s \<noteq> [] \<or> pos_ConfirmedRevision s \<noteq> 0 \<or> pos_LastErrorCode s \<noteq> []
           then Some AbsentWithState
           else None
       | ObservedPresencePresent \<Rightarrow>
           if pos_RelationDigest s = [] then Some PresentIncomplete
           else if pos_LastErrorCode s \<noteq> [] then Some PresentWithError
           else None
       | ObservedPresence_other _ \<Rightarrow> Some PresenceInvalid))"

definition validEvidence :: "'a PhysicalTargetObserved_scheme \<Rightarrow> bool" where
  "validEvidence s \<longleftrightarrow>
     pto_Evidence s = TargetObservationEvidenceComplete
     \<or> pto_Evidence s = TargetObservationEvidenceManagedSnapshot"

text \<open>The zero value of \<^verbatim>\<open>AddressFamily\<close> is neither family: \<^term>\<open>AddressFamily_other 0\<close>.\<close>

definition hasTargetPhysicalState :: "'a PhysicalTargetObserved_scheme \<Rightarrow> bool" where
  "hasTargetPhysicalState s \<longleftrightarrow>
     pto_Backend s \<noteq> [] \<or> pto_PolicyCoverage s \<noteq> ObservedPolicyUnknown
     \<or> pto_PolicyRelationDigest s \<noteq> [] \<or> pto_TimeoutMode s \<noteq> TimeoutNone \<or> pto_NativeExpiry s \<noteq> None
     \<or> pto_Scopes s \<noteq> 0 \<or> pto_AddressFamily s \<noteq> AddressFamily_other 0 \<or> pto_OwnerVersion s \<noteq> []"

definition validatePresent :: "'a PhysicalTargetObserved_scheme \<Rightarrow> observed_error option" where
  "validatePresent s =
     (if \<not> validEvidence s then Some EvidenceInvalid
      else if pto_Scopes s = 0
              \<or> (pto_AddressFamily s \<noteq> AddressFamilyIPv4 \<and> pto_AddressFamily s \<noteq> AddressFamilyIPv6)
      then Some PresentWithoutIdentity
      else if pto_Scopes s AND NOT (ScopeInput OR ScopeForward) \<noteq> 0 then Some PresentScopesUnsupported
      else if pto_AddressFamily s \<noteq>
                (if Is4 (pfx_addr (pto_CanonicalTarget s)) then AddressFamilyIPv4 else AddressFamilyIPv6)
      then Some PresentFamilyMismatch
      else if pto_TimeoutMode s \<noteq> TimeoutNone \<and> pto_TimeoutMode s \<noteq> TimeoutNative then Some PresentTimeoutInvalid
      else if (pto_TimeoutMode s = TimeoutNative) \<noteq> (pto_NativeExpiry s \<noteq> None) then Some NativeExpiryNotPaired
      else if (case pto_NativeExpiry s of None \<Rightarrow> False | Some t \<Rightarrow> IsZero t \<or> UnixMicro t \<le> 0)
      then Some ObservedNativeExpiryInvalid
      else if pto_LastErrorCode s \<noteq> [] then Some PresentWithError
      else if pto_Evidence s = TargetObservationEvidenceManagedSnapshot
      then (if pto_Backend s \<noteq> [] \<or> pto_OwnerVersion s \<noteq> [] \<or> pto_PolicyCoverage s \<noteq> ObservedPolicyUnknown
               \<or> pto_PolicyRelationDigest s \<noteq> []
            then Some SnapshotInferredState else None)
      else if pto_Backend s = [] \<or> pto_OwnerVersion s = [] then Some PresentIncomplete
      else if pto_PolicyCoverage s \<notin> {ObservedPolicyNone, ObservedPolicyPartial, ObservedPolicyFull}
      then Some PresentCoverageInvalid
      else if pto_PolicyCoverage s = ObservedPolicyNone \<and> pto_PolicyRelationDigest s \<noteq> []
      then Some UncoveredWithDigest
      else if pto_PolicyCoverage s \<noteq> ObservedPolicyNone \<and> pto_PolicyRelationDigest s = []
      then Some CoveredWithoutDigest
      else None)"

definition TargetObservedState_Validate :: "TargetObservedState \<Rightarrow> observed_error option" where
  "TargetObservedState_Validate s =
     (if \<not> Prefix_IsValid (pto_CanonicalTarget s) \<or> pto_CanonicalTarget s \<noteq> Masked (pto_CanonicalTarget s)
      then Some ObservedTargetNotCanonical
      else case validateObservedTime (pto_ObservedAt s) of Some e \<Rightarrow> Some e | None \<Rightarrow>
      (case pto_BanMembership s of
         ObservedMembershipUnknown \<Rightarrow>
           if pto_Evidence s \<noteq> TargetObservationEvidenceComplete \<or> hasTargetPhysicalState s
              \<or> tos_ConfirmedGeneration s \<noteq> 0
           then Some UnknownWithState
           else if pto_LastErrorCode s = [] then Some UnknownWithoutError
           else None
       | ObservedMembershipAbsent \<Rightarrow>
           if \<not> validEvidence s then Some EvidenceInvalid
           else if hasTargetPhysicalState s \<or> pto_LastErrorCode s \<noteq> [] then Some AbsentWithState
           else None
       | ObservedMembershipPresent \<Rightarrow> validatePresent s
       | ObservedMembership_other _ \<Rightarrow> Some MembershipInvalid))"

text \<open>The loop over the sorted targets, with the previous target and the position.\<close>

fun validate_update_targets :: "Prefix option \<Rightarrow> nat \<Rightarrow> TargetObservedState list \<Rightarrow> observed_error option" where
  "validate_update_targets previous index [] = None"
| "validate_update_targets previous index (target # rest) =
     (case TargetObservedState_Validate target of
        Some e \<Rightarrow> Some (UpdateTarget index e)
      | None \<Rightarrow>
          if previous = Some (pto_CanonicalTarget target)
          then Some (UpdateTargetDuplicated (pto_CanonicalTarget target))
          else validate_update_targets (Some (pto_CanonicalTarget target)) (Suc index) rest)"

definition ObservedFirewallUpdate_Validate :: "ObservedFirewallUpdate \<Rightarrow> observed_error option" where
  "ObservedFirewallUpdate_Validate u =
     (if \<not> isLowerHex128 (ofu_NodeID u) then Some UpdateNodeNotHex
      else if ofu_Infrastructure u = None \<and> ofu_Policy u = None \<and> ofu_Targets u = [] then Some UpdateEmpty
      else case (case ofu_Infrastructure u of None \<Rightarrow> None
                 | Some i \<Rightarrow> map_option UpdateInfrastructure (InfrastructureObservedState_Validate i)) of
             Some e \<Rightarrow> Some e
           | None \<Rightarrow>
      (case (case ofu_Policy u of None \<Rightarrow> None
                 | Some p \<Rightarrow> map_option UpdatePolicy (PolicyObservedState_Validate p)) of
             Some e \<Rightarrow> Some e
           | None \<Rightarrow>
       validate_update_targets None 0
         (sort_key (\<lambda>t. Prefix_String (pto_CanonicalTarget t)) (ofu_Targets u))))"

section \<open>What validation establishes\<close>

lemma validateObservedTime_None_iff [simp]: "validateObservedTime t = None \<longleftrightarrow> 0 < UnixMicro t"
  using UnixMicro_pos_not_zero [of t] by (auto simp: validateObservedTime_def)

lemma validate_update_targets_None_iff:
  "validate_update_targets previous n ts = None \<longleftrightarrow>
     (\<forall>t\<in>set ts. TargetObservedState_Validate t = None)
     \<and> \<not> adjacent_dup (map pto_CanonicalTarget ts)
     \<and> (ts \<noteq> [] \<longrightarrow> previous \<noteq> Some (pto_CanonicalTarget (hd ts)))"
proof (induction ts arbitrary: previous n)
  case Nil
  then show ?case by simp
next
  case (Cons t ts)
  have step: "validate_update_targets previous n (t # ts) = None \<longleftrightarrow>
      TargetObservedState_Validate t = None \<and> previous \<noteq> Some (pto_CanonicalTarget t)
      \<and> validate_update_targets (Some (pto_CanonicalTarget t)) (Suc n) ts = None"
    by (auto split: option.splits)
  show ?case unfolding step Cons.IH by (cases ts) auto
qed

lemma TargetObservedState_Validate_target:
  "TargetObservedState_Validate t = None \<Longrightarrow> canonical (pto_CanonicalTarget t) \<and> 0 < UnixMicro (pto_ObservedAt t)"
  by (auto simp: TargetObservedState_Validate_def canonical_def split: if_splits option.splits)

lemma sorted_targets_distinct:
  assumes "\<forall>t\<in>set ts. TargetObservedState_Validate t = None"
  shows "adjacent_dup (map pto_CanonicalTarget (sort_key (\<lambda>t. Prefix_String (pto_CanonicalTarget t)) ts))
     \<longleftrightarrow> \<not> distinct (map pto_CanonicalTarget ts)"
proof -
  let ?s = "sort_key (\<lambda>t. Prefix_String (pto_CanonicalTarget t)) ts"
  have sorted: "sorted (map Prefix_String (map pto_CanonicalTarget ?s))"
    by (simp add: comp_def)
  have "inj_on Prefix_String (set (map pto_CanonicalTarget ?s))"
    using assms TargetObservedState_Validate_target by (intro canonicals_inj) auto
  from adjacent_dup_sorted [OF sorted this]
  have "adjacent_dup (map pto_CanonicalTarget ?s) \<longleftrightarrow> \<not> distinct (map pto_CanonicalTarget ?s)" .
  moreover have "distinct (map pto_CanonicalTarget ?s) \<longleftrightarrow> distinct (map pto_CanonicalTarget ts)"
    by (metis mset_map mset_sort mset_eq_imp_distinct_iff)
  ultimately show ?thesis by simp
qed

section \<open>Properties\<close>

text \<open>
  Claim C22. An observed update is accepted exactly when it names a node, contains at least one
  domain, every included observation is valid and no target is listed twice; the order in which the
  targets are listed does not matter.
\<close>

theorem ObservedFirewallUpdate_Validate_spec:
  "ObservedFirewallUpdate_Validate u = None \<longleftrightarrow>
     isLowerHex128 (ofu_NodeID u)
     \<and> \<not> (ofu_Infrastructure u = None \<and> ofu_Policy u = None \<and> ofu_Targets u = [])
     \<and> (case ofu_Infrastructure u of None \<Rightarrow> True | Some i \<Rightarrow> InfrastructureObservedState_Validate i = None)
     \<and> (case ofu_Policy u of None \<Rightarrow> True | Some p \<Rightarrow> PolicyObservedState_Validate p = None)
     \<and> list_all (\<lambda>t. TargetObservedState_Validate t = None) (ofu_Targets u)
     \<and> distinct (map pto_CanonicalTarget (ofu_Targets u))"
proof -
  have "validate_update_targets None 0 (sort_key (\<lambda>t. Prefix_String (pto_CanonicalTarget t)) (ofu_Targets u)) = None
      \<longleftrightarrow> list_all (\<lambda>t. TargetObservedState_Validate t = None) (ofu_Targets u)
        \<and> distinct (map pto_CanonicalTarget (ofu_Targets u))"
    by (auto simp: validate_update_targets_None_iff sorted_targets_distinct list_all_iff)
  then show ?thesis
    by (auto simp: ObservedFirewallUpdate_Validate_def split: option.splits)
qed

lemma validatePresent_shape:
  assumes "validatePresent s = None"
  shows "pto_LastErrorCode s = []" "pto_Scopes s \<noteq> 0" "pto_TimeoutMode s = TimeoutNative \<longleftrightarrow> pto_NativeExpiry s \<noteq> None"
    "pto_AddressFamily s = (if Is4 (pfx_addr (pto_CanonicalTarget s)) then AddressFamilyIPv4 else AddressFamilyIPv6)"
  using assms by (simp_all add: validatePresent_def split: if_splits)

text \<open>
  Claim C23. In a valid target observation an error code is recorded exactly when the membership is
  unknown, physical state exactly when the target is present, and a confirmed generation never
  accompanies an unknown membership; a native expiry is recorded exactly for a native timeout, and
  physical state has the address family of the observed target. A present target may well carry a
  confirmed generation.
\<close>

theorem TargetObservedState_evidence:
  assumes "TargetObservedState_Validate s = None"
  shows "(pto_LastErrorCode s \<noteq> [] \<longleftrightarrow> pto_BanMembership s = ObservedMembershipUnknown)
     \<and> (hasTargetPhysicalState s \<longleftrightarrow> pto_BanMembership s = ObservedMembershipPresent)
     \<and> \<not> (tos_ConfirmedGeneration s \<noteq> 0 \<and> pto_BanMembership s = ObservedMembershipUnknown)
     \<and> (pto_NativeExpiry s \<noteq> None \<longleftrightarrow> pto_TimeoutMode s = TimeoutNative)
     \<and> (hasTargetPhysicalState s \<longrightarrow>
          pto_AddressFamily s = (if Is4 (pfx_addr (pto_CanonicalTarget s)) then AddressFamilyIPv4 else AddressFamilyIPv6))"
proof (cases "pto_BanMembership s")
  case ObservedMembershipPresent
  then have "validatePresent s = None"
    using assms by (auto simp: TargetObservedState_Validate_def split: if_splits option.splits)
  from validatePresent_shape [OF this] ObservedMembershipPresent show ?thesis
    by (simp add: hasTargetPhysicalState_def)
qed (use assms in \<open>auto simp: TargetObservedState_Validate_def hasTargetPhysicalState_def split: if_splits option.splits\<close>)

definition sample_present :: TargetObservedState where
  "sample_present =
     \<lparr> pto_CanonicalTarget = PrefixFrom (Addr4 0x0A000000) 8, pto_ObservedAt = unix_epoch + 1000,
       pto_Evidence = TargetObservationEvidenceManagedSnapshot, pto_Backend = [],
       pto_BanMembership = ObservedMembershipPresent, pto_PolicyCoverage = ObservedPolicyUnknown,
       pto_PolicyRelationDigest = [], pto_TimeoutMode = TimeoutNone, pto_NativeExpiry = None, pto_Scopes = 1,
       pto_AddressFamily = AddressFamilyIPv4, pto_OwnerVersion = [], pto_LastErrorCode = [],
       tos_ConfirmedGeneration = 7 \<rparr>"

theorem TargetObservedState_evidence_witness:
  "hasTargetPhysicalState sample_present \<and> tos_ConfirmedGeneration sample_present \<noteq> 0 \<and> pto_LastErrorCode sample_present = []"
proof -
  have "TargetObservedState_Validate sample_present = None" by code_simp
  from TargetObservedState_evidence [OF this] show ?thesis by (simp add: sample_present_def)
qed

end
