(* ===== verification/Json.thy ===== *)
theory Json
  imports Netip_Text "HOL-Library.Monad_Syntax"
begin

text \<open>
  The part of \<^verbatim>\<open>encoding/json\<close> the repository uses: the compact output of \<^verbatim>\<open>json.Marshal\<close> and the
  values \<^verbatim>\<open>Decoder.Decode\<close> reads into \<^verbatim>\<open>any\<close> with \<^verbatim>\<open>UseNumber\<close>, so that a number keeps its text.
  Decoding runs on input that passed \<^verbatim>\<open>utf8.Valid\<close>, and every string the repository marshals is
  printable ASCII, so bytes from 128 on are copied by both. The main result is that parsing inverts
  marshalling.
\<close>

section \<open>Values and marshalling\<close>

datatype json =
    JNull
  | JBool bool
  | JNumber string
  | JString string
  | JArray "json list"
  | JObject "(string \<times> json) list"

abbreviation (input) QUOTE :: char where "QUOTE \<equiv> CHR 0x22"
abbreviation (input) BACKSLASH :: char where "BACKSLASH \<equiv> CHR 0x5C"

definition hex2 :: "nat \<Rightarrow> string" where
  "hex2 n = [digit_char (n div 16), digit_char (n mod 16)]"

definition escape_char :: "char \<Rightarrow> string" where
  "escape_char c =
     (let n = of_char c :: nat in
      if c = QUOTE \<or> c = BACKSLASH then [BACKSLASH, c]
      else if n = 8 then [BACKSLASH, CHR ''b'']
      else if n = 12 then [BACKSLASH, CHR ''f'']
      else if n = 10 then [BACKSLASH, CHR ''n'']
      else if n = 13 then [BACKSLASH, CHR ''r'']
      else if n = 9 then [BACKSLASH, CHR ''t'']
      else if n < 32 \<or> c = CHR ''<'' \<or> c = CHR ''>'' \<or> c = CHR ''&''
      then [BACKSLASH, CHR ''u'', CHR ''0'', CHR ''0''] @ hex2 n
      else [c])"

definition marshal_string :: "string \<Rightarrow> string" where
  "marshal_string s = [QUOTE] @ concat (map escape_char s) @ [QUOTE]"

fun comma_join :: "string list \<Rightarrow> string" where
  "comma_join [] = []"
| "comma_join [s] = s"
| "comma_join (s # t # r) = s @ [CHR '',''] @ comma_join (t # r)"

fun Marshal :: "json \<Rightarrow> string" where
  "Marshal JNull = ''null''"
| "Marshal (JBool b) = (if b then ''true'' else ''false'')"
| "Marshal (JNumber t) = t"
| "Marshal (JString s) = marshal_string s"
| "Marshal (JArray vs) = [CHR ''[''] @ comma_join (map Marshal vs) @ [CHR '']'']"
| "Marshal (JObject fs) =
     [CHR ''{''] @ comma_join (map (\<lambda>(k, v). marshal_string k @ [CHR '':''] @ Marshal v) fs) @ [CHR ''}'']"

section \<open>Tokens\<close>

definition is_space :: "char \<Rightarrow> bool" where
  "is_space c \<longleftrightarrow> c \<in> {CHR '' '', CHR 0x09, CHR 0x0A, CHR 0x0D}"

definition skip_ws :: "string \<Rightarrow> string" where
  "skip_ws s = dropWhile is_space s"

definition is_dec :: "char \<Rightarrow> bool" where
  "is_dec c \<longleftrightarrow> 48 \<le> (of_char c :: nat) \<and> of_char c \<le> (57 :: nat)"

definition hex_value :: "char \<Rightarrow> nat option" where
  "hex_value c =
     (let n = of_char c in
      if 48 \<le> n \<and> n \<le> 57 then Some (n - 48)
      else if 97 \<le> n \<and> n \<le> 102 then Some (n - 87)
      else if 65 \<le> n \<and> n \<le> (70 :: nat) then Some (n - 55)
      else None)"

fun hex4 :: "string \<Rightarrow> nat option" where
  "hex4 [a, b, c, d] =
     (case (hex_value a, hex_value b, hex_value c, hex_value d) of
        (Some w, Some x, Some y, Some z) \<Rightarrow> Some (((w * 16 + x) * 16 + y) * 16 + z)
      | _ \<Rightarrow> None)"
| "hex4 _ = None"

definition simple_escape :: "char \<Rightarrow> char option" where
  "simple_escape e =
     (if e = QUOTE \<or> e = BACKSLASH \<or> e = CHR ''/'' then Some e
      else if e = CHR ''b'' then Some (CHR 0x08)
      else if e = CHR ''f'' then Some (CHR 0x0C)
      else if e = CHR ''n'' then Some (CHR 0x0A)
      else if e = CHR ''r'' then Some (CHR 0x0D)
      else if e = CHR ''t'' then Some (CHR 0x09)
      else None)"

text \<open>A string literal after its opening quote: bytes and the code units of \<^verbatim>\<open>u\<close> escapes.\<close>

datatype str_unit = SByte char | SUnit nat

definition push_unit :: "str_unit \<Rightarrow> (str_unit list \<times> string) option \<Rightarrow> (str_unit list \<times> string) option" where
  "push_unit u = map_option (\<lambda>(us, r). (u # us, r))"

fun lex_units :: "string \<Rightarrow> (str_unit list \<times> string) option" where
  "lex_units [] = None"
| "lex_units (c # s) =
     (if c = QUOTE then Some ([], s)
      else if c = BACKSLASH then
        (case s of
           [] \<Rightarrow> None
         | e # s' \<Rightarrow>
             if e = CHR ''u'' then
               (case s' of
                  h1 # h2 # h3 # h4 # r \<Rightarrow>
                    (case hex4 [h1, h2, h3, h4] of
                       None \<Rightarrow> None
                     | Some v \<Rightarrow> push_unit (SUnit v) (lex_units r))
                | _ \<Rightarrow> None)
             else (case simple_escape e of
                     None \<Rightarrow> None
                   | Some b \<Rightarrow> push_unit (SByte b) (lex_units s')))
      else if of_char c < (32 :: nat) then None
      else push_unit (SByte c) (lex_units s))"

definition utf8_encode :: "nat \<Rightarrow> string" where
  "utf8_encode r =
     map char_of
       (if r < 0x80 then [r]
        else if r < 0x800 then [0xC0 + r div 64, 0x80 + r mod 64]
        else if r < 0x10000 then [0xE0 + r div 4096, 0x80 + r div 64 mod 64, 0x80 + r mod 64]
        else [0xF0 + r div 262144, 0x80 + r div 4096 mod 64, 0x80 + r div 64 mod 64, 0x80 + r mod 64])"

definition is_surrogate :: "nat \<Rightarrow> bool" where
  "is_surrogate u \<longleftrightarrow> 0xD800 \<le> u \<and> u < 0xE000"

definition surrogate_pair :: "nat \<Rightarrow> nat \<Rightarrow> nat option" where
  "surrogate_pair hi lo =
     (if 0xD800 \<le> hi \<and> hi < 0xDC00 \<and> 0xDC00 \<le> lo \<and> lo < 0xE000
      then Some ((hi - 0xD800) * 1024 + (lo - 0xDC00) + 0x10000) else None)"

fun decode_units :: "str_unit list \<Rightarrow> string" where
  "decode_units [] = []"
| "decode_units (SByte b # us) = b # decode_units us"
| "decode_units (SUnit u # us) =
     (if is_surrogate u then
        (case us of
           SUnit l # us' \<Rightarrow>
             (case surrogate_pair u l of
                Some r \<Rightarrow> utf8_encode r @ decode_units us'
              | None \<Rightarrow> utf8_encode 0xFFFD @ decode_units us)
         | _ \<Rightarrow> utf8_encode 0xFFFD @ decode_units us)
      else utf8_encode u @ decode_units us)"

definition lex_string :: "string \<Rightarrow> (string \<times> string) option" where
  "lex_string s = map_option (\<lambda>(us, r). (decode_units us, r)) (lex_units s)"

text \<open>A number: sign, integer part without leading zeros, fraction and exponent, each as text.\<close>

record number_text =
  num_neg :: bool
  num_int :: string
  num_frac :: string
  num_exp_neg :: bool
  num_exp :: string

definition digits_of :: "string \<Rightarrow> string" where
  "digits_of s = takeWhile is_dec s"

definition after_digits :: "string \<Rightarrow> string" where
  "after_digits s = dropWhile is_dec s"

definition lex_int :: "string \<Rightarrow> (string \<times> string) option" where
  "lex_int s =
     (case s of
        [] \<Rightarrow> None
      | c # r \<Rightarrow> if c = CHR ''0'' then Some ([c], r)
                else if is_dec c then Some (digits_of s, after_digits s)
                else None)"

definition lex_frac :: "string \<Rightarrow> (string \<times> string) option" where
  "lex_frac s =
     (case s of
        [] \<Rightarrow> Some ([], s)
      | c # r \<Rightarrow> if c = CHR ''.''
                then (if digits_of r = [] then None else Some (digits_of r, after_digits r))
                else Some ([], s))"

definition lex_exp :: "string \<Rightarrow> (bool \<times> string \<times> string) option" where
  "lex_exp s =
     (case s of
        [] \<Rightarrow> Some (False, [], s)
      | c # r \<Rightarrow>
          if c = CHR ''e'' \<or> c = CHR ''E'' then
            (let neg = (r \<noteq> [] \<and> hd r = CHR ''-'');
                 d = (if r \<noteq> [] \<and> (hd r = CHR ''-'' \<or> hd r = CHR ''+'') then tl r else r)
             in if digits_of d = [] then None else Some (neg, digits_of d, after_digits d))
          else Some (False, [], s))"

definition lex_number :: "string \<Rightarrow> (number_text \<times> string) option" where
  "lex_number s =
     (let neg = (s \<noteq> [] \<and> hd s = CHR ''-'') in do {
        (i, r1) \<leftarrow> lex_int (if neg then tl s else s);
        (f, r2) \<leftarrow> lex_frac r1;
        (en, e, r3) \<leftarrow> lex_exp r2;
        Some (\<lparr> num_neg = neg, num_int = i, num_frac = f, num_exp_neg = en, num_exp = e \<rparr>, r3)
      })"

definition strip_prefix :: "string \<Rightarrow> string \<Rightarrow> string option" where
  "strip_prefix p s = (if take (length p) s = p then Some (drop (length p) s) else None)"

text \<open>A scalar token at the start of the input.\<close>

definition lex_scalar :: "string \<Rightarrow> (json \<times> string) option" where
  "lex_scalar s =
     (case s of
        [] \<Rightarrow> None
      | c # r \<Rightarrow>
          if c = QUOTE then map_option (\<lambda>(t, r'). (JString t, r')) (lex_string r)
          else if c = CHR ''n'' then map_option (\<lambda>r'. (JNull, r')) (strip_prefix ''null'' s)
          else if c = CHR ''t'' then map_option (\<lambda>r'. (JBool True, r')) (strip_prefix ''true'' s)
          else if c = CHR ''f'' then map_option (\<lambda>r'. (JBool False, r')) (strip_prefix ''false'' s)
          else map_option (\<lambda>(_, r'). (JNumber (take (length s - length r') s), r')) (lex_number s))"

definition expect :: "char \<Rightarrow> string \<Rightarrow> string option" where
  "expect c s = (case skip_ws s of [] \<Rightarrow> None | x # r \<Rightarrow> if x = c then Some r else None)"

section \<open>Parsing\<close>

text \<open>
  The fuel bounds the number of nested calls; the length of the input is always enough, since every
  call consumes a byte.
\<close>

fun parse_value :: "nat \<Rightarrow> string \<Rightarrow> (json \<times> string) option"
  and parse_members :: "nat \<Rightarrow> string \<Rightarrow> ((string \<times> json) list \<times> string) option"
  and parse_elements :: "nat \<Rightarrow> string \<Rightarrow> (json list \<times> string) option" where
  "parse_value 0 s = None"
| "parse_value (Suc n) s =
     (case expect (CHR ''{'') s of
        Some r \<Rightarrow>
          (case expect (CHR ''}'') r of
             Some r' \<Rightarrow> Some (JObject [], r')
           | None \<Rightarrow> map_option (\<lambda>(ms, r'). (JObject ms, r')) (parse_members n r))
      | None \<Rightarrow>
     (case expect (CHR ''['') s of
        Some r \<Rightarrow>
          (case expect (CHR '']'') r of
             Some r' \<Rightarrow> Some (JArray [], r')
           | None \<Rightarrow> map_option (\<lambda>(vs, r'). (JArray vs, r')) (parse_elements n r))
      | None \<Rightarrow> lex_scalar (skip_ws s)))"
| "parse_members 0 s = None"
| "parse_members (Suc n) s = do {
     r1 \<leftarrow> expect QUOTE s;
     (k, r2) \<leftarrow> lex_string r1;
     r3 \<leftarrow> expect (CHR '':'') r2;
     (v, r4) \<leftarrow> parse_value n r3;
     (case expect (CHR '','') r4 of
        Some r5 \<Rightarrow> map_option (\<lambda>(ms, r). ((k, v) # ms, r)) (parse_members n r5)
      | None \<Rightarrow> map_option (\<lambda>r. ([(k, v)], r)) (expect (CHR ''}'') r4))
   }"
| "parse_elements 0 s = None"
| "parse_elements (Suc n) s = do {
     (v, r1) \<leftarrow> parse_value n s;
     (case expect (CHR '','') r1 of
        Some r2 \<Rightarrow> map_option (\<lambda>(vs, r). (v # vs, r)) (parse_elements n r2)
      | None \<Rightarrow> map_option (\<lambda>r. ([v], r)) (expect (CHR '']'') r1))
   }"

definition Decode :: "string \<Rightarrow> (json \<times> string) option" where
  "Decode s = parse_value (Suc (length s)) s"

section \<open>Parsing inverts marshalling\<close>

definition unit_of :: "char \<Rightarrow> str_unit" where
  "unit_of c =
     (let n = of_char c :: nat in
      if n < 32 \<and> n \<notin> {8, 9, 10, 12, 13} \<or> c = CHR ''<'' \<or> c = CHR ''>'' \<or> c = CHR ''&'' then SUnit n else SByte c)"

lemma hex_value_digit: "d < 16 \<Longrightarrow> hex_value (digit_char d) = Some d"
  by (auto simp: hex_value_def of_char_digit_char Let_def)

lemma hex4_hex2: "n < 256 \<Longrightarrow> hex4 ([CHR ''0'', CHR ''0''] @ hex2 n) = Some n"
proof -
  assume n: "n < 256"
  have "n div 16 < 16" "n mod 16 < 16" using n by auto
  then show ?thesis by (simp add: hex2_def hex_value_digit) (simp add: hex_value_def)
qed

lemma char_escapes:
  "of_char c = (8 :: nat) \<longleftrightarrow> c = CHR 0x08" "of_char c = (9 :: nat) \<longleftrightarrow> c = CHR 0x09"
  "of_char c = (10 :: nat) \<longleftrightarrow> c = CHR 0x0A" "of_char c = (12 :: nat) \<longleftrightarrow> c = CHR 0x0C"
  "of_char c = (13 :: nat) \<longleftrightarrow> c = CHR 0x0D"
  using of_char_eq_iff [of c "CHR 0x08", where 'a = nat] of_char_eq_iff [of c "CHR 0x09", where 'a = nat]
    of_char_eq_iff [of c "CHR 0x0A", where 'a = nat] of_char_eq_iff [of c "CHR 0x0C", where 'a = nat]
    of_char_eq_iff [of c "CHR 0x0D", where 'a = nat]
  by (simp_all del: of_char_eq_iff)

lemma lex_units_u:
  "lex_units (BACKSLASH # CHR ''u'' # h1 # h2 # h3 # h4 # r) =
     (case hex4 [h1, h2, h3, h4] of None \<Rightarrow> None | Some v \<Rightarrow> push_unit (SUnit v) (lex_units r))"
  by (simp split: option.splits)

lemma escape_plain:
  assumes "32 \<le> (of_char c :: nat)" and "c \<noteq> QUOTE" "c \<noteq> BACKSLASH" "c \<noteq> CHR ''<''" "c \<noteq> CHR ''>''" "c \<noteq> CHR ''&''"
  shows "escape_char c = [c]"
proof -
  have "of_char c \<notin> {8, 9, 10, 12, 13 :: nat}" "\<not> of_char c < (32 :: nat)" using assms(1) by auto
  then show ?thesis using assms unfolding escape_char_def Let_def by (simp only: insert_iff if_False simp_thms) simp
qed

lemma lex_units_escape: "lex_units (escape_char c @ s) = push_unit (unit_of c) (lex_units s)"
proof (cases "unit_of c")
  case (SUnit n)
  then have n: "n = of_char c" and esc: "escape_char c = [BACKSLASH, CHR ''u'', CHR ''0'', CHR ''0''] @ hex2 n"
    by (auto simp: unit_of_def escape_char_def Let_def split: if_splits)
  have "hex4 [CHR ''0'', CHR ''0'', digit_char (n div 16), digit_char (n mod 16)] = Some n"
    using hex4_hex2 [of n] n by (simp add: hex2_def)
  then show ?thesis using SUnit esc
    by (simp del: lex_units.simps hex4.simps add: hex2_def lex_units_u)
next
  case (SByte b)
  then have b: "b = c" by (simp add: unit_of_def Let_def split: if_splits)
  consider "c = CHR 0x08 \<or> c = CHR 0x09 \<or> c = CHR 0x0A \<or> c = CHR 0x0C \<or> c = CHR 0x0D"
    | "c = QUOTE \<or> c = BACKSLASH" | "escape_char c = [c]" "32 \<le> (of_char c :: nat)" "c \<noteq> QUOTE" "c \<noteq> BACKSLASH"
  proof -
    have u: "\<not> (of_char c < (32 :: nat) \<and> of_char c \<notin> {8, 9, 10, 12, 13 :: nat})"
      "c \<noteq> CHR ''<''" "c \<noteq> CHR ''>''" "c \<noteq> CHR ''&''"
      using SByte unfolding unit_of_def Let_def by (metis str_unit.distinct(1))+
    show thesis
    proof (cases "of_char c < (32 :: nat)")
      case True
      then show ?thesis using u(1) that(1) char_escapes [of c] by auto
    next
      case False
      then show ?thesis using u that(2,3) escape_plain [of c] by (metis not_less)
    qed
  qed
  then show ?thesis
  proof cases
    case 1
    then show ?thesis using SByte b
      by (elim disjE) (simp_all add: escape_char_def simple_escape_def)
  next
    case 2
    then show ?thesis using SByte b
      by (elim disjE) (simp_all add: escape_char_def simple_escape_def)
  next
    case 3
    then show ?thesis using SByte b by simp
  qed
qed

lemma lex_units_escapes:
  "lex_units (concat (map escape_char s) @ QUOTE # r) = Some (map unit_of s, r)"
  by (induction s) (simp_all add: lex_units_escape push_unit_def del: lex_units.simps(2), simp)

lemma decode_unit_of: "decode_units (map unit_of s) = s"
proof (induction s)
  case Nil
  then show ?case by simp
next
  case (Cons c s)
  show ?case
  proof (cases "unit_of c")
    case (SUnit n)
    then have "n = of_char c" "n < 128" by (auto simp: unit_of_def Let_def split: if_splits)
    then show ?thesis using Cons SUnit by (simp add: is_surrogate_def utf8_encode_def)
  next
    case (SByte b)
    then have "b = c" by (auto simp: unit_of_def Let_def split: if_splits)
    then show ?thesis using Cons SByte by simp
  qed
qed

lemma lex_string_marshal: "lex_string (concat (map escape_char s) @ QUOTE # r) = Some (s, r)"
  by (simp add: lex_string_def lex_units_escapes decode_unit_of)

definition delimited :: "string \<Rightarrow> bool" where
  "delimited r \<longleftrightarrow> r = [] \<or> hd r \<in> {CHR '','', CHR '']'', CHR ''}''}"

lemma show_base_decimal: "\<forall>c\<in>set (show_base 10 n). is_dec c"
proof (induction n rule: less_induct)
  case (less n)
  have digit: "is_dec (digit_char d)" if "d < 10" for d
    using that by (simp add: is_dec_def of_char_digit_char)
  show ?case
  proof (cases "n < 10")
    case True
    then show ?thesis using digit by (subst show_base.simps) simp
  next
    case False
    then show ?thesis using digit less.IH [of "n div 10"] by (subst show_base.simps) auto
  qed
qed

lemma digit_char_zero_iff: "d < 16 \<Longrightarrow> digit_char d = CHR ''0'' \<longleftrightarrow> d = 0"
proof
  assume "d < 16" "digit_char d = CHR ''0''"
  then have "d = digit_val (CHR ''0'')" by (metis digit_val_digit_char)
  then show "d = 0" by (simp add: digit_val_def)
next
  assume "d = 0"
  moreover have "of_char (digit_char 0) = (of_char (CHR ''0'') :: nat)" by (simp add: of_char_digit_char)
  ultimately show "digit_char d = CHR ''0''" by (simp only: of_char_eq_iff)
qed

lemma show_base_head: "0 < n \<Longrightarrow> hd (show_base 10 n) \<noteq> CHR ''0''"
proof (induction n rule: less_induct)
  case (less n)
  show ?case
  proof (cases "n < 10")
    case True
    then have "digit_char n \<noteq> CHR ''0''" using less.prems by (simp add: digit_char_zero_iff)
    then show ?thesis using True by (subst show_base.simps) simp
  next
    case False
    then have "hd (show_base 10 (n div 10)) \<noteq> CHR ''0''" using less.IH [of "n div 10"] by auto
    then show ?thesis using False by (subst show_base.simps) simp
  qed
qed

lemma digits_append:
  assumes "\<forall>c\<in>set ds. is_dec c" and "r = [] \<or> \<not> is_dec (hd r)"
  shows "digits_of (ds @ r) = ds" and "after_digits (ds @ r) = r"
proof -
  have "takeWhile is_dec r = []" "dropWhile is_dec r = r" using assms(2) by (cases r; simp)+
  then show "digits_of (ds @ r) = ds" "after_digits (ds @ r) = r"
    using assms(1) by (simp_all add: digits_of_def after_digits_def takeWhile_append2 dropWhile_append2)
qed

lemma delimited_not_dec: "delimited r \<Longrightarrow> r = [] \<or> \<not> is_dec (hd r)"
  by (auto simp: delimited_def is_dec_def)

lemma lex_int_Itoa: "delimited r \<Longrightarrow> lex_int (Itoa n @ r) = Some (Itoa n, r)"
proof (cases "n = 0")
  case True
  then show ?thesis using digit_char_zero_iff [of 0] by (simp add: Itoa_def show_base.simps lex_int_def)
next
  case False
  assume r: "delimited r"
  obtain c s where cs: "Itoa n = c # s" using show_base_nonempty [of 10 n] unfolding Itoa_def by (meson neq_Nil_conv)
  have c: "c \<noteq> CHR ''0''" "is_dec c"
    using show_base_head [of n] show_base_decimal [of n] False cs by (auto simp: Itoa_def)
  have "digits_of (Itoa n @ r) = Itoa n" "after_digits (Itoa n @ r) = r"
    using digits_append [OF _ delimited_not_dec [OF r], of "Itoa n"] show_base_decimal [of n] by (simp_all add: Itoa_def)
  then show ?thesis using c cs by (simp add: lex_int_def)
qed

lemma lex_number_Itoa:
  assumes "delimited r"
  shows "lex_number (Itoa n @ r) =
     Some (\<lparr> num_neg = False, num_int = Itoa n, num_frac = [], num_exp_neg = False, num_exp = [] \<rparr>, r)"
proof -
  have hd: "is_dec (hd (Itoa n @ r))"
    using show_base_decimal [of n] show_base_nonempty [of 10 n] by (simp add: Itoa_def)
  then have neg: "hd (Itoa n @ r) \<noteq> CHR ''-''" by (auto simp: is_dec_def)
  have "lex_frac r = Some ([], r)" "lex_exp r = Some (False, [], r)"
    using assms by (cases r; auto simp: delimited_def lex_frac_def lex_exp_def)+
  then show ?thesis using neg lex_int_Itoa [OF assms, of n] by (simp add: lex_number_def Let_def)
qed

definition plain_number :: "string \<Rightarrow> bool" where
  "plain_number t \<longleftrightarrow> Itoa (read_base 10 t) = t"

fun plain_json :: "json \<Rightarrow> bool" where
  "plain_json (JNumber t) = plain_number t"
| "plain_json (JArray vs) = list_all plain_json vs"
| "plain_json (JObject fs) = list_all (\<lambda>(k, v). plain_json v) fs"
| "plain_json _ = True"

definition value_start :: "char \<Rightarrow> bool" where
  "value_start c \<longleftrightarrow> \<not> is_space c \<and> c \<notin> {CHR '']'', CHR ''}'', CHR '','', CHR '':''}"

lemma plain_number_Itoa [simp]: "plain_number (Itoa n)"
  by (simp add: plain_number_def read_Itoa)

lemma expect_Cons: "\<not> is_space x \<Longrightarrow> expect c (x # s) = (if x = c then Some s else None)"
  by (simp add: expect_def skip_ws_def)

lemma skip_ws_Cons: "\<not> is_space x \<Longrightarrow> skip_ws (x # s) = x # s"
  by (simp add: skip_ws_def)

lemma delimited_expect: "delimited r \<Longrightarrow> r \<noteq> [] \<Longrightarrow> expect c r = (if hd r = c then Some (tl r) else None)"
  by (cases r) (auto simp: delimited_def expect_Cons is_space_def)

lemma dec_start: "is_dec c \<Longrightarrow> value_start c \<and> c \<noteq> CHR ''{'' \<and> c \<noteq> CHR ''['' \<and> c \<noteq> QUOTE
    \<and> c \<noteq> CHR ''n'' \<and> c \<noteq> CHR ''t'' \<and> c \<noteq> CHR ''f''"
  by (auto simp: value_start_def is_space_def is_dec_def)

lemma Itoa_Cons: "\<exists>c s. Itoa n = c # s \<and> is_dec c"
proof -
  obtain c s where "Itoa n = c # s" using show_base_nonempty [of 10 n] unfolding Itoa_def by (meson neq_Nil_conv)
  then show ?thesis using show_base_decimal [of n] by (auto simp: Itoa_def)
qed

lemma Marshal_first:
  assumes "plain_json v"
  shows "\<exists>c s. Marshal v = c # s \<and> value_start c"
proof (cases v)
  case (JNumber t)
  then have "t = Itoa (read_base 10 t)" using assms by (simp add: plain_number_def)
  then show ?thesis using JNumber Itoa_Cons dec_start by (metis Marshal.simps(3))
qed (auto simp: value_start_def is_space_def marshal_string_def)

lemma parse_scalar:
  assumes "Marshal v = c # s" and "value_start c" and "c \<noteq> CHR ''{''" and "c \<noteq> CHR ''[''"
  shows "parse_value (Suc n) (Marshal v @ r) = lex_scalar (Marshal v @ r)"
  using assms by (simp add: expect_Cons skip_ws_Cons value_start_def)

lemma lex_scalar_string: "lex_scalar (marshal_string s @ r) = Some (JString s, r)"
  by (simp add: lex_scalar_def marshal_string_def lex_string_marshal)

lemma lex_scalar_Itoa: "delimited r \<Longrightarrow> lex_scalar (Itoa n @ r) = Some (JNumber (Itoa n), r)"
proof -
  assume r: "delimited r"
  obtain c s where c: "Itoa n = c # s" "is_dec c" using Itoa_Cons by blast
  note lex_number_Itoa [OF r, of n]
  then show ?thesis using c dec_start [OF c(2)] by (simp add: lex_scalar_def)
qed

lemma comma_join_Cons: "ss \<noteq> [] \<Longrightarrow> comma_join (s # ss) = s @ [CHR '',''] @ comma_join ss"
  by (cases ss) simp_all

definition parses :: "json \<Rightarrow> bool" where
  "parses v \<longleftrightarrow> (\<forall>n r. length (Marshal v) \<le> n \<longrightarrow> delimited r \<longrightarrow> parse_value n (Marshal v @ r) = Some (v, r))"

lemma parsesD: "parses v \<Longrightarrow> length (Marshal v) \<le> n \<Longrightarrow> delimited r \<Longrightarrow> parse_value n (Marshal v @ r) = Some (v, r)"
  by (simp add: parses_def)

lemma parse_elements_Marshal:
  assumes "vs \<noteq> []" and "\<forall>v\<in>set vs. parses v \<and> plain_json v"
    and "length (comma_join (map Marshal vs)) < n"
  shows "parse_elements n (comma_join (map Marshal vs) @ CHR '']'' # r) = Some (vs, r)"
  using assms
proof (induction vs arbitrary: n)
  case Nil
  then show ?case by simp
next
  case (Cons v vs)
  then obtain m where n: "n = Suc m" by (cases n) auto
  have v: "parses v" using Cons.prems(2) by simp
  show ?case
  proof (cases "vs = []")
    case True
    have "parse_value m (Marshal v @ CHR '']'' # r) = Some (v, CHR '']'' # r)"
      using parsesD [OF v] Cons.prems(3) True n by (simp add: delimited_def)
    then show ?thesis using True n by (simp add: expect_Cons is_space_def)
  next
    case False
    let ?rest = "comma_join (map Marshal vs) @ CHR '']'' # r"
    have join: "comma_join (map Marshal (v # vs)) = Marshal v @ CHR '','' # comma_join (map Marshal vs)"
      using False by (simp add: comma_join_Cons)
    have "parse_value m (Marshal v @ CHR '','' # ?rest) = Some (v, CHR '','' # ?rest)"
      using parsesD [OF v] Cons.prems(3) join n by (simp add: delimited_def)
    moreover have "parse_elements m ?rest = Some (vs, r)"
      using Cons.IH [OF False, of m] Cons.prems join n by simp
    ultimately show ?thesis using n join by (simp add: expect_Cons is_space_def)
  qed
qed

definition member_text :: "string \<times> json \<Rightarrow> string" where
  "member_text = (\<lambda>(k, v). marshal_string k @ [CHR '':''] @ Marshal v)"

lemma parse_members_Marshal:
  assumes "fs \<noteq> []" and "\<forall>(k, v)\<in>set fs. parses v \<and> plain_json v"
    and "length (comma_join (map member_text fs)) < n"
  shows "parse_members n (comma_join (map member_text fs) @ CHR ''}'' # r) = Some (fs, r)"
  using assms
proof (induction fs arbitrary: n)
  case Nil
  then show ?case by simp
next
  case (Cons f fs)
  then obtain m where n: "n = Suc m" by (cases n) auto
  obtain k v where f: "f = (k, v)" by (cases f) auto
  have v: "parses v" using Cons.prems(2) f by auto
  have head: "parse_members (Suc m) (member_text f @ x) =
      (case expect (CHR '','') x of
         Some r5 \<Rightarrow> map_option (\<lambda>(ms, r). ((k, v) # ms, r)) (parse_members m r5)
       | None \<Rightarrow> map_option (\<lambda>r. ([(k, v)], r)) (expect (CHR ''}'') x))"
    if "length (Marshal v) \<le> m" "delimited x" for x
    using parsesD [OF v that] f
    by (simp add: member_text_def marshal_string_def expect_Cons is_space_def lex_string_marshal)
  show ?case
  proof (cases "fs = []")
    case True
    have "length (Marshal v) \<le> m" using Cons.prems(3) True n f by (simp add: member_text_def)
    then show ?thesis using head [of "CHR ''}'' # r"] True n f
      by (simp add: delimited_def expect_Cons is_space_def del: parse_members.simps)
  next
    case False
    let ?rest = "comma_join (map member_text fs) @ CHR ''}'' # r"
    have join: "comma_join (map member_text (f # fs)) = member_text f @ CHR '','' # comma_join (map member_text fs)"
      using False by (simp add: comma_join_Cons)
    have "length (Marshal v) \<le> m" using Cons.prems(3) join n f by (simp add: member_text_def)
    moreover have "parse_members m ?rest = Some (fs, r)"
      using Cons.IH [OF False, of m] Cons.prems join n by simp
    ultimately show ?thesis using head [of "CHR '','' # ?rest"] n join f
      by (simp add: delimited_def expect_Cons is_space_def del: parse_members.simps)
  qed
qed

lemma comma_join_first:
  assumes "ss \<noteq> []" and "\<exists>c s. hd ss = c # s \<and> value_start c"
  shows "\<exists>c s. comma_join ss = c # s \<and> value_start c"
  using assms by (cases ss rule: comma_join.cases) auto

lemma Marshal_parses: "plain_json v \<Longrightarrow> parses v"
proof (induction v)
  case (JNumber t)
  then have t: "t = Itoa (read_base 10 t)" by (simp add: plain_number_def)
  obtain c s where c: "Itoa (read_base 10 t) = c # s" "is_dec c" using Itoa_Cons by blast
  show ?case unfolding parses_def
  proof (intro allI impI)
    fix n r assume "length (Marshal (JNumber t)) \<le> n" "delimited r"
    then obtain m where "n = Suc m" using t c by (cases n) auto
    then show "parse_value n (Marshal (JNumber t) @ r) = Some (JNumber t, r)"
      using parse_scalar [of "JNumber t" c s m r] lex_scalar_Itoa [OF \<open>delimited r\<close>, of "read_base 10 t"] t c dec_start [OF c(2)]
      by simp
  qed
next
  case (JArray vs)
  have all: "\<forall>v\<in>set vs. parses v \<and> plain_json v" using JArray by (simp add: list_all_iff)
  show ?case unfolding parses_def
  proof (intro allI impI)
    fix n r assume n: "length (Marshal (JArray vs)) \<le> n"
    then obtain m where m: "n = Suc m" by (cases n) auto
    show "parse_value n (Marshal (JArray vs) @ r) = Some (JArray vs, r)"
    proof (cases "vs = []")
      case True
      then show ?thesis using m by (simp add: expect_Cons is_space_def)
    next
      case False
      obtain c s where "comma_join (map Marshal vs) = c # s" "value_start c"
        using comma_join_first [of "map Marshal vs"] False all Marshal_first by (metis hd_in_set list.map_disc_iff list.map_sel(1))
      then have "expect (CHR '']'') (comma_join (map Marshal vs) @ CHR '']'' # r) = None"
        by (simp add: value_start_def expect_Cons)
      then show ?thesis using m n parse_elements_Marshal [OF False all, of m r]
        by (simp add: expect_Cons [of "CHR ''[''"] is_space_def)
    qed
  qed
next
  case (JObject fs)
  have all: "\<forall>(k, v)\<in>set fs. parses v \<and> plain_json v"
    using JObject by (auto simp: list_all_iff snds.simps)
  have M: "Marshal (JObject fs) = CHR ''{'' # comma_join (map member_text fs) @ [CHR ''}'']"
    by (simp add: member_text_def)
  show ?case unfolding parses_def
  proof (intro allI impI)
    fix n r assume n: "length (Marshal (JObject fs)) \<le> n"
    then obtain m where m: "n = Suc m" by (cases n) auto
    show "parse_value n (Marshal (JObject fs) @ r) = Some (JObject fs, r)"
    proof (cases "fs = []")
      case True
      then show ?thesis using m by (simp add: expect_Cons is_space_def)
    next
      case False
      have "\<exists>c s. hd (map member_text fs) = c # s \<and> value_start c"
        using False by (simp add: hd_map member_text_def marshal_string_def split_def value_start_def is_space_def)
      then obtain c s where "comma_join (map member_text fs) = c # s" "value_start c"
        using comma_join_first [of "map member_text fs"] False by auto
      then have "expect (CHR ''}'') (comma_join (map member_text fs) @ CHR ''}'' # r) = None"
        by (simp add: value_start_def expect_Cons)
      then show ?thesis using m n parse_members_Marshal [OF False all, of m r] unfolding M
        by (simp add: expect_Cons [of "CHR ''{''"] is_space_def del: Marshal.simps)
    qed
  qed
next
  case (JString x)
  then show ?case
    using parse_scalar [of "JString x"] lex_scalar_string [of x]
    by (auto simp: parses_def value_start_def is_space_def marshal_string_def gr0_conv_Suc Suc_le_eq
        dest!: less_imp_Suc_add)
next
  case JNull
  then show ?case
    by (auto simp: parses_def expect_Cons skip_ws_Cons is_space_def lex_scalar_def strip_prefix_def Suc_le_D dest!: Suc_le_D)
next
  case (JBool b)
  then show ?case
    by (auto simp: parses_def expect_Cons skip_ws_Cons is_space_def lex_scalar_def strip_prefix_def dest!: Suc_le_D)
qed

text \<open>Decoding what was marshalled gives back the value and consumes the whole text.\<close>

lemma Decode_Marshal: "plain_json v \<Longrightarrow> Decode (Marshal v) = Some (v, [])"
  using parsesD [OF Marshal_parses, of v "Suc (length (Marshal v))" "[]"] by (simp add: Decode_def delimited_def)

lemma Marshal_inj: "plain_json v \<Longrightarrow> plain_json w \<Longrightarrow> Marshal v = Marshal w \<Longrightarrow> v = w"
  by (metis Decode_Marshal option.inject prod.inject)

end
