(* ===== verification/Firewall_Model.thy ===== *)
theory Firewall_Model
  imports Core_Policy Json
begin

text \<open>
  The platform-neutral firewall contracts (\<^verbatim>\<open>internal/firewall/capabilities.go\<close> and
  \<^verbatim>\<open>internal/firewall/snapshot.go\<close>): what a probe may claim about a backend, and the managed
  snapshot with its digest. The named string types of the source (\<^verbatim>\<open>BackendKind\<close>,
  \<^verbatim>\<open>ManagedScope\<close>, \<^verbatim>\<open>ManagedTimeoutMode\<close>) are strings, because the source tests them against
  their constants; a value with its presence flag is an option.
\<close>

section \<open>Capabilities\<close>

definition BackendKindNftablesNative :: string where "BackendKindNftablesNative = ''nftables-native''"
definition BackendKindIptablesNFT :: string where "BackendKindIptablesNFT = ''iptables-nft''"
definition BackendKindIptablesLegacy :: string where "BackendKindIptablesLegacy = ''iptables-legacy''"

record FirewallCapabilities =
  cap_backend :: string
  cap_toolVersion :: string
  cap_ipv4 :: bool
  cap_ipv6 :: bool
  cap_cidr :: bool
  cap_nativeSet :: bool
  cap_nativeTimeout :: bool
  cap_crashSafeExpiry :: bool
  cap_atomicBatch :: bool
  cap_hostInput :: bool
  cap_forward :: bool
  cap_ufwIntegrationProven :: bool
  cap_dockerIntegrationProven :: bool
  cap_ownershipProven :: bool
  cap_mutationReady :: bool

definition validBackendKind :: "string \<Rightarrow> bool" where
  "validBackendKind kind \<longleftrightarrow>
     kind \<in> {BackendKindNftablesNative, BackendKindIptablesNFT, BackendKindIptablesLegacy}"

text \<open>
  \<^verbatim>\<open>strings.TrimSpace\<close> on ASCII text; the test that follows it rejects every other byte.
\<close>

definition ascii_space :: "char \<Rightarrow> bool" where
  "ascii_space c \<longleftrightarrow> (let n = of_char c :: nat in n = 32 \<or> (9 \<le> n \<and> n \<le> 13))"

definition TrimSpace :: "string \<Rightarrow> string" where
  "TrimSpace s = rev (dropWhile ascii_space (rev (dropWhile ascii_space s)))"

definition validToolVersion :: "string \<Rightarrow> bool" where
  "validToolVersion version \<longleftrightarrow>
     \<not> (version = [] \<or> 128 < length version \<or> TrimSpace version \<noteq> version)
     \<and> list_all (\<lambda>c. \<not> (of_char c < (32 :: nat) \<or> (126 :: nat) < of_char c)) version"

datatype firewall_error = InvalidCapabilities | InvalidManagedSnapshot

definition FirewallCapabilities_Validate :: "FirewallCapabilities \<Rightarrow> firewall_error option" where
  "FirewallCapabilities_Validate c =
     (if \<not> validBackendKind (cap_backend c) \<or> \<not> validToolVersion (cap_toolVersion c)
         \<or> (\<not> cap_ipv4 c \<and> \<not> cap_ipv6 c) \<or> (\<not> cap_hostInput c \<and> \<not> cap_forward c)
         \<or> (cap_nativeTimeout c \<and> \<not> cap_nativeSet c)
         \<or> (cap_crashSafeExpiry c \<and> \<not> cap_nativeTimeout c)
         \<or> (cap_dockerIntegrationProven c \<and> \<not> cap_forward c)
         \<or> (cap_mutationReady c \<and> (\<not> cap_ownershipProven c \<or> \<not> cap_cidr c))
         \<or> (cap_backend c = BackendKindNftablesNative \<and> cap_mutationReady c
             \<and> (\<not> cap_nativeSet c \<or> \<not> cap_atomicBatch c))
      then Some InvalidCapabilities else None)"

text \<open>The specification struct has the same fields; the constructor copies them and validates.\<close>

definition NewFirewallCapabilities :: "FirewallCapabilities \<Rightarrow> firewall_error + FirewallCapabilities" where
  "NewFirewallCapabilities spec =
     (case FirewallCapabilities_Validate spec of Some e \<Rightarrow> Inl e | None \<Rightarrow> Inr spec)"

section \<open>Observations of the managed state\<close>

definition ManagedOwnerVersionV1 :: string where "ManagedOwnerVersionV1 = ''guard/v1''"
definition ManagedInfrastructureSchemaVersionV1 :: int where "ManagedInfrastructureSchemaVersionV1 = 1"
definition MaxManagedSnapshotTargets :: nat where "MaxManagedSnapshotTargets = 1024"

definition ManagedScopeInput :: string where "ManagedScopeInput = ''input''"
definition ManagedScopeForward :: string where "ManagedScopeForward = ''forward''"
definition ManagedTimeoutNone :: string where "ManagedTimeoutNone = ''none''"
definition ManagedTimeoutNative :: string where "ManagedTimeoutNative = ''native''"

definition lower_hex :: "char \<Rightarrow> bool" where
  "lower_hex c \<longleftrightarrow>
     (let n = of_char c :: nat in \<not> ((n < 48 \<or> 57 < n) \<and> (n < 97 \<or> 102 < n)))"

definition validSnapshotDigest :: "string \<Rightarrow> bool" where
  "validSnapshotDigest digest \<longleftrightarrow> length digest = 64 \<and> list_all lower_hex digest"

definition validManagedTarget :: "Prefix \<Rightarrow> bool" where
  "validManagedTarget target \<longleftrightarrow>
     \<not> (\<not> Prefix_IsValid target \<or> target \<noteq> Masked target)
     \<and> list_all (\<lambda>p. \<not> Overlaps target p) [loopback4, loopback6]"

fun scope_flags :: "string list \<Rightarrow> bool \<Rightarrow> bool \<Rightarrow> (bool \<times> bool) option" where
  "scope_flags [] input forward = Some (input, forward)"
| "scope_flags (s # ss) input forward =
     (if s = ManagedScopeInput then (if input then None else scope_flags ss True forward)
      else if s = ManagedScopeForward then (if forward then None else scope_flags ss input True)
      else None)"

definition canonicalManagedScopes :: "string list \<Rightarrow> string list option" where
  "canonicalManagedScopes scopes =
     (case scope_flags scopes False False of
        None \<Rightarrow> None
      | Some (input, forward) \<Rightarrow>
          (let canonical = (if input then [ManagedScopeInput] else []) @ (if forward then [ManagedScopeForward] else [])
           in if canonical \<noteq> [] then Some canonical else None))"

record InfrastructureObservation =
  iob_backend :: string
  iob_ownerVersion :: string
  iob_schemaVersion :: int
  iob_digest :: string
  iob_valid :: bool

definition InfrastructureObservation_Validate :: "InfrastructureObservation \<Rightarrow> firewall_error option" where
  "InfrastructureObservation_Validate o' =
     (if \<not> iob_valid o' \<or> \<not> validBackendKind (iob_backend o') \<or> iob_ownerVersion o' \<noteq> ManagedOwnerVersionV1
         \<or> iob_schemaVersion o' \<noteq> ManagedInfrastructureSchemaVersionV1 \<or> \<not> validSnapshotDigest (iob_digest o')
      then Some InvalidManagedSnapshot else None)"

definition NewInfrastructureObservation ::
  "string \<Rightarrow> string \<Rightarrow> int \<Rightarrow> string \<Rightarrow> firewall_error + InfrastructureObservation" where
  "NewInfrastructureObservation backend ownerVersion schemaVersion digest =
     (let observation = \<lparr> iob_backend = backend, iob_ownerVersion = ownerVersion,
                          iob_schemaVersion = schemaVersion, iob_digest = digest, iob_valid = True \<rparr>
      in case InfrastructureObservation_Validate observation of Some e \<Rightarrow> Inl e | None \<Rightarrow> Inr observation)"

record PolicyObservation =
  pob_relationDigest :: string
  pob_valid :: bool

definition PolicyObservation_Validate :: "PolicyObservation \<Rightarrow> firewall_error option" where
  "PolicyObservation_Validate o' =
     (if \<not> pob_valid o' \<or> \<not> validSnapshotDigest (pob_relationDigest o') then Some InvalidManagedSnapshot else None)"

definition NewPolicyObservation :: "string \<Rightarrow> firewall_error + PolicyObservation" where
  "NewPolicyObservation relationDigest =
     (let observation = \<lparr> pob_relationDigest = relationDigest, pob_valid = True \<rparr>
      in case PolicyObservation_Validate observation of Some e \<Rightarrow> Inl e | None \<Rightarrow> Inr observation)"

record TargetObservation =
  tob_target :: Prefix
  tob_timeoutMode :: string
  tob_effectiveUntil :: "int option"
  tob_scopes :: "string list"
  tob_valid :: bool

definition TargetObservation_Validate :: "TargetObservation \<Rightarrow> firewall_error option" where
  "TargetObservation_Validate o' =
     (if \<not> tob_valid o' \<or> \<not> validManagedTarget (tob_target o') \<or> length (tob_scopes o') < 1
         \<or> 2 < length (tob_scopes o')
      then Some InvalidManagedSnapshot
      else if canonicalManagedScopes (tob_scopes o') = None then Some InvalidManagedSnapshot
      else if tob_timeoutMode o' = ManagedTimeoutNone
      then (if tob_effectiveUntil o' \<noteq> None then Some InvalidManagedSnapshot else None)
      else if tob_timeoutMode o' = ManagedTimeoutNative
      then (case tob_effectiveUntil o' of
              None \<Rightarrow> Some InvalidManagedSnapshot
            | Some t \<Rightarrow> if t \<le> 0 then Some InvalidManagedSnapshot else None)
      else Some InvalidManagedSnapshot)"

definition NewTargetObservation ::
  "Prefix \<Rightarrow> string \<Rightarrow> int option \<Rightarrow> string list \<Rightarrow> firewall_error + TargetObservation" where
  "NewTargetObservation target timeoutMode effectiveUntil scopes =
     (case canonicalManagedScopes scopes of
        None \<Rightarrow> Inl InvalidManagedSnapshot
      | Some ss \<Rightarrow>
          (let observation = \<lparr> tob_target = target, tob_timeoutMode = timeoutMode,
                               tob_effectiveUntil = effectiveUntil, tob_scopes = ss, tob_valid = True \<rparr>
           in case TargetObservation_Validate observation of Some e \<Rightarrow> Inl e | None \<Rightarrow> Inr observation))"

section \<open>The managed state and its snapshot\<close>

record ManagedState =
  mst_infrastructure :: "InfrastructureObservation option"
  mst_policy :: "PolicyObservation option"
  mst_targets :: "TargetObservation list"
  mst_valid :: bool

text \<open>The loop over the targets, with the previous one.\<close>

fun validate_state_targets :: "TargetObservation option \<Rightarrow> TargetObservation list \<Rightarrow> firewall_error option" where
  "validate_state_targets previous [] = None"
| "validate_state_targets previous (target # rest) =
     (case TargetObservation_Validate target of
        Some e \<Rightarrow> Some InvalidManagedSnapshot
      | None \<Rightarrow>
          if (case previous of None \<Rightarrow> False | Some p \<Rightarrow> tob_target p = tob_target target)
          then Some InvalidManagedSnapshot
          else if (case previous of None \<Rightarrow> False
                   | Some p \<Rightarrow> Prefix_String (tob_target target) < Prefix_String (tob_target p))
          then Some InvalidManagedSnapshot
          else validate_state_targets (Some target) rest)"

definition ManagedState_Validate :: "ManagedState \<Rightarrow> firewall_error option" where
  "ManagedState_Validate s =
     (if \<not> mst_valid s \<or> MaxManagedSnapshotTargets < length (mst_targets s) then Some InvalidManagedSnapshot
      else if (case mst_infrastructure s of None \<Rightarrow> False
               | Some i \<Rightarrow> InfrastructureObservation_Validate i \<noteq> None)
      then Some InvalidManagedSnapshot
      else if (case mst_policy s of None \<Rightarrow> False | Some p \<Rightarrow> PolicyObservation_Validate p \<noteq> None)
      then Some InvalidManagedSnapshot
      else validate_state_targets None (mst_targets s))"

definition NewManagedState ::
  "InfrastructureObservation option \<Rightarrow> PolicyObservation option \<Rightarrow> TargetObservation list
     \<Rightarrow> firewall_error + ManagedState" where
  "NewManagedState infrastructure policy targets =
     (let state = \<lparr> mst_infrastructure = infrastructure, mst_policy = policy,
                    mst_targets = sort_key (\<lambda>t. Prefix_String (tob_target t)) targets, mst_valid = True \<rparr>
      in case ManagedState_Validate state of Some e \<Rightarrow> Inl e | None \<Rightarrow> Inr state)"

record ForeignContext =
  fcx_digest :: string
  fcx_valid :: bool

definition ForeignContext_Validate :: "ForeignContext \<Rightarrow> firewall_error option" where
  "ForeignContext_Validate c =
     (if \<not> fcx_valid c \<or> \<not> validSnapshotDigest (fcx_digest c) then Some InvalidManagedSnapshot else None)"

definition NewForeignContext :: "string \<Rightarrow> firewall_error + ForeignContext" where
  "NewForeignContext digest =
     (let context = \<lparr> fcx_digest = digest, fcx_valid = True \<rparr>
      in case ForeignContext_Validate context of Some e \<Rightarrow> Inl e | None \<Rightarrow> Inr context)"

text \<open>The JSON text whose SHA-256 is the snapshot digest.\<close>

definition json_int :: "int \<Rightarrow> json" where
  "json_int n = JNumber (if n < 0 then CHR ''-'' # Itoa (nat (- n)) else Itoa (nat n))"

definition json_opt :: "('a \<Rightarrow> json) \<Rightarrow> 'a option \<Rightarrow> json" where
  "json_opt f x = (case x of None \<Rightarrow> JNull | Some v \<Rightarrow> f v)"

definition infrastructure_wire :: "InfrastructureObservation \<Rightarrow> json" where
  "infrastructure_wire i =
     JObject [(''backend'', JString (iob_backend i)), (''owner_version'', JString (iob_ownerVersion i)),
              (''schema_version'', json_int (iob_schemaVersion i)), (''digest'', JString (iob_digest i))]"

definition policy_wire :: "PolicyObservation \<Rightarrow> json" where
  "policy_wire p = JObject [(''relation_digest'', JString (pob_relationDigest p))]"

definition target_wire :: "TargetObservation \<Rightarrow> json" where
  "target_wire t =
     JObject [(''target'', JString (Prefix_String (tob_target t))), (''timeout_mode'', JString (tob_timeoutMode t)),
              (''effective_until_unix_us'', json_opt json_int (tob_effectiveUntil t)),
              (''scopes'', JArray (map JString (tob_scopes t)))]"

definition snapshot_wire :: "ManagedState \<Rightarrow> ForeignContext \<Rightarrow> json" where
  "snapshot_wire state foreign =
     JObject [(''format'', JString ''guard-managed-snapshot/v1''),
              (''infrastructure'', json_opt infrastructure_wire (mst_infrastructure state)),
              (''policy'', json_opt policy_wire (mst_policy state)),
              (''targets'', JArray (map target_wire (mst_targets state))),
              (''foreign_digest'', JString (fcx_digest foreign))]"

definition computeManagedSnapshotDigest :: "ManagedState \<Rightarrow> ForeignContext \<Rightarrow> string" where
  "computeManagedSnapshotDigest state foreign =
     hex_EncodeToString (Sum256 (bytes_of (Marshal (snapshot_wire state foreign))))"

record ManagedSnapshot =
  msn_managedState :: ManagedState
  msn_foreignContext :: ForeignContext
  msn_digest :: string
  msn_valid :: bool

definition NewManagedSnapshot :: "ManagedState \<Rightarrow> ForeignContext \<Rightarrow> firewall_error + ManagedSnapshot" where
  "NewManagedSnapshot state foreign =
     (if ManagedState_Validate state \<noteq> None then Inl InvalidManagedSnapshot
      else if ForeignContext_Validate foreign \<noteq> None then Inl InvalidManagedSnapshot
      else Inr \<lparr> msn_managedState = state, msn_foreignContext = foreign,
                 msn_digest = computeManagedSnapshotDigest state foreign, msn_valid = True \<rparr>)"

definition ManagedSnapshot_Validate :: "ManagedSnapshot \<Rightarrow> firewall_error option" where
  "ManagedSnapshot_Validate s =
     (if \<not> msn_valid s \<or> \<not> validSnapshotDigest (msn_digest s) \<or> ManagedState_Validate (msn_managedState s) \<noteq> None
         \<or> ForeignContext_Validate (msn_foreignContext s) \<noteq> None
      then Some InvalidManagedSnapshot
      else if computeManagedSnapshotDigest (msn_managedState s) (msn_foreignContext s) \<noteq> msn_digest s
      then Some InvalidManagedSnapshot
      else None)"

end
