(* ===== verification/Firewall_Snapshot.thy ===== *)
theory Firewall_Snapshot
  imports Firewall_Model
begin

text \<open>
  Correctness of the managed snapshot: a valid state lists its targets strictly sorted, so it does not
  depend on the order in which a backend reports them, and the text that is hashed determines the
  state, so a digest names one state up to collisions of SHA-256.
\<close>

section \<open>Canonical states\<close>

lemma lower_hex_iff: "lower_hex c \<longleftrightarrow> is_digit_char c"
  by (auto simp: lower_hex_def is_digit_char_def Let_def)

lemma validSnapshotDigest_sum [simp]: "validSnapshotDigest (hex_EncodeToString (Sum256 m))"
  by (auto simp: validSnapshotDigest_def list_all_iff lower_hex_iff dest: hex_digits)

lemma TargetObservation_Validate_target:
  "TargetObservation_Validate t = None \<Longrightarrow> Prefix_IsValid (tob_target t) \<and> validManagedTarget (tob_target t) \<and> tob_valid t"
  by (auto simp: TargetObservation_Validate_def validManagedTarget_def split: if_splits)

definition targets_canonical :: "TargetObservation list \<Rightarrow> bool" where
  "targets_canonical ts \<longleftrightarrow>
     (\<forall>t\<in>set ts. TargetObservation_Validate t = None)
     \<and> sorted_wrt (<) (map (\<lambda>t. Prefix_String (tob_target t)) ts)"

lemma validate_state_targets_Cons:
  assumes "TargetObservation_Validate p = None"
  shows "validate_state_targets (Some p) (t # ts) = None \<longleftrightarrow>
    TargetObservation_Validate t = None \<and> Prefix_String (tob_target p) < Prefix_String (tob_target t)
    \<and> validate_state_targets (Some t) ts = None"
proof (cases "TargetObservation_Validate t")
  case None
  have "Prefix_String (tob_target p) < Prefix_String (tob_target t) \<longleftrightarrow>
      tob_target p \<noteq> tob_target t \<and> \<not> Prefix_String (tob_target t) < Prefix_String (tob_target p)"
    using Prefix_String_inj [of "tob_target p" "tob_target t"] assms None TargetObservation_Validate_target
    by (metis less_linear less_not_sym)
  then show ?thesis using None by auto
qed simp

lemma validate_state_targets_Some:
  "TargetObservation_Validate p = None \<Longrightarrow>
   validate_state_targets (Some p) ts = None \<longleftrightarrow> targets_canonical (p # ts)"
proof (induction ts arbitrary: p)
  case Nil
  then show ?case by (simp add: targets_canonical_def)
next
  case (Cons t ts)
  show ?case
  proof (cases "TargetObservation_Validate t = None")
    case True
    then show ?thesis
      unfolding validate_state_targets_Cons [OF Cons.prems] using Cons.IH [OF True] Cons.prems
      by (fastforce simp: targets_canonical_def)
  next
    case False
    then show ?thesis unfolding validate_state_targets_Cons [OF Cons.prems] targets_canonical_def by auto
  qed
qed

lemma validate_state_targets_None_iff: "validate_state_targets None ts = None \<longleftrightarrow> targets_canonical ts"
proof (cases ts)
  case (Cons t r)
  then show ?thesis using validate_state_targets_Some [of t r]
    by (auto simp: targets_canonical_def split: option.splits)
qed (simp add: targets_canonical_def)

lemma ManagedState_Validate_None_iff:
  "ManagedState_Validate s = None \<longleftrightarrow>
     mst_valid s \<and> length (mst_targets s) \<le> MaxManagedSnapshotTargets
     \<and> (\<forall>i. mst_infrastructure s = Some i \<longrightarrow> InfrastructureObservation_Validate i = None)
     \<and> (\<forall>p. mst_policy s = Some p \<longrightarrow> PolicyObservation_Validate p = None)
     \<and> targets_canonical (mst_targets s)"
  by (auto simp: ManagedState_Validate_def validate_state_targets_None_iff split: option.splits)

lemma targets_canonical_inj:
  assumes "targets_canonical ts"
  shows "inj_on (\<lambda>t. Prefix_String (tob_target t)) (set ts)"
proof -
  have "distinct (map (\<lambda>t. Prefix_String (tob_target t)) ts)"
    using assms unfolding targets_canonical_def by (simp add: strict_sorted_iff)
  then show ?thesis by (simp add: distinct_map)
qed

section \<open>The digest binds the state\<close>

lemma json_int_inj: "0 < m \<Longrightarrow> 0 < n \<Longrightarrow> json_int m = json_int n \<Longrightarrow> m = n"
  using Itoa_inj [of "nat m" "nat n"] by (simp add: json_int_def)

lemma plain_json_int [simp]: "0 < n \<Longrightarrow> plain_json (json_int n)"
  by (simp add: json_int_def)

lemma valid_target_until:
  "TargetObservation_Validate t = None \<Longrightarrow> tob_effectiveUntil t = Some n \<Longrightarrow> 0 < n"
  by (auto simp: TargetObservation_Validate_def split: if_splits)

lemma plain_target_wire: "TargetObservation_Validate t = None \<Longrightarrow> plain_json (target_wire t)"
  using valid_target_until [of t]
  by (cases "tob_effectiveUntil t") (simp_all add: target_wire_def json_opt_def list_all_iff)

lemma map_JString_inj: "map JString a = map JString b \<Longrightarrow> a = b"
  by (rule map_injective [of JString]) (simp_all add: inj_on_def)

lemma json_opt_inj:
  assumes "json_opt f a = json_opt f b" and "\<And>x. f x \<noteq> JNull"
    and "\<And>x y. a = Some x \<Longrightarrow> b = Some y \<Longrightarrow> f x = f y \<Longrightarrow> x = y"
  shows "a = b"
proof (cases a)
  case None
  then show ?thesis using assms(1) assms(2) [THEN not_sym] by (cases b) (simp_all add: json_opt_def)
next
  case (Some x)
  then obtain y where y: "b = Some y" using assms(1,2) by (cases b) (simp_all add: json_opt_def)
  then have "f x = f y" using assms(1) Some by (simp add: json_opt_def)
  then show ?thesis using assms(3) [OF Some y] Some y by simp
qed

lemma target_wire_inj:
  assumes "TargetObservation_Validate a = None" and "TargetObservation_Validate b = None"
    and "target_wire a = target_wire b"
  shows "a = b"
proof -
  have "tob_target a = tob_target b"
    using assms TargetObservation_Validate_target Prefix_String_inj [of "tob_target a" "tob_target b"]
    by (simp add: target_wire_def)
  moreover have "tob_effectiveUntil a = tob_effectiveUntil b"
  proof (rule json_opt_inj [of json_int])
    show "json_opt json_int (tob_effectiveUntil a) = json_opt json_int (tob_effectiveUntil b)"
      using assms(3) by (simp add: target_wire_def)
  next
    fix x show "json_int x \<noteq> JNull" by (simp add: json_int_def)
  next
    fix x y assume "tob_effectiveUntil a = Some x" "tob_effectiveUntil b = Some y" "json_int x = json_int y"
    then show "x = y" using json_int_inj valid_target_until assms(1,2) by blast
  qed
  moreover have "tob_valid a = tob_valid b" using assms TargetObservation_Validate_target by blast
  moreover have "tob_scopes a = tob_scopes b" "tob_timeoutMode a = tob_timeoutMode b"
    using assms(3) map_JString_inj [of "tob_scopes a" "tob_scopes b"] by (simp_all add: target_wire_def)
  ultimately show ?thesis by simp
qed

lemma target_wires_inj:
  assumes "\<forall>t\<in>set a. TargetObservation_Validate t = None" and "\<forall>t\<in>set b. TargetObservation_Validate t = None"
    and "map target_wire a = map target_wire b"
  shows "a = b"
  using assms(3)
proof (rule map_inj_on)
  show "inj_on target_wire (set a \<union> set b)"
    using assms(1,2) by (intro inj_onI) (blast intro: target_wire_inj)
qed

lemma infrastructure_wire_inj:
  assumes "InfrastructureObservation_Validate a = None" and "InfrastructureObservation_Validate b = None"
    and "infrastructure_wire a = infrastructure_wire b"
  shows "a = b"
  using assms by (simp add: infrastructure_wire_def InfrastructureObservation_Validate_def split: if_splits)

lemma policy_wire_inj:
  assumes "PolicyObservation_Validate a = None" and "PolicyObservation_Validate b = None"
    and "policy_wire a = policy_wire b"
  shows "a = b"
  using assms by (simp add: policy_wire_def PolicyObservation_Validate_def split: if_splits)

lemma plain_infrastructure_wire:
  "InfrastructureObservation_Validate i = None \<Longrightarrow> plain_json (infrastructure_wire i)"
  by (simp add: InfrastructureObservation_Validate_def infrastructure_wire_def
      ManagedInfrastructureSchemaVersionV1_def split: if_splits)

lemma plain_snapshot_wire:
  assumes "ManagedState_Validate s = None"
  shows "plain_json (snapshot_wire s f)"
proof -
  have ts: "\<forall>t\<in>set (mst_targets s). plain_json (target_wire t)"
    using assms plain_target_wire by (simp add: ManagedState_Validate_None_iff targets_canonical_def)
  have i: "plain_json (json_opt infrastructure_wire (mst_infrastructure s))"
    using assms plain_infrastructure_wire
    by (cases "mst_infrastructure s") (simp_all add: ManagedState_Validate_None_iff json_opt_def)
  have p: "plain_json (json_opt policy_wire (mst_policy s))"
    by (simp add: json_opt_def policy_wire_def split: option.splits)
  show ?thesis using ts i p by (simp add: snapshot_wire_def list_all_iff)
qed

lemma NewManagedSnapshot_validates:
  "NewManagedSnapshot state foreign = Inr s \<Longrightarrow> ManagedSnapshot_Validate s = None"
  by (auto simp: NewManagedSnapshot_def ManagedSnapshot_Validate_def computeManagedSnapshotDigest_def split: if_splits)

section \<open>Properties\<close>

text \<open>
  Claim C24. A managed state does not depend on the order in which the backend reports its targets,
  and every state that is built lists valid, pairwise different targets in canonical order.
\<close>

theorem NewManagedState_canonical:
  assumes "NewManagedState infrastructure policy targets = Inr state" and "mset targets' = mset targets"
  shows "NewManagedState infrastructure policy targets' = Inr state \<and> ManagedState_Validate state = None
     \<and> sorted_wrt (<) (map (\<lambda>t. Prefix_String (tob_target t)) (mst_targets state))
     \<and> set (mst_targets state) = set targets"
proof -
  let ?key = "\<lambda>t. Prefix_String (tob_target t)"
  have v: "ManagedState_Validate state = None" and ts: "mst_targets state = sort_key ?key targets"
    using assms(1) by (auto simp: NewManagedState_def Let_def split: option.splits)
  have can: "targets_canonical (sort_key ?key targets)" using v ts by (simp add: ManagedState_Validate_None_iff)
  have "inj_on ?key (set targets)" using targets_canonical_inj [OF can] by simp
  then have "sort_key ?key targets = sort_key ?key targets'"
    by (intro sort_key_permutes assms(2) [symmetric])
  then show ?thesis using assms(1) v ts can mset_eq_setD [OF assms(2)]
    by (simp add: NewManagedState_def targets_canonical_def)
qed

text \<open>
  Claim C25. The text that is hashed into the snapshot digest determines the managed state and the
  foreign context: two valid snapshots with the same text are the same, so authorising against a
  digest authorises against one state up to collisions of the hash.
\<close>

theorem snapshot_text_binds_state:
  assumes "ManagedState_Validate a = None" and "ManagedState_Validate b = None"
    and "ForeignContext_Validate f = None" and "ForeignContext_Validate g = None"
    and "Marshal (snapshot_wire a f) = Marshal (snapshot_wire b g)"
  shows "a = b \<and> f = g"
proof -
  have eq: "snapshot_wire a f = snapshot_wire b g"
    by (rule Marshal_inj [OF plain_snapshot_wire plain_snapshot_wire]) (use assms in simp_all)
  have "mst_infrastructure a = mst_infrastructure b"
  proof (rule json_opt_inj [of infrastructure_wire])
    show "json_opt infrastructure_wire (mst_infrastructure a) = json_opt infrastructure_wire (mst_infrastructure b)"
      using eq by (simp add: snapshot_wire_def)
  next
    fix x show "infrastructure_wire x \<noteq> JNull" by (simp add: infrastructure_wire_def)
  next
    fix x y assume "mst_infrastructure a = Some x" "mst_infrastructure b = Some y" and w: "infrastructure_wire x = infrastructure_wire y"
    then have "InfrastructureObservation_Validate x = None" "InfrastructureObservation_Validate y = None"
      using assms(1,2) by (simp_all add: ManagedState_Validate_None_iff)
    then show "x = y" using w by (rule infrastructure_wire_inj)
  qed
  moreover have "mst_policy a = mst_policy b"
  proof (rule json_opt_inj [of policy_wire])
    show "json_opt policy_wire (mst_policy a) = json_opt policy_wire (mst_policy b)"
      using eq by (simp add: snapshot_wire_def)
  next
    fix x show "policy_wire x \<noteq> JNull" by (simp add: policy_wire_def)
  next
    fix x y assume "mst_policy a = Some x" "mst_policy b = Some y" and w: "policy_wire x = policy_wire y"
    then have "PolicyObservation_Validate x = None" "PolicyObservation_Validate y = None"
      using assms(1,2) by (simp_all add: ManagedState_Validate_None_iff)
    then show "x = y" using w by (rule policy_wire_inj)
  qed
  moreover have "mst_targets a = mst_targets b"
  proof (rule target_wires_inj)
    show "map target_wire (mst_targets a) = map target_wire (mst_targets b)"
      using eq by (simp add: snapshot_wire_def)
  qed (use assms(1,2) in \<open>simp_all add: ManagedState_Validate_None_iff targets_canonical_def\<close>)
  moreover have "mst_valid a = mst_valid b" using assms(1,2) by (simp add: ManagedState_Validate_None_iff)
  moreover have "f = g"
    using eq assms(3,4) by (simp add: snapshot_wire_def ForeignContext_Validate_def split: if_splits)
  ultimately show ?thesis by simp
qed

text \<open>
  Claim C26. Every snapshot the constructor returns passes its own validation, and a snapshot passes
  it only with the digest that its content determines.
\<close>

theorem NewManagedSnapshot_valid:
  "ManagedSnapshot_Validate s = None \<longleftrightarrow>
     NewManagedSnapshot (msn_managedState s) (msn_foreignContext s) = Inr s"
proof (cases "ManagedState_Validate (msn_managedState s) = None \<and> ForeignContext_Validate (msn_foreignContext s) = None")
  case True
  then show ?thesis
    by (cases s) (auto simp: ManagedSnapshot_Validate_def NewManagedSnapshot_def computeManagedSnapshotDigest_def)
qed (auto simp: ManagedSnapshot_Validate_def NewManagedSnapshot_def)

definition sample_observation :: "u32 \<Rightarrow> TargetObservation" where
  "sample_observation a =
     \<lparr> tob_target = PrefixFrom (Addr4 a) 32, tob_timeoutMode = ManagedTimeoutNone, tob_effectiveUntil = None,
       tob_scopes = [ManagedScopeInput], tob_valid = True \<rparr>"

definition sample_state :: ManagedState where
  "sample_state =
     \<lparr> mst_infrastructure = None, mst_policy = None,
       mst_targets = [sample_observation 0x0A000001, sample_observation 0x0A000002], mst_valid = True \<rparr>"

definition sample_foreign :: ForeignContext where
  "sample_foreign = \<lparr> fcx_digest = replicate 64 CHR ''0'', fcx_valid = True \<rparr>"

theorem NewManagedState_canonical_witness:
  "NewManagedState None None [sample_observation 0x0A000002, sample_observation 0x0A000001] = Inr sample_state"
proof -
  have "NewManagedState None None [sample_observation 0x0A000001, sample_observation 0x0A000002] = Inr sample_state"
    by code_simp
  from NewManagedState_canonical [OF this, of "[sample_observation 0x0A000002, sample_observation 0x0A000001]"]
  show ?thesis by simp
qed

theorem snapshot_text_binds_state_witness:
  "Marshal (snapshot_wire sample_state sample_foreign) \<noteq>
   Marshal (snapshot_wire (sample_state\<lparr>mst_targets := [sample_observation 0x0A000001]\<rparr>) sample_foreign)"
proof
  let ?t = "sample_state\<lparr>mst_targets := [sample_observation 0x0A000001]\<rparr>"
  assume eq: "Marshal (snapshot_wire sample_state sample_foreign) = Marshal (snapshot_wire ?t sample_foreign)"
  have "ManagedState_Validate sample_state = None" "ManagedState_Validate ?t = None"
    "ForeignContext_Validate sample_foreign = None" by code_simp+
  from snapshot_text_binds_state [OF this(1,2) this(3) this(3) eq] show False by (simp add: sample_state_def)
qed

end
