(* ===== verification/Firewall_Mutation.thy ===== *)
theory Firewall_Mutation
  imports Firewall_Snapshot
begin

text \<open>
  Authorised mutations (\<^verbatim>\<open>internal/firewall/mutation.go\<close>): the four constructors that turn a request
  into an authority after checking it against the current capabilities and snapshot, and the results
  correlated to an authority. The closed interfaces of the source are one datatype.
\<close>

section \<open>Authorities\<close>

definition MutationOperationApply :: string where "MutationOperationApply = ''apply''"
definition MutationOperationRemove :: string where "MutationOperationRemove = ''remove''"
definition MutationDomainInfrastructure :: string where "MutationDomainInfrastructure = ''infrastructure''"
definition MutationDomainPolicy :: string where "MutationDomainPolicy = ''policy''"
definition MutationDomainTarget :: string where "MutationDomainTarget = ''target''"
definition TargetMembershipPresent :: string where "TargetMembershipPresent = ''present''"
definition TargetMembershipAbsent :: string where "TargetMembershipAbsent = ''absent''"

record operationPlanBase =
  opb_capabilities :: FirewallCapabilities
  opb_ownerVersion :: string
  opb_basisSnapshotDigest :: string
  opb_revision :: int
  opb_digest :: string

record removalAuthorization =
  rem_capabilities :: FirewallCapabilities
  rem_ownerVersion :: string
  rem_basisSnapshotDigest :: string
  rem_digest :: string

datatype AuthorizedMutation =
    infrastructureOperationPlan operationPlanBase int
  | policyOperationPlan operationPlanBase "Prefix list" "Prefix list"
  | targetOperationPlan operationPlanBase Prefix string string int bool "string list"
  | RemovalAuthorization removalAuthorization

fun mutation_Operation :: "AuthorizedMutation \<Rightarrow> string" where
  "mutation_Operation (RemovalAuthorization _) = MutationOperationRemove"
| "mutation_Operation _ = MutationOperationApply"

fun mutation_Digest :: "AuthorizedMutation \<Rightarrow> string" where
  "mutation_Digest (infrastructureOperationPlan b _) = opb_digest b"
| "mutation_Digest (policyOperationPlan b _ _) = opb_digest b"
| "mutation_Digest (targetOperationPlan b _ _ _ _ _ _) = opb_digest b"
| "mutation_Digest (RemovalAuthorization r) = rem_digest r"

fun mutation_Domain :: "AuthorizedMutation \<Rightarrow> string option" where
  "mutation_Domain (infrastructureOperationPlan _ _) = Some MutationDomainInfrastructure"
| "mutation_Domain (policyOperationPlan _ _ _) = Some MutationDomainPolicy"
| "mutation_Domain (targetOperationPlan _ _ _ _ _ _ _) = Some MutationDomainTarget"
| "mutation_Domain (RemovalAuthorization _) = None"

datatype MutationAuthorizationErrorCode =
    MutationAuthorizationErrorInvalidPlan
  | MutationAuthorizationErrorOwnershipConflict
  | MutationAuthorizationErrorUnsupported
  | MutationAuthorizationErrorNotReady
  | MutationAuthorizationErrorSnapshotMismatch

section \<open>Checks\<close>

definition validateMutationAuthority ::
  "FirewallCapabilities \<Rightarrow> ManagedSnapshot \<Rightarrow> string \<Rightarrow> MutationAuthorizationErrorCode option" where
  "validateMutationAuthority capabilities snapshot requestedBasisDigest =
     (if FirewallCapabilities_Validate capabilities \<noteq> None \<or> ManagedSnapshot_Validate snapshot \<noteq> None
         \<or> \<not> cap_mutationReady capabilities \<or> \<not> cap_ownershipProven capabilities
      then Some MutationAuthorizationErrorNotReady
      else if (case mst_infrastructure (msn_managedState snapshot) of
                 None \<Rightarrow> False
               | Some i \<Rightarrow> iob_backend i \<noteq> cap_backend capabilities)
      then Some MutationAuthorizationErrorNotReady
      else if requestedBasisDigest \<noteq> [] \<and> requestedBasisDigest \<noteq> msn_digest snapshot
      then Some MutationAuthorizationErrorSnapshotMismatch
      else None)"

fun Is6 :: "Addr \<Rightarrow> bool" where
  "Is6 (Addr6 _ _) = True"
| "Is6 _ = False"

definition supportsPrefix :: "FirewallCapabilities \<Rightarrow> Prefix \<Rightarrow> bool" where
  "supportsPrefix capabilities p =
     (if Is4 (pfx_addr p) \<and> \<not> cap_ipv4 capabilities \<or> Is6 (pfx_addr p) \<and> \<not> cap_ipv6 capabilities
      then False
      else Bits p = int (BitLen (pfx_addr p)) \<or> cap_cidr capabilities)"

definition supportsPrefixes :: "FirewallCapabilities \<Rightarrow> Prefix list \<Rightarrow> bool" where
  "supportsPrefixes capabilities = list_all (supportsPrefix capabilities)"

definition supportsScopes :: "FirewallCapabilities \<Rightarrow> string list \<Rightarrow> bool" where
  "supportsScopes capabilities =
     list_all (\<lambda>scope. \<not> (scope = ManagedScopeInput \<and> \<not> cap_hostInput capabilities
                          \<or> scope = ManagedScopeForward \<and> \<not> cap_forward capabilities))"

fun validCanonicalPrefixList_from :: "Prefix option \<Rightarrow> Prefix list \<Rightarrow> bool" where
  "validCanonicalPrefixList_from previous [] = True"
| "validCanonicalPrefixList_from previous (p # ps) =
     (if \<not> Prefix_IsValid p \<or> p \<noteq> Masked p then False
      else if (case previous of None \<Rightarrow> False | Some q \<Rightarrow> Prefix_String p \<le> Prefix_String q) then False
      else validCanonicalPrefixList_from (Some p) ps)"

definition validCanonicalPrefixList :: "Prefix list \<Rightarrow> bool" where
  "validCanonicalPrefixList = validCanonicalPrefixList_from None"

definition hasMandatoryProtectedTargets :: "Prefix list \<Rightarrow> bool" where
  "hasMandatoryProtectedTargets prefixes \<longleftrightarrow>
     list_ex (\<lambda>p. p = loopback4) prefixes \<and> list_ex (\<lambda>p. p = loopback6) prefixes"

definition validTargetTimeout :: "string \<Rightarrow> string \<Rightarrow> int \<Rightarrow> bool \<Rightarrow> bool" where
  "validTargetTimeout membership mode expiry hasExpiry =
     (if membership = TargetMembershipAbsent then mode = ManagedTimeoutNone \<and> \<not> hasExpiry \<and> expiry = 0
      else if mode = ManagedTimeoutNone then \<not> hasExpiry \<and> expiry = 0
      else if mode = ManagedTimeoutNative then hasExpiry \<and> 0 < expiry
      else False)"

section \<open>Digests of authorities\<close>

definition capabilitiesDigest :: "FirewallCapabilities \<Rightarrow> json" where
  "capabilitiesDigest c =
     JObject [(''tool_version'', JString (cap_toolVersion c)), (''ipv4'', JBool (cap_ipv4 c)),
              (''ipv6'', JBool (cap_ipv6 c)), (''cidr'', JBool (cap_cidr c)), (''native_set'', JBool (cap_nativeSet c)),
              (''native_timeout'', JBool (cap_nativeTimeout c)),
              (''crash_safe_expiry'', JBool (cap_crashSafeExpiry c)), (''atomic_batch'', JBool (cap_atomicBatch c)),
              (''host_input'', JBool (cap_hostInput c)), (''forward'', JBool (cap_forward c)),
              (''ufw_integration_proven'', JBool (cap_ufwIntegrationProven c)),
              (''docker_integration_proven'', JBool (cap_dockerIntegrationProven c)),
              (''ownership_proven'', JBool (cap_ownershipProven c)), (''mutation_ready'', JBool (cap_mutationReady c))]"

definition digestMutation :: "json \<Rightarrow> string" where
  "digestMutation value = hex_EncodeToString (Sum256 (bytes_of (Marshal value)))"

definition plan_wire :: "string \<Rightarrow> operationPlanBase \<Rightarrow> (string \<times> json) list \<Rightarrow> json" where
  "plan_wire domain base extra =
     JObject ([(''format'', JString ''guard-firewall-mutation/v1''), (''operation'', JString MutationOperationApply),
               (''domain'', JString domain), (''backend'', JString (cap_backend (opb_capabilities base))),
               (''capabilities'', capabilitiesDigest (opb_capabilities base)),
               (''owner_version'', JString (opb_ownerVersion base)),
               (''basis_snapshot_digest'', JString (opb_basisSnapshotDigest base)),
               (''revision'', json_int (opb_revision base))] @ extra)"

definition removal_wire :: "removalAuthorization \<Rightarrow> json" where
  "removal_wire r =
     JObject [(''format'', JString ''guard-firewall-mutation/v1''), (''operation'', JString MutationOperationRemove),
              (''backend'', JString (cap_backend (rem_capabilities r))),
              (''capabilities'', capabilitiesDigest (rem_capabilities r)),
              (''owner_version'', JString (rem_ownerVersion r)),
              (''basis_snapshot_digest'', JString (rem_basisSnapshotDigest r))]"

definition newOperationPlanBase :: "FirewallCapabilities \<Rightarrow> string \<Rightarrow> int \<Rightarrow> operationPlanBase" where
  "newOperationPlanBase capabilities basisSnapshotDigest revision =
     \<lparr> opb_capabilities = capabilities, opb_ownerVersion = ManagedOwnerVersionV1,
       opb_basisSnapshotDigest = basisSnapshotDigest, opb_revision = revision, opb_digest = [] \<rparr>"

section \<open>Authorisation\<close>

definition AuthorizeInfrastructureMutation ::
  "FirewallCapabilities \<Rightarrow> ManagedSnapshot \<Rightarrow> string \<Rightarrow> int \<Rightarrow> MutationAuthorizationErrorCode + AuthorizedMutation" where
  "AuthorizeInfrastructureMutation capabilities snapshot requestedBasisDigest revision =
     (if \<not> validSnapshotDigest requestedBasisDigest \<or> revision \<le> 0
      then Inl MutationAuthorizationErrorInvalidPlan
      else case validateMutationAuthority capabilities snapshot requestedBasisDigest of
        Some e \<Rightarrow> Inl e
      | None \<Rightarrow>
          (let base = newOperationPlanBase capabilities requestedBasisDigest revision;
               wire = plan_wire MutationDomainInfrastructure base
                        [(''schema_version'', json_int ManagedInfrastructureSchemaVersionV1)]
           in Inr (infrastructureOperationPlan (base\<lparr>opb_digest := digestMutation wire\<rparr>)
                     ManagedInfrastructureSchemaVersionV1)))"

definition AuthorizePolicyMutation ::
  "FirewallCapabilities \<Rightarrow> ManagedSnapshot \<Rightarrow> string \<Rightarrow> int \<Rightarrow> Prefix list \<Rightarrow> Prefix list
     \<Rightarrow> MutationAuthorizationErrorCode + AuthorizedMutation" where
  "AuthorizePolicyMutation capabilities snapshot requestedBasisDigest revision allowlist protectedTargets =
     (if \<not> validSnapshotDigest requestedBasisDigest \<or> revision \<le> 0
         \<or> MaxManagedSnapshotTargets < length allowlist + length protectedTargets
         \<or> length protectedTargets < 2 \<or> \<not> validCanonicalPrefixList allowlist
         \<or> \<not> validCanonicalPrefixList protectedTargets \<or> \<not> hasMandatoryProtectedTargets protectedTargets
      then Inl MutationAuthorizationErrorInvalidPlan
      else case validateMutationAuthority capabilities snapshot requestedBasisDigest of
        Some e \<Rightarrow> Inl e
      | None \<Rightarrow>
          if mst_infrastructure (msn_managedState snapshot) = None then Inl MutationAuthorizationErrorNotReady
          else if \<not> supportsPrefixes capabilities allowlist \<or> \<not> supportsPrefixes capabilities protectedTargets
          then Inl MutationAuthorizationErrorUnsupported
          else (let base = newOperationPlanBase capabilities requestedBasisDigest revision;
                    wire = plan_wire MutationDomainPolicy base
                             [(''allowlist'', JArray (map (\<lambda>p. JString (Prefix_String p)) allowlist)),
                              (''protected_targets'', JArray (map (\<lambda>p. JString (Prefix_String p)) protectedTargets))]
                in Inr (policyOperationPlan (base\<lparr>opb_digest := digestMutation wire\<rparr>) allowlist protectedTargets)))"

definition AuthorizeTargetMutation ::
  "FirewallCapabilities \<Rightarrow> ManagedSnapshot \<Rightarrow> string \<Rightarrow> int \<Rightarrow> Prefix \<Rightarrow> string \<Rightarrow> string \<Rightarrow> int \<Rightarrow> bool
     \<Rightarrow> string list \<Rightarrow> MutationAuthorizationErrorCode + AuthorizedMutation" where
  "AuthorizeTargetMutation capabilities snapshot requestedBasisDigest revision target membership timeoutMode
       effectiveUntilUnixMicro hasEffectiveUntil scopeInput =
     (if \<not> validSnapshotDigest requestedBasisDigest \<or> revision \<le> 0 \<or> \<not> validManagedTarget target
         \<or> membership \<noteq> TargetMembershipPresent \<and> membership \<noteq> TargetMembershipAbsent
      then Inl MutationAuthorizationErrorInvalidPlan
      else if (case canonicalManagedScopes scopeInput of None \<Rightarrow> True | Some scopes \<Rightarrow> scopes \<noteq> scopeInput)
              \<or> \<not> validTargetTimeout membership timeoutMode effectiveUntilUnixMicro hasEffectiveUntil
      then Inl MutationAuthorizationErrorInvalidPlan
      else case validateMutationAuthority capabilities snapshot requestedBasisDigest of
        Some e \<Rightarrow> Inl e
      | None \<Rightarrow>
          if mst_infrastructure (msn_managedState snapshot) = None then Inl MutationAuthorizationErrorNotReady
          else if membership = TargetMembershipPresent \<and> mst_policy (msn_managedState snapshot) = None
          then Inl MutationAuthorizationErrorNotReady
          else if \<not> supportsPrefix capabilities target \<or> \<not> supportsScopes capabilities scopeInput
                  \<or> timeoutMode = ManagedTimeoutNative
                     \<and> (\<not> cap_nativeTimeout capabilities \<or> \<not> cap_crashSafeExpiry capabilities)
          then Inl MutationAuthorizationErrorUnsupported
          else (let base = newOperationPlanBase capabilities requestedBasisDigest revision;
                    wire = plan_wire MutationDomainTarget base
                             [(''target'', JString (Prefix_String target)), (''membership'', JString membership),
                              (''timeout_mode'', JString timeoutMode),
                              (''effective_until_unix_us'',
                                if hasEffectiveUntil then json_int effectiveUntilUnixMicro else JNull),
                              (''scopes'', JArray (map JString scopeInput))]
                in Inr (targetOperationPlan (base\<lparr>opb_digest := digestMutation wire\<rparr>) target membership timeoutMode
                          effectiveUntilUnixMicro hasEffectiveUntil scopeInput)))"

text \<open>\<^term>\<open>Inr None\<close> is the answer \<^verbatim>\<open>alreadyAbsent\<close>: nothing is installed, so nothing is authorised.\<close>

definition AuthorizeManagedRemoval ::
  "FirewallCapabilities \<Rightarrow> ManagedSnapshot \<Rightarrow> string \<Rightarrow> MutationAuthorizationErrorCode + AuthorizedMutation option" where
  "AuthorizeManagedRemoval capabilities snapshot expectedOwnerVersion =
     (if expectedOwnerVersion \<noteq> ManagedOwnerVersionV1 then Inl MutationAuthorizationErrorOwnershipConflict
      else case validateMutationAuthority capabilities snapshot [] of
        Some e \<Rightarrow> Inl e
      | None \<Rightarrow>
          (let state = msn_managedState snapshot in
           if mst_infrastructure state = None \<and> mst_policy state = None \<and> mst_targets state = []
           then Inr None
           else (let removal = \<lparr> rem_capabilities = capabilities, rem_ownerVersion = expectedOwnerVersion,
                                 rem_basisSnapshotDigest = msn_digest snapshot, rem_digest = [] \<rparr>
                 in Inr (Some (RemovalAuthorization (removal\<lparr>rem_digest := digestMutation (removal_wire removal)\<rparr>))))))"

section \<open>Results\<close>

definition MutationStatusConfirmed :: string where "MutationStatusConfirmed = ''confirmed''"
definition MutationStatusRejected :: string where "MutationStatusRejected = ''rejected''"
definition MutationStatusUnknown :: string where "MutationStatusUnknown = ''unknown''"
definition MutationErrorInvalidPlan :: string where "MutationErrorInvalidPlan = ''invalid_plan''"
definition MutationErrorOwnershipConflict :: string where "MutationErrorOwnershipConflict = ''ownership_conflict''"
definition MutationErrorUnsupported :: string where "MutationErrorUnsupported = ''unsupported''"
definition MutationErrorNotReady :: string where "MutationErrorNotReady = ''not_ready''"
definition MutationErrorBackendRejected :: string where "MutationErrorBackendRejected = ''backend_rejected''"
definition MutationErrorUnknownResult :: string where "MutationErrorUnknownResult = ''unknown_result''"

record MutationResult =
  mre_operation :: string
  mre_domain :: "string option"
  mre_mutationDigest :: string
  mre_status :: string
  mre_errorCode :: "string option"
  mre_valid :: bool

definition validRejectedMutationCode :: "string \<Rightarrow> bool" where
  "validRejectedMutationCode code \<longleftrightarrow>
     code \<in> {MutationErrorInvalidPlan, MutationErrorOwnershipConflict, MutationErrorUnsupported,
             MutationErrorNotReady, MutationErrorBackendRejected}"

definition validMutationDomain :: "string \<Rightarrow> bool" where
  "validMutationDomain domain \<longleftrightarrow>
     domain \<in> {MutationDomainInfrastructure, MutationDomainPolicy, MutationDomainTarget}"

definition validMutationResultState :: "string \<Rightarrow> string \<Rightarrow> string option \<Rightarrow> bool" where
  "validMutationResultState operation status code =
     (if operation \<noteq> MutationOperationApply \<and> operation \<noteq> MutationOperationRemove then False
      else if status = MutationStatusConfirmed then code = None
      else if status = MutationStatusUnknown then code = Some MutationErrorUnknownResult
      else if status = MutationStatusRejected
      then (case code of
              None \<Rightarrow> False
            | Some c \<Rightarrow>
                if c = MutationErrorUnknownResult \<or> \<not> validRejectedMutationCode c then False
                else operation = MutationOperationApply \<or> c \<noteq> MutationErrorInvalidPlan)
      else False)"

definition validOperationPlan :: "operationPlanBase \<Rightarrow> bool" where
  "validOperationPlan b \<longleftrightarrow>
     opb_ownerVersion b = ManagedOwnerVersionV1 \<and> FirewallCapabilities_Validate (opb_capabilities b) = None
     \<and> validSnapshotDigest (opb_basisSnapshotDigest b) \<and> 0 < opb_revision b \<and> validSnapshotDigest (opb_digest b)"

fun mutationIdentity :: "AuthorizedMutation \<Rightarrow> bool" where
  "mutationIdentity (infrastructureOperationPlan b _) = validOperationPlan b"
| "mutationIdentity (policyOperationPlan b _ _) = validOperationPlan b"
| "mutationIdentity (targetOperationPlan b _ _ _ _ _ _) = validOperationPlan b"
| "mutationIdentity (RemovalAuthorization r) =
     (\<not> (rem_ownerVersion r \<noteq> ManagedOwnerVersionV1 \<or> \<not> validSnapshotDigest (rem_basisSnapshotDigest r)
         \<or> FirewallCapabilities_Validate (rem_capabilities r) \<noteq> None \<or> \<not> validSnapshotDigest (rem_digest r)))"

definition newMutationResult :: "AuthorizedMutation \<Rightarrow> string \<Rightarrow> string option \<Rightarrow> MutationResult option" where
  "newMutationResult mutation status code =
     (if \<not> mutationIdentity mutation \<or> \<not> validMutationResultState (mutation_Operation mutation) status code then None
      else Some \<lparr> mre_operation = mutation_Operation mutation, mre_domain = mutation_Domain mutation,
                  mre_mutationDigest = mutation_Digest mutation, mre_status = status, mre_errorCode = code,
                  mre_valid = True \<rparr>)"

definition NewConfirmedMutationResult :: "AuthorizedMutation \<Rightarrow> MutationResult option" where
  "NewConfirmedMutationResult mutation = newMutationResult mutation MutationStatusConfirmed None"

definition NewRejectedMutationResult :: "AuthorizedMutation \<Rightarrow> string \<Rightarrow> MutationResult option" where
  "NewRejectedMutationResult mutation code = newMutationResult mutation MutationStatusRejected (Some code)"

definition NewUnknownMutationResult :: "AuthorizedMutation \<Rightarrow> MutationResult option" where
  "NewUnknownMutationResult mutation =
     newMutationResult mutation MutationStatusUnknown (Some MutationErrorUnknownResult)"

definition MutationResult_valid :: "MutationResult \<Rightarrow> bool" where
  "MutationResult_valid r \<longleftrightarrow>
     \<not> (\<not> mre_valid r \<or> \<not> validSnapshotDigest (mre_mutationDigest r)
        \<or> \<not> validMutationResultState (mre_operation r) (mre_status r) (mre_errorCode r)
        \<or> (mre_operation r = MutationOperationApply) \<noteq> (mre_domain r \<noteq> None)
        \<or> (case mre_domain r of None \<Rightarrow> False | Some d \<Rightarrow> \<not> validMutationDomain d))"

section \<open>What an authority guarantees\<close>

fun mutation_basis :: "AuthorizedMutation \<Rightarrow> string" where
  "mutation_basis (infrastructureOperationPlan b _) = opb_basisSnapshotDigest b"
| "mutation_basis (policyOperationPlan b _ _) = opb_basisSnapshotDigest b"
| "mutation_basis (targetOperationPlan b _ _ _ _ _ _) = opb_basisSnapshotDigest b"
| "mutation_basis (RemovalAuthorization r) = rem_basisSnapshotDigest r"

definition authority_ready :: "FirewallCapabilities \<Rightarrow> ManagedSnapshot \<Rightarrow> bool" where
  "authority_ready c s \<longleftrightarrow>
     FirewallCapabilities_Validate c = None \<and> ManagedSnapshot_Validate s = None \<and> cap_mutationReady c
     \<and> cap_ownershipProven c
     \<and> (\<forall>i. mst_infrastructure (msn_managedState s) = Some i \<longrightarrow> iob_backend i = cap_backend c)"

lemma validateMutationAuthority_None_iff:
  "validateMutationAuthority c s d = None \<longleftrightarrow> authority_ready c s \<and> (d = [] \<or> d = msn_digest s)"
  by (auto simp: validateMutationAuthority_def authority_ready_def split: option.splits)

lemma validSnapshotDigest_nonempty: "validSnapshotDigest d \<Longrightarrow> d \<noteq> []"
  by (auto simp: validSnapshotDigest_def)

lemma valid_snapshot_digest: "ManagedSnapshot_Validate s = None \<Longrightarrow> validSnapshotDigest (msn_digest s)"
  by (simp add: ManagedSnapshot_Validate_def split: if_splits)

lemma digestMutation_valid [simp]: "validSnapshotDigest (digestMutation w)"
  by (simp add: digestMutation_def)

lemma new_base_valid:
  "FirewallCapabilities_Validate c = None \<Longrightarrow> validSnapshotDigest d \<Longrightarrow> 0 < n \<Longrightarrow>
   validOperationPlan ((newOperationPlanBase c d n)\<lparr>opb_digest := digestMutation w\<rparr>)"
  by (simp add: validOperationPlan_def newOperationPlanBase_def)

text \<open>What holds of a plan whichever constructor made it.\<close>

definition sound_authority :: "FirewallCapabilities \<Rightarrow> ManagedSnapshot \<Rightarrow> AuthorizedMutation \<Rightarrow> bool" where
  "sound_authority c s m \<longleftrightarrow>
     authority_ready c s \<and> mutation_basis m = msn_digest s \<and> mutationIdentity m"

lemma AuthorizeInfrastructureMutation_sound:
  assumes "AuthorizeInfrastructureMutation c s d n = Inr m"
  shows "sound_authority c s m \<and> mutation_Domain m = Some MutationDomainInfrastructure"
  using assms new_base_valid [of c d n] validSnapshotDigest_nonempty [of d]
  by (auto simp: AuthorizeInfrastructureMutation_def Let_def sound_authority_def validateMutationAuthority_None_iff
      authority_ready_def newOperationPlanBase_def split: if_splits option.splits)

definition policy_plan_ok :: "FirewallCapabilities \<Rightarrow> Prefix list \<Rightarrow> Prefix list \<Rightarrow> bool" where
  "policy_plan_ok c allow protected \<longleftrightarrow>
     validCanonicalPrefixList allow \<and> validCanonicalPrefixList protected
     \<and> loopback4 \<in> set protected \<and> loopback6 \<in> set protected
     \<and> length allow + length protected \<le> MaxManagedSnapshotTargets
     \<and> supportsPrefixes c allow \<and> supportsPrefixes c protected"

lemma AuthorizePolicyMutation_sound:
  assumes "AuthorizePolicyMutation c s d n allow protected = Inr m"
  shows "sound_authority c s m \<and> mutation_Domain m = Some MutationDomainPolicy \<and> policy_plan_ok c allow protected
     \<and> mst_infrastructure (msn_managedState s) \<noteq> None"
  using assms new_base_valid [of c d n] validSnapshotDigest_nonempty [of d]
  by (auto simp: AuthorizePolicyMutation_def Let_def sound_authority_def validateMutationAuthority_None_iff
      authority_ready_def newOperationPlanBase_def policy_plan_ok_def hasMandatoryProtectedTargets_def
      list_ex_iff split: if_splits option.splits)

definition target_plan_ok ::
  "FirewallCapabilities \<Rightarrow> ManagedState \<Rightarrow> Prefix \<Rightarrow> string \<Rightarrow> string \<Rightarrow> int \<Rightarrow> bool \<Rightarrow> string list \<Rightarrow> bool" where
  "target_plan_ok c st target membership mode expiry hasExpiry scopes \<longleftrightarrow>
     canonical target \<and> \<not> Overlaps target loopback4 \<and> \<not> Overlaps target loopback6
     \<and> mst_infrastructure st \<noteq> None \<and> \<not> (membership = TargetMembershipPresent \<and> mst_policy st = None)
     \<and> canonicalManagedScopes scopes = Some scopes
     \<and> validTargetTimeout membership mode expiry hasExpiry
     \<and> supportsPrefix c target \<and> supportsScopes c scopes
     \<and> \<not> (mode = ManagedTimeoutNative \<and> \<not> (cap_nativeTimeout c \<and> cap_crashSafeExpiry c))"

lemma AuthorizeTargetMutation_sound:
  assumes "AuthorizeTargetMutation c s d n target membership mode expiry hasExpiry scopes = Inr m"
  shows "sound_authority c s m \<and> mutation_Domain m = Some MutationDomainTarget
     \<and> target_plan_ok c (msn_managedState s) target membership mode expiry hasExpiry scopes"
proof -
  have g: "validSnapshotDigest d" "0 < n" "validManagedTarget target"
      "canonicalManagedScopes scopes = Some scopes" "validTargetTimeout membership mode expiry hasExpiry"
      "validateMutationAuthority c s d = None"
    using assms by (auto simp: AuthorizeTargetMutation_def split: if_splits option.splits)
  have r: "mst_infrastructure (msn_managedState s) \<noteq> None"
      "\<not> (membership = TargetMembershipPresent \<and> mst_policy (msn_managedState s) = None)"
      "supportsPrefix c target" "supportsScopes c scopes"
      "\<not> (mode = ManagedTimeoutNative \<and> \<not> (cap_nativeTimeout c \<and> cap_crashSafeExpiry c))"
    using assms g by (auto simp: AuthorizeTargetMutation_def split: if_splits)
  have "\<exists>w. m = targetOperationPlan ((newOperationPlanBase c d n)\<lparr>opb_digest := digestMutation w\<rparr>)
      target membership mode expiry hasExpiry scopes"
    using assms g r by (auto simp: AuthorizeTargetMutation_def Let_def split: if_splits)
  then have "sound_authority c s m \<and> mutation_Domain m = Some MutationDomainTarget"
    using g new_base_valid [of c d n] validSnapshotDigest_nonempty [of d]
    by (auto simp: sound_authority_def validateMutationAuthority_None_iff authority_ready_def newOperationPlanBase_def)
  then show ?thesis using g r by (simp add: target_plan_ok_def validManagedTarget_def canonical_def)
qed

lemma AuthorizeManagedRemoval_sound:
  assumes "AuthorizeManagedRemoval c s owner = Inr (Some m)"
  shows "sound_authority c s m \<and> mutation_Domain m = None \<and> owner = ManagedOwnerVersionV1"
  using assms valid_snapshot_digest [of s]
  by (auto simp: AuthorizeManagedRemoval_def Let_def sound_authority_def validateMutationAuthority_None_iff
      authority_ready_def split: if_splits option.splits)

section \<open>What a result guarantees\<close>

lemma mutationIdentity_digest: "mutationIdentity m \<Longrightarrow> validSnapshotDigest (mutation_Digest m)"
  by (cases m) (simp_all add: validOperationPlan_def)

lemma mutation_domain_shape:
  "(mutation_Operation m = MutationOperationApply) = (mutation_Domain m \<noteq> None)"
  "mutation_Domain m = Some d \<Longrightarrow> validMutationDomain d"
  by (cases m; simp add: MutationOperationApply_def MutationOperationRemove_def validMutationDomain_def)+

lemma newMutationResult_valid:
  assumes "newMutationResult m status code = Some r"
  shows "MutationResult_valid r \<and> mre_mutationDigest r = mutation_Digest m \<and> mre_operation r = mutation_Operation m
     \<and> mre_domain r = mutation_Domain m \<and> mre_status r = status \<and> mre_errorCode r = code"
proof -
  have i: "mutationIdentity m" "validMutationResultState (mutation_Operation m) status code"
    and r: "r = \<lparr> mre_operation = mutation_Operation m, mre_domain = mutation_Domain m,
                  mre_mutationDigest = mutation_Digest m, mre_status = status, mre_errorCode = code, mre_valid = True \<rparr>"
    using assms by (simp_all add: newMutationResult_def split: if_splits)
  show ?thesis using i mutationIdentity_digest [OF i(1)] mutation_domain_shape [of m]
    by (simp add: r MutationResult_valid_def split: option.splits)
qed

lemma unknown_result: "mutationIdentity m \<Longrightarrow> \<exists>r. NewUnknownMutationResult m = Some r"
  by (cases m) (simp_all add: NewUnknownMutationResult_def newMutationResult_def validMutationResultState_def
      MutationStatusUnknown_def MutationStatusConfirmed_def)

end
