(* ===== verification/Netip_Parse.thy ===== *)
theory Netip_Parse
  imports Netip_Text
begin

text \<open>
  Reading a prefix back from its text. The repository only accepts a text that \<^verbatim>\<open>netip.ParsePrefix\<close>
  reads as a masked prefix whose \<^verbatim>\<open>String\<close> is the text itself, so it is enough to read the canonical
  spelling: every other text is refused by that comparison, whatever the parser makes of it.
\<close>

definition read_digits :: "nat \<Rightarrow> nat list \<Rightarrow> nat" where
  "read_digits b ds = foldl (\<lambda>acc d. acc * b + d) 0 ds"

lemma read_digits_snoc: "read_digits b (map f [0..<Suc n]) = read_digits b (map f [0..<n]) * b + f n"
  by (simp add: read_digits_def)

lemma read_digits_spread:
  "read_digits b (map (\<lambda>i. x div b ^ (n - 1 - i) mod b) [0..<n]) = x mod b ^ n"
proof (induction n arbitrary: x)
  case 0
  then show ?case by (simp add: read_digits_def)
next
  case (Suc n)
  have "map (\<lambda>i. x div b ^ (Suc n - 1 - i) mod b) [0..<n] = map (\<lambda>i. (x div b) div b ^ (n - 1 - i) mod b) [0..<n]"
  proof (rule map_cong [OF refl])
    fix i assume "i \<in> set [0..<n]"
    then have "b ^ (Suc n - 1 - i) = b * b ^ (n - 1 - i)" by (simp flip: power_Suc add: Suc_diff_Suc)
    then show "x div b ^ (Suc n - 1 - i) mod b = (x div b) div b ^ (n - 1 - i) mod b"
      by (simp add: div_mult2_eq)
  qed
  then have "read_digits b (map (\<lambda>i. x div b ^ (Suc n - 1 - i) mod b) [0..<Suc n]) = (x div b) mod b ^ n * b + x mod b"
    using Suc.IH [of "x div b"] read_digits_snoc [of b "\<lambda>i. x div b ^ (Suc n - 1 - i) mod b" n]
    by (simp only: diff_Suc_1 diff_self_eq_0 power_0 div_by_1)
  also have "\<dots> = x mod b ^ Suc n" by (simp add: mod_mult2_eq mult.commute)
  finally show ?case .
qed

lemma octets4_spread: "octets4 w = map (\<lambda>i. unat w div 256 ^ (4 - 1 - i) mod 256) [0..<4]"
  unfolding octets4_def
proof (rule map_cong [OF refl])
  fix i :: nat assume "i \<in> set [0..<4]"
  then have "i = 0 \<or> i = 1 \<or> i = 2 \<or> i = 3" by auto
  then show "unat (take_bit 8 (drop_bit (24 - 8 * i) w)) = unat w div 256 ^ (4 - 1 - i) mod 256"
    by (elim disjE) (simp_all add: unsigned_take_bit_eq unsigned_drop_bit_eq take_bit_eq_mod drop_bit_eq_div
        unat_div_distrib unat_mod_distrib)
qed

lemma groups6_spread: "groups6 w = map (\<lambda>i. unat w div 65536 ^ (8 - 1 - i) mod 65536) [0..<8]"
  unfolding groups6_def
proof (rule map_cong [OF refl])
  fix i :: nat assume "i \<in> set [0..<8]"
  then have "i = 0 \<or> i = 1 \<or> i = 2 \<or> i = 3 \<or> i = 4 \<or> i = 5 \<or> i = 6 \<or> i = 7" by auto
  then show "unat (take_bit 16 (drop_bit (112 - 16 * i) w)) = unat w div 65536 ^ (8 - 1 - i) mod 65536"
    by (elim disjE) (simp_all add: unsigned_take_bit_eq unsigned_drop_bit_eq take_bit_eq_mod drop_bit_eq_div
        unat_div_distrib unat_mod_distrib)
qed

lemma read_octets4: "read_digits 256 (octets4 w) = unat w mod 256 ^ 4"
  unfolding octets4_spread by (rule read_digits_spread)

lemma read_groups6: "read_digits 65536 (groups6 w) = unat w mod 65536 ^ 8"
  unfolding groups6_spread by (rule read_digits_spread)

definition parse4 :: "string \<Rightarrow> 32 word" where
  "parse4 s = of_nat (read_digits 256 (map (read_base 10) (split_on CHR ''.'' s)))"

definition parse6 :: "string \<Rightarrow> 128 word" where
  "parse6 s =
     (if CHR ''.'' \<in> set s then push_bit 32 65535 OR ucast (parse4 (drop 7 s))
      else of_nat (read_digits 65536 (decode6 (split_on CHR '':'' s))))"

definition parse_addr :: "string \<Rightarrow> Addr" where
  "parse_addr s = (if CHR '':'' \<in> set s then Addr6 (parse6 s) [] else Addr4 (parse4 s))"

definition parse_prefix :: "string \<Rightarrow> Prefix" where
  "parse_prefix s =
     (case split_on CHR ''/'' s of
        [a, b] \<Rightarrow> PrefixFrom (parse_addr a) (read_base 10 b)
      | _ \<Rightarrow> zero_prefix)"

lemma parse4_string4: "parse4 (string4 w) = w"
proof -
  have "split_on CHR ''.'' (string4 w) = map Itoa (octets4 w)"
    unfolding string4_def
    by (rule split_on_join) (auto simp: octets4_def dest: Itoa_digits)
  then have "map (read_base 10) (split_on CHR ''.'' (string4 w)) = octets4 w"
    by (simp add: map_idI read_Itoa)
  then have "parse4 (string4 w) = of_nat (unat w mod 256 ^ 4)"
    by (simp only: parse4_def read_octets4)
  then show ?thesis using unsigned_less [of w, where 'a = nat] by simp
qed

lemma parse6_string6: "\<not> Is4In6 w \<Longrightarrow> parse6 (string6 w) = w"
proof -
  assume "\<not> Is4In6 w"
  have "parse6 (string6 w) = of_nat (unat w mod 65536 ^ 8)"
    using string6_no_dot [of w] by (simp only: parse6_def decode6_string6 read_groups6 if_False)
  then show ?thesis using unsigned_less [of w, where 'a = nat] by simp
qed

lemma parse6_mapped: "Is4In6 w \<Longrightarrow> parse6 (''::ffff:'' @ string4 (ucast w)) = w"
proof -
  assume "Is4In6 w"
  then have hi: "drop_bit 32 w = 65535" by (simp add: Is4In6_def)
  have "push_bit 32 (65535 :: 128 word) OR ucast (ucast w :: 32 word) = w"
  proof (rule bit_word_eqI)
    fix n assume "n < LENGTH(128)"
    show "bit (push_bit 32 (65535 :: 128 word) OR ucast (ucast w :: 32 word)) n = bit w n"
    proof (cases "n < 32")
      case True
      then show ?thesis by (simp add: bit_or_iff bit_push_bit_iff bit_ucast_iff del: push_bit_numeral)
    next
      case False
      have "bit w n = bit (drop_bit 32 w) (n - 32)" using False by (simp add: bit_simps)
      then show ?thesis using False hi \<open>n < LENGTH(128)\<close>
        by (simp add: bit_or_iff bit_push_bit_iff bit_ucast_iff del: push_bit_numeral)
    qed
  qed
  then show ?thesis by (simp add: parse6_def string4_dot parse4_string4)
qed

lemma parse_addr_String: "Zone a = [] \<Longrightarrow> a \<noteq> InvalidAddr \<Longrightarrow> parse_addr (Addr_String a) = a"
proof (cases a)
  case (Addr4 w)
  then show ?thesis using string4_no_colon [of w] by (simp add: parse_addr_def parse4_string4)
next
  case (Addr6 w z)
  assume "Zone a = []"
  then have "z = []" using Addr6 by simp
  then show ?thesis using Addr6 string6_colon [of w] parse6_mapped [of w] parse6_string6 [of w]
    by (cases "Is4In6 w") (simp_all add: parse_addr_def)
qed simp

lemma parse_prefix_String:
  assumes "Prefix_IsValid p"
  shows "parse_prefix (Prefix_String p) = p"
proof -
  have a: "Zone (pfx_addr p) = []" "pfx_addr p \<noteq> InvalidAddr" using assms by (auto simp: valid_addr)
  have "CHR ''/'' \<notin> set (Addr_String (pfx_addr p))"
    using Addr_String_chars [OF a, of "CHR ''/''"] by auto
  moreover have "CHR ''/'' \<notin> set (Itoa (pfx_bits p))" by (auto dest: Itoa_digits)
  ultimately have "split_on CHR ''/'' (Prefix_String p) = [Addr_String (pfx_addr p), Itoa (pfx_bits p)]"
    using assms by (simp add: Prefix_String_def split_on_append split_on_clean)
  then show ?thesis using assms parse_addr_String [OF a] PrefixFrom_collapse [of p]
    by (simp add: parse_prefix_def read_Itoa)
qed

end
