(* ===== verification/Ipc_Message.thy ===== *)
theory Ipc_Message
  imports Firewall_Mutation Netip_Parse
begin

text \<open>
  The closed set of IPC v1 requests and mutation responses (\<^verbatim>\<open>internal/ipc/request.go\<close> and
  \<^verbatim>\<open>internal/ipc/response.go\<close>) with their validating constructors. The closed interfaces are
  datatypes, their string enumerations are strings compared with the constants of the source.
\<close>

section \<open>Requests\<close>

definition OperationProbeCapabilities :: string where "OperationProbeCapabilities = ''ProbeCapabilities''"
definition OperationSnapshotManaged :: string where "OperationSnapshotManaged = ''SnapshotManaged''"
definition OperationApplyManagedPlan :: string where "OperationApplyManagedPlan = ''ApplyManagedPlan''"
definition OperationRemoveManagedInfrastructure :: string where
  "OperationRemoveManagedInfrastructure = ''RemoveManagedInfrastructure''"
definition DomainInfrastructure :: string where "DomainInfrastructure = ''infrastructure''"
definition DomainPolicy :: string where "DomainPolicy = ''policy''"
definition DomainTarget :: string where "DomainTarget = ''target''"
definition MembershipPresent :: string where "MembershipPresent = ''present''"
definition MembershipAbsent :: string where "MembershipAbsent = ''absent''"
definition TimeoutModeNone :: string where "TimeoutModeNone = ''none''"
definition TimeoutModeNative :: string where "TimeoutModeNative = ''native''"
definition WireScopeInput :: string where "WireScopeInput = ''input''"
definition WireScopeForward :: string where "WireScopeForward = ''forward''"
definition ownerVersionV1 :: string where "ownerVersionV1 = ''guard/v1''"
definition maxPlanPrefixes :: nat where "maxPlanPrefixes = 1024"

lemmas wire_names =
  OperationProbeCapabilities_def OperationSnapshotManaged_def OperationApplyManagedPlan_def
  OperationRemoveManagedInfrastructure_def DomainInfrastructure_def DomainPolicy_def DomainTarget_def
  MembershipPresent_def MembershipAbsent_def TimeoutModeNone_def TimeoutModeNative_def
  WireScopeInput_def WireScopeForward_def ownerVersionV1_def

datatype ErrorCode =
    ErrorCodeRequestTooLarge | ErrorCodeInvalidUTF8 | ErrorCodeDuplicateKey | ErrorCodeMaxDepthExceeded
  | ErrorCodeTokenLimitExceeded | ErrorCodeInvalidJSON | ErrorCodeSchemaRejected | ErrorCodePrefixLimit
  | ErrorCodeNoncanonicalPrefix | ErrorCodeNoncanonicalOrder | ErrorCodeProtectedPolicyMissing
  | ErrorCodeInvalidTimeout | ErrorCodeProtectedTarget | ErrorCodeInvalidScope

record planBase =
  plb_ownerVersion :: string
  plb_basisSnapshotDigest :: string
  plb_revision :: int

datatype ManagedPlan =
    infrastructurePlan planBase int
  | policyPlan planBase "Prefix list" "Prefix list"
  | targetPlan planBase Prefix string string int bool "string list"

datatype Request =
    probeCapabilitiesRequest
  | snapshotManagedRequest
  | applyManagedPlanRequest ManagedPlan
  | removeManagedInfrastructureRequest string

fun plan_base :: "ManagedPlan \<Rightarrow> planBase" where
  "plan_base (infrastructurePlan b _) = b"
| "plan_base (policyPlan b _ _) = b"
| "plan_base (targetPlan b _ _ _ _ _ _) = b"

fun plan_domain :: "ManagedPlan \<Rightarrow> string" where
  "plan_domain (infrastructurePlan _ _) = DomainInfrastructure"
| "plan_domain (policyPlan _ _ _) = DomainPolicy"
| "plan_domain (targetPlan _ _ _ _ _ _ _) = DomainTarget"

definition validDigest :: "string \<Rightarrow> bool" where
  "validDigest value \<longleftrightarrow> length value = 64 \<and>
     list_all (\<lambda>c. let n = of_char c :: nat in if n < 48 \<or> 57 < n then \<not> (n < 97 \<or> 102 < n) else True) value"

definition newPlanBase :: "string \<Rightarrow> int \<Rightarrow> ErrorCode + planBase" where
  "newPlanBase basisSnapshotDigest revision =
     (if \<not> validDigest basisSnapshotDigest \<or> revision \<le> 0 then Inl ErrorCodeSchemaRejected
      else Inr \<lparr> plb_ownerVersion = ownerVersionV1, plb_basisSnapshotDigest = basisSnapshotDigest,
                 plb_revision = revision \<rparr>)"

definition canonicalPrefix :: "string \<Rightarrow> ErrorCode + Prefix" where
  "canonicalPrefix value =
     (let p = parse_prefix value in
      if \<not> Prefix_IsValid p \<or> p \<noteq> Masked p \<or> Prefix_String p \<noteq> value then Inl ErrorCodeNoncanonicalPrefix
      else Inr p)"

fun validatedPrefixList_from :: "string list \<Rightarrow> string \<Rightarrow> nat \<Rightarrow> Prefix list \<Rightarrow> ErrorCode + Prefix list" where
  "validatedPrefixList_from seen previous index [] = Inr []"
| "validatedPrefixList_from seen previous index (value # rest) =
     (case canonicalPrefix (Prefix_String value) of
        Inl code \<Rightarrow> Inl code
      | Inr p \<Rightarrow>
          (let t = Prefix_String p in
           if t \<in> set seen then Inl ErrorCodeSchemaRejected
           else if 0 < index \<and> t < previous then Inl ErrorCodeNoncanonicalOrder
           else (case validatedPrefixList_from (t # seen) t (Suc index) rest of
                   Inl code \<Rightarrow> Inl code
                 | Inr ps \<Rightarrow> Inr (p # ps))))"

definition validatedPrefixList :: "Prefix list \<Rightarrow> ErrorCode + Prefix list" where
  "validatedPrefixList = validatedPrefixList_from [] [] 0"

fun scopes_known :: "string list \<Rightarrow> string list \<Rightarrow> bool" where
  "scopes_known seen [] = True"
| "scopes_known seen (s # ss) =
     (if s \<noteq> WireScopeInput \<and> s \<noteq> WireScopeForward then False
      else if s \<in> set seen then False
      else scopes_known (s # seen) ss)"

definition validatedScopeList :: "string list \<Rightarrow> ErrorCode + string list" where
  "validatedScopeList values =
     (if length values < 1 \<or> 2 < length values then Inl ErrorCodeSchemaRejected
      else if \<not> scopes_known [] values then Inl ErrorCodeSchemaRejected
      else if length values = 2 \<and> (values ! 0 \<noteq> WireScopeInput \<or> values ! 1 \<noteq> WireScopeForward)
      then Inl ErrorCodeInvalidScope
      else Inr values)"

definition NewApplyInfrastructureRequest :: "string \<Rightarrow> int \<Rightarrow> ErrorCode + Request" where
  "NewApplyInfrastructureRequest basisSnapshotDigest infrastructureRevision =
     bind_result (newPlanBase basisSnapshotDigest infrastructureRevision) (\<lambda>base.
     Inr (applyManagedPlanRequest (infrastructurePlan base 1)))"

definition NewApplyPolicyRequest :: "string \<Rightarrow> int \<Rightarrow> Prefix list \<Rightarrow> Prefix list \<Rightarrow> ErrorCode + Request" where
  "NewApplyPolicyRequest basisSnapshotDigest policyRevision allowlist protectedTargets =
     bind_result (newPlanBase basisSnapshotDigest policyRevision) (\<lambda>base.
     if maxPlanPrefixes < length allowlist \<or> length protectedTargets < 2 \<or> maxPlanPrefixes < length protectedTargets
     then Inl ErrorCodeSchemaRejected
     else if maxPlanPrefixes < length allowlist + length protectedTargets then Inl ErrorCodePrefixLimit
     else bind_result (validatedPrefixList allowlist) (\<lambda>validatedAllowlist.
          bind_result (validatedPrefixList protectedTargets) (\<lambda>validatedProtected.
          if loopback4 \<notin> set validatedProtected \<or> loopback6 \<notin> set validatedProtected
          then Inl ErrorCodeProtectedPolicyMissing
          else Inr (applyManagedPlanRequest (policyPlan base validatedAllowlist validatedProtected)))))"

definition NewApplyTargetRequest ::
  "string \<Rightarrow> int \<Rightarrow> Prefix \<Rightarrow> string \<Rightarrow> string \<Rightarrow> int \<Rightarrow> bool \<Rightarrow> string list \<Rightarrow> ErrorCode + Request" where
  "NewApplyTargetRequest basisSnapshotDigest targetGeneration target membership timeoutMode
       effectiveUntilUnixMicro hasEffectiveUntil scopes =
     bind_result (newPlanBase basisSnapshotDigest targetGeneration) (\<lambda>base.
     bind_result (canonicalPrefix (Prefix_String target)) (\<lambda>canonicalTarget.
     if list_ex (Overlaps canonicalTarget) [loopback4, loopback6] then Inl ErrorCodeProtectedTarget
     else if membership \<noteq> MembershipPresent \<and> membership \<noteq> MembershipAbsent then Inl ErrorCodeSchemaRejected
     else if timeoutMode \<noteq> TimeoutModeNone \<and> timeoutMode \<noteq> TimeoutModeNative then Inl ErrorCodeSchemaRejected
     else if hasEffectiveUntil \<and> effectiveUntilUnixMicro \<le> 0 then Inl ErrorCodeSchemaRejected
     else if \<not> hasEffectiveUntil \<and> effectiveUntilUnixMicro \<noteq> 0 then Inl ErrorCodeInvalidTimeout
     else bind_result (validatedScopeList scopes) (\<lambda>validatedScopes.
     if membership = MembershipAbsent \<and> (timeoutMode \<noteq> TimeoutModeNone \<or> hasEffectiveUntil)
     then Inl ErrorCodeInvalidTimeout
     else if timeoutMode = TimeoutModeNative \<and> \<not> hasEffectiveUntil then Inl ErrorCodeInvalidTimeout
     else if timeoutMode = TimeoutModeNone \<and> hasEffectiveUntil then Inl ErrorCodeInvalidTimeout
     else Inr (applyManagedPlanRequest (targetPlan base canonicalTarget membership timeoutMode
                 effectiveUntilUnixMicro hasEffectiveUntil validatedScopes)))))"

definition NewRemoveManagedInfrastructureRequest :: Request where
  "NewRemoveManagedInfrastructureRequest = removeManagedInfrastructureRequest ownerVersionV1"

section \<open>Mutation responses\<close>

definition MutationErrorCodeInvalidPlan :: string where "MutationErrorCodeInvalidPlan = ''invalid_plan''"
definition MutationErrorCodeOwnershipConflict :: string where "MutationErrorCodeOwnershipConflict = ''ownership_conflict''"
definition MutationErrorCodeUnsupported :: string where "MutationErrorCodeUnsupported = ''unsupported''"
definition MutationErrorCodeNotReady :: string where "MutationErrorCodeNotReady = ''not_ready''"
definition MutationErrorCodeBackendRejected :: string where "MutationErrorCodeBackendRejected = ''backend_rejected''"
definition MutationErrorCodeUnknownResult :: string where "MutationErrorCodeUnknownResult = ''unknown_result''"
definition StatusConfirmed :: string where "StatusConfirmed = ''confirmed''"
definition StatusRejected :: string where "StatusRejected = ''rejected''"
definition StatusUnknown :: string where "StatusUnknown = ''unknown''"

lemmas response_names =
  MutationErrorCodeInvalidPlan_def MutationErrorCodeOwnershipConflict_def MutationErrorCodeUnsupported_def
  MutationErrorCodeNotReady_def MutationErrorCodeBackendRejected_def MutationErrorCodeUnknownResult_def
  StatusConfirmed_def StatusRejected_def StatusUnknown_def

datatype MutationResponseErrorCode =
    MutationResponseErrorCodeResponseTooLarge | MutationResponseErrorCodeInvalidUTF8
  | MutationResponseErrorCodeDuplicateKey | MutationResponseErrorCodeMaxDepthExceeded
  | MutationResponseErrorCodeTokenLimitExceeded | MutationResponseErrorCodeInvalidJSON
  | MutationResponseErrorCodeSchemaRejected

record mutationResponseBase =
  mrb_status :: string
  mrb_errorCode :: "string option"

datatype MutationResponse =
    applyManagedPlanResponse mutationResponseBase string
  | removeManagedInfrastructureResponse mutationResponseBase

fun response_base :: "MutationResponse \<Rightarrow> mutationResponseBase" where
  "response_base (applyManagedPlanResponse b _) = b"
| "response_base (removeManagedInfrastructureResponse b) = b"

definition validResponseDomain :: "string \<Rightarrow> bool" where
  "validResponseDomain domain \<longleftrightarrow> domain \<in> {DomainInfrastructure, DomainPolicy, DomainTarget}"

definition validApplyRejectedErrorCode :: "string \<Rightarrow> bool" where
  "validApplyRejectedErrorCode code \<longleftrightarrow>
     code \<in> {MutationErrorCodeInvalidPlan, MutationErrorCodeOwnershipConflict, MutationErrorCodeUnsupported,
             MutationErrorCodeNotReady, MutationErrorCodeBackendRejected}"

definition validRemoveRejectedErrorCode :: "string \<Rightarrow> bool" where
  "validRemoveRejectedErrorCode code \<longleftrightarrow>
     code \<in> {MutationErrorCodeOwnershipConflict, MutationErrorCodeUnsupported,
             MutationErrorCodeNotReady, MutationErrorCodeBackendRejected}"

definition validApplyResponseState :: "string \<Rightarrow> string option \<Rightarrow> bool" where
  "validApplyResponseState status code =
     (if status = StatusConfirmed then code = None
      else if status = StatusRejected then (case code of None \<Rightarrow> False | Some c \<Rightarrow> validApplyRejectedErrorCode c)
      else if status = StatusUnknown then code = Some MutationErrorCodeUnknownResult
      else False)"

definition validRemoveResponseState :: "string \<Rightarrow> string option \<Rightarrow> bool" where
  "validRemoveResponseState status code =
     (if status = StatusConfirmed then code = None
      else if status = StatusRejected then (case code of None \<Rightarrow> False | Some c \<Rightarrow> validRemoveRejectedErrorCode c)
      else if status = StatusUnknown then code = Some MutationErrorCodeUnknownResult
      else False)"

definition newApplyManagedPlanResponse ::
  "string \<Rightarrow> string \<Rightarrow> string option \<Rightarrow> MutationResponseErrorCode + MutationResponse" where
  "newApplyManagedPlanResponse domain status code =
     (if \<not> validResponseDomain domain \<or> \<not> validApplyResponseState status code
      then Inl MutationResponseErrorCodeSchemaRejected
      else Inr (applyManagedPlanResponse \<lparr> mrb_status = status, mrb_errorCode = code \<rparr> domain))"

definition NewApplyManagedPlanConfirmedResponse :: "string \<Rightarrow> MutationResponseErrorCode + MutationResponse" where
  "NewApplyManagedPlanConfirmedResponse domain = newApplyManagedPlanResponse domain StatusConfirmed None"

definition NewApplyManagedPlanRejectedResponse :: "string \<Rightarrow> string \<Rightarrow> MutationResponseErrorCode + MutationResponse" where
  "NewApplyManagedPlanRejectedResponse domain code = newApplyManagedPlanResponse domain StatusRejected (Some code)"

definition NewApplyManagedPlanUnknownResponse :: "string \<Rightarrow> MutationResponseErrorCode + MutationResponse" where
  "NewApplyManagedPlanUnknownResponse domain =
     newApplyManagedPlanResponse domain StatusUnknown (Some MutationErrorCodeUnknownResult)"

definition NewRemoveManagedInfrastructureConfirmedResponse :: MutationResponse where
  "NewRemoveManagedInfrastructureConfirmedResponse =
     removeManagedInfrastructureResponse \<lparr> mrb_status = StatusConfirmed, mrb_errorCode = None \<rparr>"

definition NewRemoveManagedInfrastructureRejectedResponse :: "string \<Rightarrow> MutationResponseErrorCode + MutationResponse" where
  "NewRemoveManagedInfrastructureRejectedResponse code =
     (if \<not> validRemoveRejectedErrorCode code then Inl MutationResponseErrorCodeSchemaRejected
      else Inr (removeManagedInfrastructureResponse \<lparr> mrb_status = StatusRejected, mrb_errorCode = Some code \<rparr>))"

definition NewRemoveManagedInfrastructureUnknownResponse :: MutationResponse where
  "NewRemoveManagedInfrastructureUnknownResponse =
     removeManagedInfrastructureResponse
       \<lparr> mrb_status = StatusUnknown, mrb_errorCode = Some MutationErrorCodeUnknownResult \<rparr>"

end
