(* ===== verification/Enforcer.thy ===== *)
theory Enforcer
  imports Ipc_Message
begin

text \<open>
  The privileged side of a mutation (\<^verbatim>\<open>internal/enforcer/mutation.go\<close> and
  \<^verbatim>\<open>internal/enforcer/mutation_executor.go\<close>): the bridge from a decoded request to a firewall
  authority and from a correlated result to a response, and the executor that observes, authorises
  and performs at most one mutation. The backend is a parameter with its own state; a context is
  given by which of the successive tests of \<^verbatim>\<open>ctx.Err()\<close> find it cancelled.
\<close>

section \<open>The bridge\<close>

text \<open>The last constructor carries an error of a response constructor that is passed on.\<close>

datatype BridgeErrorCode =
    BridgeErrorInvalidPlan | BridgeErrorOwnershipConflict | BridgeErrorUnsupported
  | BridgeErrorNotReady | BridgeErrorSnapshotMismatch | BridgeErrorResultMismatch
  | BridgeResponseError MutationResponseErrorCode

text \<open>Exactly one of an executable authority and an immediate response.\<close>

datatype Authorization = AuthorizedBackendWork AuthorizedMutation | ImmediateResponse MutationResponse

fun mapAuthorizationError :: "MutationAuthorizationErrorCode \<Rightarrow> BridgeErrorCode" where
  "mapAuthorizationError MutationAuthorizationErrorInvalidPlan = BridgeErrorInvalidPlan"
| "mapAuthorizationError MutationAuthorizationErrorOwnershipConflict = BridgeErrorOwnershipConflict"
| "mapAuthorizationError MutationAuthorizationErrorUnsupported = BridgeErrorUnsupported"
| "mapAuthorizationError MutationAuthorizationErrorNotReady = BridgeErrorNotReady"
| "mapAuthorizationError MutationAuthorizationErrorSnapshotMismatch = BridgeErrorSnapshotMismatch"

definition mapMembership :: "string \<Rightarrow> string option" where
  "mapMembership value =
     (if value = MembershipPresent then Some TargetMembershipPresent
      else if value = MembershipAbsent then Some TargetMembershipAbsent
      else None)"

definition mapTimeoutMode :: "string \<Rightarrow> string option" where
  "mapTimeoutMode value =
     (if value = TimeoutModeNone then Some ManagedTimeoutNone
      else if value = TimeoutModeNative then Some ManagedTimeoutNative
      else None)"

fun mapScopes :: "string list \<Rightarrow> string list option" where
  "mapScopes [] = Some []"
| "mapScopes (value # rest) =
     (if value = WireScopeInput then map_option (Cons ManagedScopeInput) (mapScopes rest)
      else if value = WireScopeForward then map_option (Cons ManagedScopeForward) (mapScopes rest)
      else None)"

definition mapResultDomain :: "string \<Rightarrow> string option" where
  "mapResultDomain domain =
     (if domain = MutationDomainInfrastructure then Some DomainInfrastructure
      else if domain = MutationDomainPolicy then Some DomainPolicy
      else if domain = MutationDomainTarget then Some DomainTarget
      else None)"

definition mapResultErrorCode :: "string \<Rightarrow> string option" where
  "mapResultErrorCode code =
     (if code = MutationErrorInvalidPlan then Some MutationErrorCodeInvalidPlan
      else if code = MutationErrorOwnershipConflict then Some MutationErrorCodeOwnershipConflict
      else if code = MutationErrorUnsupported then Some MutationErrorCodeUnsupported
      else if code = MutationErrorNotReady then Some MutationErrorCodeNotReady
      else if code = MutationErrorBackendRejected then Some MutationErrorCodeBackendRejected
      else None)"

fun authorizeApplyPlan ::
  "ManagedPlan \<Rightarrow> FirewallCapabilities \<Rightarrow> ManagedSnapshot \<Rightarrow> BridgeErrorCode + AuthorizedMutation" where
  "authorizeApplyPlan plan capabilities snapshot =
     (if plb_ownerVersion (plan_base plan) \<noteq> ManagedOwnerVersionV1
         \<or> plb_basisSnapshotDigest (plan_base plan) = [] \<or> plb_revision (plan_base plan) \<le> 0
      then Inl BridgeErrorInvalidPlan
      else case plan of
        infrastructurePlan base schemaVersion \<Rightarrow>
          if schemaVersion \<noteq> ManagedInfrastructureSchemaVersionV1 then Inl BridgeErrorInvalidPlan
          else map_err mapAuthorizationError
                 (AuthorizeInfrastructureMutation capabilities snapshot
                    (plb_basisSnapshotDigest base) (plb_revision base))
      | policyPlan base allowlist protectedTargets \<Rightarrow>
          map_err mapAuthorizationError
            (AuthorizePolicyMutation capabilities snapshot (plb_basisSnapshotDigest base) (plb_revision base)
               allowlist protectedTargets)
      | targetPlan base target membership timeoutMode expiry hasExpiry scopes \<Rightarrow>
          (case mapMembership membership of None \<Rightarrow> Inl BridgeErrorInvalidPlan | Some m \<Rightarrow>
          (case mapTimeoutMode timeoutMode of None \<Rightarrow> Inl BridgeErrorInvalidPlan | Some t \<Rightarrow>
          (case mapScopes scopes of None \<Rightarrow> Inl BridgeErrorInvalidPlan | Some ss \<Rightarrow>
             map_err mapAuthorizationError
               (AuthorizeTargetMutation capabilities snapshot (plb_basisSnapshotDigest base) (plb_revision base)
                  target m t expiry hasExpiry ss)))))"

fun AuthorizeMutationRequest ::
  "Request \<Rightarrow> FirewallCapabilities \<Rightarrow> ManagedSnapshot \<Rightarrow> BridgeErrorCode + Authorization" where
  "AuthorizeMutationRequest (applyManagedPlanRequest plan) capabilities snapshot =
     bind_result (authorizeApplyPlan plan capabilities snapshot) (\<lambda>m. Inr (AuthorizedBackendWork m))"
| "AuthorizeMutationRequest (removeManagedInfrastructureRequest owner) capabilities snapshot =
     (if owner = [] then Inl BridgeErrorInvalidPlan
      else bind_result (map_err mapAuthorizationError (AuthorizeManagedRemoval capabilities snapshot owner))
        (\<lambda>removal. case removal of
            None \<Rightarrow> Inr (ImmediateResponse NewRemoveManagedInfrastructureConfirmedResponse)
          | Some m \<Rightarrow> Inr (AuthorizedBackendWork m)))"
| "AuthorizeMutationRequest _ capabilities snapshot = Inl BridgeErrorInvalidPlan"

definition response_result :: "MutationResponseErrorCode + MutationResponse \<Rightarrow> BridgeErrorCode + MutationResponse" where
  "response_result = map_err BridgeResponseError"

definition mapApplyResult :: "string \<Rightarrow> MutationResult \<Rightarrow> BridgeErrorCode + MutationResponse" where
  "mapApplyResult domain result =
     (if mre_status result = MutationStatusConfirmed then response_result (NewApplyManagedPlanConfirmedResponse domain)
      else if mre_status result = MutationStatusUnknown then response_result (NewApplyManagedPlanUnknownResponse domain)
      else if mre_status result = MutationStatusRejected
      then (case mre_errorCode result of
              None \<Rightarrow> Inl BridgeErrorResultMismatch
            | Some code \<Rightarrow>
                (case mapResultErrorCode code of
                   None \<Rightarrow> Inl BridgeErrorResultMismatch
                 | Some mapped \<Rightarrow> response_result (NewApplyManagedPlanRejectedResponse domain mapped)))
      else Inl BridgeErrorResultMismatch)"

definition mapRemovalResult :: "MutationResult \<Rightarrow> BridgeErrorCode + MutationResponse" where
  "mapRemovalResult result =
     (if mre_status result = MutationStatusConfirmed then Inr NewRemoveManagedInfrastructureConfirmedResponse
      else if mre_status result = MutationStatusUnknown then Inr NewRemoveManagedInfrastructureUnknownResponse
      else if mre_status result = MutationStatusRejected
      then (case mre_errorCode result of
              None \<Rightarrow> Inl BridgeErrorResultMismatch
            | Some code \<Rightarrow>
                if code = MutationErrorInvalidPlan then Inl BridgeErrorResultMismatch
                else (case mapResultErrorCode code of
                   None \<Rightarrow> Inl BridgeErrorResultMismatch
                 | Some mapped \<Rightarrow> response_result (NewRemoveManagedInfrastructureRejectedResponse mapped)))
      else Inl BridgeErrorResultMismatch)"

fun MapMutationResult :: "Authorization \<Rightarrow> MutationResult \<Rightarrow> BridgeErrorCode + MutationResponse" where
  "MapMutationResult (ImmediateResponse _) result = Inl BridgeErrorResultMismatch"
| "MapMutationResult (AuthorizedBackendWork mutation) result =
     (if \<not> MutationResult_valid result \<or> mre_operation result \<noteq> mutation_Operation mutation
         \<or> mre_mutationDigest result \<noteq> mutation_Digest mutation
      then Inl BridgeErrorResultMismatch
      else case mutation_Domain mutation of
        Some planDomain \<Rightarrow>
          (case mre_domain result of
             None \<Rightarrow> Inl BridgeErrorResultMismatch
           | Some domain \<Rightarrow>
               if domain \<noteq> planDomain then Inl BridgeErrorResultMismatch
               else (case mapResultDomain domain of
                       None \<Rightarrow> Inl BridgeErrorResultMismatch
                     | Some d \<Rightarrow> mapApplyResult d result))
      | None \<Rightarrow>
          if mre_domain result \<noteq> None then Inl BridgeErrorResultMismatch else mapRemovalResult result)"

section \<open>The executor\<close>

text \<open>What an observation of the backend may fail with, and how the failure is classified.\<close>

datatype observation_error =
    ErrMutationBackendUnsupported | ErrMutationBackendOwnershipConflict | FirewallOwnershipConflict
  | OtherObservationError

fun mutationObservationErrorCode :: "observation_error \<Rightarrow> string" where
  "mutationObservationErrorCode ErrMutationBackendUnsupported = MutationErrorCodeUnsupported"
| "mutationObservationErrorCode ErrMutationBackendOwnershipConflict = MutationErrorCodeOwnershipConflict"
| "mutationObservationErrorCode FirewallOwnershipConflict = MutationErrorCodeOwnershipConflict"
| "mutationObservationErrorCode OtherObservationError = MutationErrorCodeNotReady"

fun mutationAuthorizationErrorCode :: "BridgeErrorCode \<Rightarrow> string" where
  "mutationAuthorizationErrorCode BridgeErrorInvalidPlan = MutationErrorCodeInvalidPlan"
| "mutationAuthorizationErrorCode BridgeErrorOwnershipConflict = MutationErrorCodeOwnershipConflict"
| "mutationAuthorizationErrorCode BridgeErrorUnsupported = MutationErrorCodeUnsupported"
| "mutationAuthorizationErrorCode _ = MutationErrorCodeNotReady"

fun correlatableMutationRequest :: "Request \<Rightarrow> bool" where
  "correlatableMutationRequest (applyManagedPlanRequest _) = True"
| "correlatableMutationRequest (removeManagedInfrastructureRequest owner) = (owner = ManagedOwnerVersionV1)"
| "correlatableMutationRequest _ = False"

definition ok_response :: "'e + MutationResponse \<Rightarrow> MutationResponse option" where
  "ok_response r = (case r of Inl _ \<Rightarrow> None | Inr v \<Rightarrow> Some v)"

fun rejectedMutationResponse :: "Request \<Rightarrow> string \<Rightarrow> MutationResponse option" where
  "rejectedMutationResponse (applyManagedPlanRequest plan) code =
     ok_response (NewApplyManagedPlanRejectedResponse (plan_domain plan) code)"
| "rejectedMutationResponse (removeManagedInfrastructureRequest _) code =
     ok_response (NewRemoveManagedInfrastructureRejectedResponse
       (if code = MutationErrorCodeInvalidPlan then MutationErrorCodeNotReady else code))"
| "rejectedMutationResponse _ code = None"

text \<open>
  The port \<^verbatim>\<open>MutationBackend\<close> over a backend state: the two observations and the two mutations, each
  returning the state it leaves.
\<close>

record 'b MutationBackend =
  mb_Probe :: "'b \<Rightarrow> 'b \<times> (observation_error + FirewallCapabilities)"
  mb_Snapshot :: "'b \<Rightarrow> 'b \<times> (observation_error + ManagedSnapshot)"
  mb_Apply :: "AuthorizedMutation \<Rightarrow> 'b \<Rightarrow> 'b \<times> MutationResult"
  mb_Remove :: "AuthorizedMutation \<Rightarrow> 'b \<Rightarrow> 'b \<times> MutationResult"

text \<open>After authorisation: one mutation, its correlated response, or the unknown result.\<close>

definition perform_mutation ::
  "'b MutationBackend \<Rightarrow> AuthorizedMutation \<Rightarrow> 'b \<Rightarrow> 'b \<times> MutationResponse option" where
  "perform_mutation backend mutation b =
     (let (b', result) = (if mutation_Domain mutation \<noteq> None then mb_Apply backend mutation b
                          else mb_Remove backend mutation b)
      in case MapMutationResult (AuthorizedBackendWork mutation) result of
           Inr response \<Rightarrow> (b', Some response)
         | Inl _ \<Rightarrow>
             (case NewUnknownMutationResult mutation of
                None \<Rightarrow> (b', None)
              | Some unknown \<Rightarrow> (b', ok_response (MapMutationResult (AuthorizedBackendWork mutation) unknown))))"

text \<open>
  \<open>cancelled i\<close> tells whether the \<open>i\<close>-th test of the context finds it cancelled: before and after
  taking the gate (test 1 is also the wait for the gate), after each observation and before the
  mutation.
\<close>

definition Execute ::
  "'b MutationBackend \<Rightarrow> (nat \<Rightarrow> bool) \<Rightarrow> Request \<Rightarrow> 'b \<Rightarrow> 'b \<times> MutationResponse option" where
  "Execute backend cancelled request b =
     (if \<not> correlatableMutationRequest request then (b, None)
      else if cancelled 0 \<or> cancelled 1 \<or> cancelled 2
      then (b, rejectedMutationResponse request MutationErrorCodeNotReady)
      else case mb_Probe backend b of
        (b1, Inl e) \<Rightarrow> (b1, rejectedMutationResponse request (mutationObservationErrorCode e))
      | (b1, Inr capabilities) \<Rightarrow>
      if FirewallCapabilities_Validate capabilities \<noteq> None \<or> \<not> cap_mutationReady capabilities
         \<or> \<not> cap_ownershipProven capabilities \<or> cancelled 3
      then (b1, rejectedMutationResponse request MutationErrorCodeNotReady)
      else (case mb_Snapshot backend b1 of
        (b2, Inl e) \<Rightarrow> (b2, rejectedMutationResponse request (mutationObservationErrorCode e))
      | (b2, Inr snapshot) \<Rightarrow>
      if ManagedSnapshot_Validate snapshot \<noteq> None \<or> cancelled 4
      then (b2, rejectedMutationResponse request MutationErrorCodeNotReady)
      else (case AuthorizeMutationRequest request capabilities snapshot of
        Inl e \<Rightarrow> (b2, rejectedMutationResponse request (mutationAuthorizationErrorCode e))
      | Inr (ImmediateResponse response) \<Rightarrow> (b2, Some response)
      | Inr (AuthorizedBackendWork mutation) \<Rightarrow>
          if cancelled 5 then (b2, rejectedMutationResponse request MutationErrorCodeNotReady)
          else perform_mutation backend mutation b2)))"

section \<open>Responses\<close>

text \<open>A response answers a request: same operation, and the domain of the plan.\<close>

fun answers :: "Request \<Rightarrow> MutationResponse \<Rightarrow> bool" where
  "answers (applyManagedPlanRequest plan) (applyManagedPlanResponse b d) =
     (d = plan_domain plan \<and> validApplyResponseState (mrb_status b) (mrb_errorCode b))"
| "answers (removeManagedInfrastructureRequest _) (removeManagedInfrastructureResponse b) =
     validRemoveResponseState (mrb_status b) (mrb_errorCode b)"
| "answers _ _ = False"

lemmas result_names =
  MutationStatusConfirmed_def MutationStatusRejected_def MutationStatusUnknown_def
  MutationErrorInvalidPlan_def MutationErrorOwnershipConflict_def MutationErrorUnsupported_def
  MutationErrorNotReady_def MutationErrorBackendRejected_def MutationErrorUnknownResult_def

lemmas domain_names =
  MutationDomainInfrastructure_def MutationDomainPolicy_def MutationDomainTarget_def
  DomainInfrastructure_def DomainPolicy_def DomainTarget_def

lemma plan_domain_valid [simp]: "validResponseDomain (plan_domain plan)"
  by (cases plan) (simp_all add: validResponseDomain_def)

lemma response_result_Inr [simp]: "response_result r = Inr x \<longleftrightarrow> r = Inr x"
  by (simp add: response_result_def)

lemma newApplyManagedPlanResponse_Inr:
  "newApplyManagedPlanResponse d st c = Inr r \<longleftrightarrow>
     validResponseDomain d \<and> validApplyResponseState st c
     \<and> r = applyManagedPlanResponse \<lparr> mrb_status = st, mrb_errorCode = c \<rparr> d"
  by (auto simp: newApplyManagedPlanResponse_def)

lemma mapApplyResult_Inr:
  assumes "mapApplyResult d result = Inr r"
  shows "r = applyManagedPlanResponse (response_base r) d \<and> mrb_status (response_base r) = mre_status result
     \<and> validApplyResponseState (mrb_status (response_base r)) (mrb_errorCode (response_base r))"
  using assms
  by (auto simp: mapApplyResult_def NewApplyManagedPlanConfirmedResponse_def NewApplyManagedPlanUnknownResponse_def
      NewApplyManagedPlanRejectedResponse_def newApplyManagedPlanResponse_Inr
      StatusConfirmed_def StatusRejected_def StatusUnknown_def
      MutationStatusConfirmed_def MutationStatusRejected_def MutationStatusUnknown_def
      split: if_splits option.splits)

lemma mapRemovalResult_Inr:
  assumes "mapRemovalResult result = Inr r"
  shows "r = removeManagedInfrastructureResponse (response_base r) \<and> mrb_status (response_base r) = mre_status result
     \<and> validRemoveResponseState (mrb_status (response_base r)) (mrb_errorCode (response_base r))"
  using assms
  by (auto simp: mapRemovalResult_def NewRemoveManagedInfrastructureConfirmedResponse_def
      NewRemoveManagedInfrastructureUnknownResponse_def NewRemoveManagedInfrastructureRejectedResponse_def
      validRemoveResponseState_def StatusConfirmed_def StatusRejected_def StatusUnknown_def
      MutationStatusConfirmed_def MutationStatusRejected_def MutationStatusUnknown_def
      split: if_splits option.splits)

lemma MapMutationResult_Inr:
  assumes "MapMutationResult (AuthorizedBackendWork m) result = Inr r"
  shows "mrb_status (response_base r) = mre_status result"
  using assms
  by (auto split: if_splits option.splits dest!: mapApplyResult_Inr mapRemovalResult_Inr)

lemma mapResultDomain_same: "validMutationDomain d \<Longrightarrow> mapResultDomain d = Some d \<and> validResponseDomain d"
  by (auto simp: validMutationDomain_def mapResultDomain_def validResponseDomain_def domain_names)

lemma MapMutationResult_unknown:
  assumes "NewUnknownMutationResult m = Some unknown"
  shows "\<exists>r. MapMutationResult (AuthorizedBackendWork m) unknown = Inr r
     \<and> response_base r = \<lparr> mrb_status = StatusUnknown, mrb_errorCode = Some MutationErrorCodeUnknownResult \<rparr>"
proof -
  note n = newMutationResult_valid [OF assms [unfolded NewUnknownMutationResult_def]]
  show ?thesis
  proof (cases "mutation_Domain m")
    case None
    then show ?thesis using n
      by (simp add: mapRemovalResult_def NewRemoveManagedInfrastructureUnknownResponse_def
          MutationStatusUnknown_def MutationStatusConfirmed_def)
  next
    case (Some d)
    then have "validMutationDomain d" by (rule mutation_domain_shape(2))
    then show ?thesis using n Some mapResultDomain_same [of d]
      by (simp add: mapApplyResult_def NewApplyManagedPlanUnknownResponse_def newApplyManagedPlanResponse_def
          validApplyResponseState_def MutationStatusUnknown_def MutationStatusConfirmed_def
          StatusUnknown_def StatusConfirmed_def StatusRejected_def response_result_def)
  qed
qed

definition reject_codes :: "string set" where
  "reject_codes = {MutationErrorCodeInvalidPlan, MutationErrorCodeOwnershipConflict, MutationErrorCodeUnsupported,
     MutationErrorCodeNotReady}"

lemma reject_code_members [simp]:
  "MutationErrorCodeNotReady \<in> reject_codes" "mutationObservationErrorCode e \<in> reject_codes"
  "mutationAuthorizationErrorCode b \<in> reject_codes"
  by (simp add: reject_codes_def, cases e, simp_all add: reject_codes_def, cases b, simp_all)

lemma rejected_answers:
  assumes "correlatableMutationRequest r" and "c \<in> reject_codes"
  shows "\<exists>x. rejectedMutationResponse r c = Some x \<and> answers r x \<and> mrb_status (response_base x) = StatusRejected"
proof (cases r)
  case (applyManagedPlanRequest plan)
  then show ?thesis using assms(2)
    by (auto simp: reject_codes_def ok_response_def NewApplyManagedPlanRejectedResponse_def
        newApplyManagedPlanResponse_def validApplyResponseState_def validApplyRejectedErrorCode_def
        StatusRejected_def StatusConfirmed_def)
next
  case (removeManagedInfrastructureRequest owner)
  have "validRemoveRejectedErrorCode (if c = MutationErrorCodeInvalidPlan then MutationErrorCodeNotReady else c)"
    using assms(2) by (auto simp: reject_codes_def validRemoveRejectedErrorCode_def)
  then show ?thesis using removeManagedInfrastructureRequest
    by (simp add: ok_response_def NewRemoveManagedInfrastructureRejectedResponse_def validRemoveResponseState_def
        StatusRejected_def StatusConfirmed_def)
qed (use assms in simp_all)

section \<open>The executor's steps\<close>

text \<open>The authority made for a request acts on the domain of the request.\<close>

fun same_domain :: "Request \<Rightarrow> AuthorizedMutation \<Rightarrow> bool" where
  "same_domain (applyManagedPlanRequest plan) m = (mutation_Domain m = Some (plan_domain plan))"
| "same_domain (removeManagedInfrastructureRequest _) m = (mutation_Domain m = None)"
| "same_domain _ m = False"

lemma authorizeApplyPlan_sound:
  assumes "authorizeApplyPlan plan c s = Inr m"
  shows "sound_authority c s m \<and> mutation_Domain m = Some (plan_domain plan)"
proof (cases plan)
  case (infrastructurePlan b v)
  then show ?thesis using assms
    by (auto simp: domain_names split: if_splits dest!: AuthorizeInfrastructureMutation_sound)
next
  case (policyPlan b a p)
  then show ?thesis using assms
    by (auto simp: domain_names split: if_splits dest!: AuthorizePolicyMutation_sound)
next
  case (targetPlan b t ms tm e h ss)
  then show ?thesis using assms
    by (auto simp: domain_names split: if_splits option.splits dest!: AuthorizeTargetMutation_sound)
qed

lemma AuthorizeMutationRequest_sound:
  assumes "AuthorizeMutationRequest r c s = Inr (AuthorizedBackendWork m)"
  shows "sound_authority c s m \<and> same_domain r m"
proof (cases r)
  case (applyManagedPlanRequest plan)
  then show ?thesis using assms authorizeApplyPlan_sound [of plan c s m] by (simp del: authorizeApplyPlan.simps)
next
  case (removeManagedInfrastructureRequest owner)
  then have "AuthorizeManagedRemoval c s owner = Inr (Some m)"
    using assms by (auto split: if_splits option.splits)
  from AuthorizeManagedRemoval_sound [OF this] show ?thesis using removeManagedInfrastructureRequest by simp
qed (use assms in simp_all)

lemma MapMutationResult_answers:
  assumes "MapMutationResult (AuthorizedBackendWork m) result = Inr x" and "same_domain r m"
  shows "answers r x"
proof (cases r)
  case (applyManagedPlanRequest plan)
  let ?d = "plan_domain plan"
  have dom: "mutation_Domain m = Some ?d" using assms(2) applyManagedPlanRequest by simp
  then have "mapResultDomain ?d = Some ?d" using mapResultDomain_same mutation_domain_shape(2) by blast
  then have "mapApplyResult ?d result = Inr x"
    using assms(1) dom by (auto split: if_splits option.splits)
  from mapApplyResult_Inr [OF this] show ?thesis
    using applyManagedPlanRequest by (metis answers.simps(1) response_base.simps(1))
next
  case (removeManagedInfrastructureRequest owner)
  then have "mapRemovalResult result = Inr x" using assms by (auto split: if_splits)
  from mapRemovalResult_Inr [OF this] show ?thesis
    using removeManagedInfrastructureRequest by (metis answers.simps(2))
qed (use assms in simp_all)

lemma perform_mutation_answers:
  assumes "mutationIdentity m" and "same_domain r m"
  shows "\<exists>x. snd (perform_mutation backend m b) = Some x \<and> answers r x"
proof -
  obtain b' result where step:
    "(if mutation_Domain m \<noteq> None then mb_Apply backend m b else mb_Remove backend m b) = (b', result)"
    by (metis surj_pair)
  show ?thesis
  proof (cases "MapMutationResult (AuthorizedBackendWork m) result")
    case (Inr x)
    then show ?thesis using step MapMutationResult_answers [OF Inr assms(2)]
      by (simp add: perform_mutation_def del: MapMutationResult.simps)
  next
    case (Inl e)
    obtain unknown where u: "NewUnknownMutationResult m = Some unknown" using unknown_result [OF assms(1)] by blast
    obtain x where x: "MapMutationResult (AuthorizedBackendWork m) unknown = Inr x"
      using MapMutationResult_unknown [OF u] by blast
    then show ?thesis using step Inl u MapMutationResult_answers [OF x assms(2)]
      by (simp add: perform_mutation_def ok_response_def del: MapMutationResult.simps)
  qed
qed

text \<open>The documented obligations of a backend towards the physical state \<open>phys\<close>.\<close>

definition backend_contract :: "('b \<Rightarrow> 'p) \<Rightarrow> 'b MutationBackend \<Rightarrow> bool" where
  "backend_contract phys backend \<longleftrightarrow>
     (\<forall>b. phys (fst (mb_Probe backend b)) = phys b)
     \<and> (\<forall>b. phys (fst (mb_Snapshot backend b)) = phys b)
     \<and> (\<forall>m b. mre_status (snd (mb_Apply backend m b)) = MutationStatusRejected
          \<longrightarrow> phys (fst (mb_Apply backend m b)) = phys b)
     \<and> (\<forall>m b. mre_status (snd (mb_Remove backend m b)) = MutationStatusRejected
          \<longrightarrow> phys (fst (mb_Remove backend m b)) = phys b)"

lemma backend_contract_keeps:
  assumes "backend_contract phys backend"
  shows "phys (fst (mb_Probe backend b)) = phys b" "phys (fst (mb_Snapshot backend b)) = phys b"
    and "mb_Apply backend m b = (c, r) \<Longrightarrow> mre_status r = MutationStatusRejected \<Longrightarrow> phys c = phys b"
    and "mb_Remove backend m b = (c, r) \<Longrightarrow> mre_status r = MutationStatusRejected \<Longrightarrow> phys c = phys b"
  using assms unfolding backend_contract_def by (blast, blast, metis fst_conv snd_conv, metis fst_conv snd_conv)

lemma perform_mutation_rejected:
  assumes "backend_contract phys backend" and "perform_mutation backend m b = (b', Some x)"
    and "mrb_status (response_base x) = StatusRejected"
  shows "phys b' = phys b"
proof -
  obtain c result where step:
    "(if mutation_Domain m \<noteq> None then mb_Apply backend m b else mb_Remove backend m b) = (c, result)"
    by (metis surj_pair)
  have rejected: "mre_status result = MutationStatusRejected \<Longrightarrow> phys c = phys b"
    using step backend_contract_keeps(3,4) [OF assms(1), of m b c result] by (cases "mutation_Domain m") simp_all
  show ?thesis
  proof (cases "MapMutationResult (AuthorizedBackendWork m) result")
    case (Inr y)
    then have "b' = c \<and> x = y" using assms(2) step by (simp add: perform_mutation_def del: MapMutationResult.simps)
    then show ?thesis
      using rejected MapMutationResult_Inr [OF Inr] assms(3) by (simp add: StatusRejected_def MutationStatusRejected_def)
  next
    case (Inl e)
    then obtain unknown where u: "NewUnknownMutationResult m = Some unknown"
        "ok_response (MapMutationResult (AuthorizedBackendWork m) unknown) = Some x"
      using assms(2) step
      by (cases "NewUnknownMutationResult m") (auto simp: perform_mutation_def simp del: MapMutationResult.simps)
    then show ?thesis using MapMutationResult_unknown [OF u(1)] assms(3)
      by (auto simp: ok_response_def StatusRejected_def StatusUnknown_def simp del: MapMutationResult.simps)
  qed
qed

text \<open>How a call of the executor can end: a local rejection, an immediate response or a mutation.\<close>

lemma Execute_end:
  assumes "r = (if bad then (b2, rejectedMutationResponse request MutationErrorCodeNotReady)
       else (case AuthorizeMutationRequest request cap s of
         Inl e \<Rightarrow> (b2, rejectedMutationResponse request (mutationAuthorizationErrorCode e))
       | Inr (ImmediateResponse response) \<Rightarrow> (b2, Some response)
       | Inr (AuthorizedBackendWork mutation) \<Rightarrow>
           if late then (b2, rejectedMutationResponse request MutationErrorCodeNotReady)
           else perform_mutation backend mutation b2))"
  obtains code where "r = (b2, rejectedMutationResponse request code)" "code \<in> reject_codes"
  | x where "AuthorizeMutationRequest request cap s = Inr (ImmediateResponse x)" "r = (b2, Some x)"
  | m where "AuthorizeMutationRequest request cap s = Inr (AuthorizedBackendWork m)" "r = perform_mutation backend m b2"
proof (cases "AuthorizeMutationRequest request cap s")
  case (Inl e)
  then show ?thesis using assms that(1) reject_code_members by (metis sum.case(1))
next
  case (Inr a)
  then show ?thesis using assms that reject_code_members(1)
    by (cases a; cases bad; cases late) (simp_all del: AuthorizeMutationRequest.simps rejectedMutationResponse.simps)
qed

lemma Execute_cases:
  assumes "correlatableMutationRequest request"
  obtains (rejected) c code where "Execute backend cancelled request b = (c, rejectedMutationResponse request code)"
      "code \<in> reject_codes" "c \<in> {b, fst (mb_Probe backend b), fst (mb_Snapshot backend (fst (mb_Probe backend b)))}"
  | (immediate) cap s x where "AuthorizeMutationRequest request cap s = Inr (ImmediateResponse x)"
      "Execute backend cancelled request b = (fst (mb_Snapshot backend (fst (mb_Probe backend b))), Some x)"
  | (work) cap s m where "AuthorizeMutationRequest request cap s = Inr (AuthorizedBackendWork m)"
      "Execute backend cancelled request b =
         perform_mutation backend m (fst (mb_Snapshot backend (fst (mb_Probe backend b))))"
proof -
  note [simp del] = AuthorizeMutationRequest.simps rejectedMutationResponse.simps correlatableMutationRequest.simps
  obtain b1 p where p: "mb_Probe backend b = (b1, p)" by (metis surj_pair)
  obtain b2 q where q: "mb_Snapshot backend b1 = (b2, q)" by (metis surj_pair)
  show thesis
  proof (cases "cancelled 0 \<or> cancelled 1 \<or> cancelled 2")
    case True
    then show ?thesis using assms by (intro rejected [of b MutationErrorCodeNotReady]) (simp_all add: Execute_def)
  next
    case go: False
    show ?thesis
    proof (cases p)
      case (Inl e)
      then show ?thesis using assms go p
        by (intro rejected [of b1 "mutationObservationErrorCode e"]) (simp_all add: Execute_def)
    next
      case cap: (Inr cap)
      show ?thesis
      proof (cases "FirewallCapabilities_Validate cap \<noteq> None \<or> \<not> cap_mutationReady cap \<or> \<not> cap_ownershipProven cap \<or> cancelled 3")
        case True
        then show ?thesis using assms go p cap
          by (intro rejected [of b1 MutationErrorCodeNotReady]) (simp_all add: Execute_def)
      next
        case go': False
        show ?thesis
        proof (cases q)
          case (Inl e)
          then show ?thesis using assms go go' p cap q
            by (intro rejected [of b2 "mutationObservationErrorCode e"]) (simp_all add: Execute_def)
        next
          case (Inr s)
          then have E: "Execute backend cancelled request b =
              (if ManagedSnapshot_Validate s \<noteq> None \<or> cancelled 4
               then (b2, rejectedMutationResponse request MutationErrorCodeNotReady)
               else (case AuthorizeMutationRequest request cap s of
                 Inl e \<Rightarrow> (b2, rejectedMutationResponse request (mutationAuthorizationErrorCode e))
               | Inr (ImmediateResponse response) \<Rightarrow> (b2, Some response)
               | Inr (AuthorizedBackendWork mutation) \<Rightarrow>
                   if cancelled 5 then (b2, rejectedMutationResponse request MutationErrorCodeNotReady)
                   else perform_mutation backend mutation b2))"
            using assms go go' p cap q by (simp add: Execute_def)
          have b2: "fst (mb_Snapshot backend (fst (mb_Probe backend b))) = b2" using p q by simp
          show ?thesis
            by (rule Execute_end [OF E, of thesis]) (use rejected immediate work b2 in auto)
        qed
      qed
    qed
  qed
qed

section \<open>Properties\<close>

text \<open>
  Claim C27. An authority is only created for the snapshot and capabilities that were just observed:
  both are valid, mutation is ready and ownership proven, the authority is bound to the digest of the
  observed snapshot, and it acts on exactly the domain the request names.
\<close>

theorem authorization_bound_to_observation:
  assumes "AuthorizeMutationRequest request capabilities snapshot = Inr (AuthorizedBackendWork mutation)"
  shows "FirewallCapabilities_Validate capabilities = None \<and> ManagedSnapshot_Validate snapshot = None
     \<and> cap_mutationReady capabilities \<and> cap_ownershipProven capabilities
     \<and> mutation_basis mutation = msn_digest snapshot \<and> same_domain request mutation"
  using AuthorizeMutationRequest_sound [OF assms] by (simp add: sound_authority_def authority_ready_def)

text \<open>
  Claim C28. No authority ever targets a loopback network: an authorised target mutation has a
  canonical target that overlaps neither protected prefix, on installed infrastructure, and a ban
  needs an installed policy.
\<close>

theorem authorized_target_protected:
  assumes "AuthorizeMutationRequest
             (applyManagedPlanRequest (targetPlan base target membership mode expiry hasExpiry scopes)) c s = Inr a"
  shows "canonical target \<and> \<not> Overlaps target loopback4 \<and> \<not> Overlaps target loopback6
     \<and> mst_infrastructure (msn_managedState s) \<noteq> None
     \<and> \<not> (membership = MembershipPresent \<and> mst_policy (msn_managedState s) = None)"
proof -
  obtain m t ss w where g: "mapMembership membership = Some m"
      "AuthorizeTargetMutation c s (plb_basisSnapshotDigest base) (plb_revision base) target m t expiry hasExpiry ss = Inr w"
    using assms by (auto split: if_splits option.splits)
  have "m = TargetMembershipPresent" if "membership = MembershipPresent"
    using g(1) that by (simp add: mapMembership_def)
  then show ?thesis using AuthorizeTargetMutation_sound [OF g(2)] by (auto simp: target_plan_ok_def)
qed

text \<open>
  Claim C29. Every correlatable request is answered, whatever the backend returns and whenever the
  context is cancelled, and the response has the operation, the domain and one of the states the
  protocol allows for the request.
\<close>

theorem Execute_always_answers:
  assumes "correlatableMutationRequest request"
  shows "\<exists>response. snd (Execute backend cancelled request b) = Some response \<and> answers request response"
  using assms
proof (cases rule: Execute_cases [where backend = backend and cancelled = cancelled and b = b])
  case (rejected c code)
  then show ?thesis using rejected_answers [OF assms rejected(2)] by auto
next
  case (immediate cap s x)
  then have "answers request x"
    by (cases request) (auto simp: NewRemoveManagedInfrastructureConfirmedResponse_def
        validRemoveResponseState_def split: if_splits option.splits)
  then show ?thesis using immediate(2) by simp
next
  case (work cap s m)
  have "mutationIdentity m" "same_domain request m"
    using AuthorizeMutationRequest_sound [OF work(1)] by (simp_all add: sound_authority_def)
  from perform_mutation_answers [OF this] show ?thesis unfolding work(2) .
qed

text \<open>
  Claim C30. A rejected response proves that nothing changed: for every backend that keeps the
  documented contract, a request answered with status rejected leaves the physical state as it was.
\<close>

theorem Execute_rejected_unchanged:
  assumes "backend_contract phys backend"
    and "Execute backend cancelled request b = (b', Some response)"
    and "mrb_status (response_base response) = StatusRejected"
  shows "phys b' = phys b"
proof -
  let ?b2 = "fst (mb_Snapshot backend (fst (mb_Probe backend b)))"
  have keep: "phys (fst (mb_Probe backend b)) = phys b" "phys ?b2 = phys b"
    by (simp_all add: backend_contract_keeps(1,2) [OF assms(1)])
  have "correlatableMutationRequest request"
    using assms(2) by (cases "correlatableMutationRequest request") (simp_all add: Execute_def)
  then show ?thesis
  proof (cases rule: Execute_cases [where backend = backend and cancelled = cancelled and b = b])
    case (rejected c code)
    then show ?thesis using assms(2) keep by auto
  next
    case (immediate cap s x)
    then show ?thesis using assms(2) keep by simp
  next
    case (work cap s m)
    then show ?thesis using perform_mutation_rejected [OF assms(1) _ assms(3)] assms(2) keep by simp
  qed
qed

section \<open>A concrete environment\<close>

definition sample_capabilities :: FirewallCapabilities where
  "sample_capabilities =
     \<lparr> cap_backend = BackendKindNftablesNative, cap_toolVersion = ''1.0'', cap_ipv4 = True, cap_ipv6 = True,
       cap_cidr = True, cap_nativeSet = True, cap_nativeTimeout = True, cap_crashSafeExpiry = True,
       cap_atomicBatch = True, cap_hostInput = True, cap_forward = True, cap_ufwIntegrationProven = False,
       cap_dockerIntegrationProven = False, cap_ownershipProven = True, cap_mutationReady = True \<rparr>"

definition installed_state :: ManagedState where
  "installed_state = sample_state\<lparr>
     mst_infrastructure := Some \<lparr> iob_backend = BackendKindNftablesNative, iob_ownerVersion = ManagedOwnerVersionV1,
        iob_schemaVersion = 1, iob_digest = replicate 64 CHR ''a'', iob_valid = True \<rparr>,
     mst_policy := Some \<lparr> pob_relationDigest = replicate 64 CHR ''b'', pob_valid = True \<rparr>\<rparr>"

definition installed_snapshot :: ManagedSnapshot where
  "installed_snapshot = \<lparr> msn_managedState = installed_state, msn_foreignContext = sample_foreign,
     msn_digest = computeManagedSnapshotDigest installed_state sample_foreign, msn_valid = True \<rparr>"

lemma installed_valid:
  "FirewallCapabilities_Validate sample_capabilities = None" "ManagedState_Validate installed_state = None"
  "ForeignContext_Validate sample_foreign = None" "validManagedTarget (PrefixFrom (Addr4 0x0A000001) 32)"
  "canonicalManagedScopes [ManagedScopeInput] = Some [ManagedScopeInput]"
  "supportsPrefix sample_capabilities (PrefixFrom (Addr4 0x0A000001) 32)"
  "supportsScopes sample_capabilities [ManagedScopeInput]"
  by code_simp+

lemma installed_snapshot_valid: "ManagedSnapshot_Validate installed_snapshot = None"
  by (rule NewManagedSnapshot_validates [of installed_state sample_foreign])
    (simp add: NewManagedSnapshot_def installed_snapshot_def installed_valid)

lemma installed_parts:
  "mst_infrastructure (msn_managedState installed_snapshot) \<noteq> None"
  "mst_policy (msn_managedState installed_snapshot) \<noteq> None"
  by (simp_all add: installed_snapshot_def installed_state_def)

lemma installed_authority:
  "validateMutationAuthority sample_capabilities installed_snapshot d = None \<longleftrightarrow> d = [] \<or> d = msn_digest installed_snapshot"
  by (auto simp: validateMutationAuthority_None_iff authority_ready_def installed_valid installed_snapshot_valid)
    (auto simp: sample_capabilities_def installed_snapshot_def installed_state_def)

definition lost_result :: MutationResult where
  "lost_result = \<lparr> mre_operation = MutationOperationApply, mre_domain = None, mre_mutationDigest = [],
     mre_status = MutationStatusUnknown, mre_errorCode = None, mre_valid = False \<rparr>"

definition refusing_backend :: "nat MutationBackend" where
  "refusing_backend =
     \<lparr> mb_Probe = (\<lambda>b. (b, Inr sample_capabilities)), mb_Snapshot = (\<lambda>b. (b, Inl FirewallOwnershipConflict)),
       mb_Apply = (\<lambda>m b. (Suc b, lost_result)), mb_Remove = (\<lambda>m b. (Suc b, lost_result)) \<rparr>"

definition removal_of_installed :: AuthorizedMutation where
  "removal_of_installed =
     (let r = \<lparr> rem_capabilities = sample_capabilities, rem_ownerVersion = ManagedOwnerVersionV1,
                rem_basisSnapshotDigest = msn_digest installed_snapshot, rem_digest = [] \<rparr>
      in RemovalAuthorization (r\<lparr>rem_digest := digestMutation (removal_wire r)\<rparr>))"

theorem authorization_bound_to_observation_witness:
  "AuthorizeMutationRequest NewRemoveManagedInfrastructureRequest sample_capabilities installed_snapshot
     = Inr (AuthorizedBackendWork removal_of_installed)
   \<and> mutation_basis removal_of_installed = msn_digest installed_snapshot"
proof -
  have n: "validateMutationAuthority sample_capabilities installed_snapshot [] = None" by (simp add: installed_authority)
  have "AuthorizeManagedRemoval sample_capabilities installed_snapshot ownerVersionV1 = Inr (Some removal_of_installed)"
    by (simp add: AuthorizeManagedRemoval_def n ownerVersionV1_def ManagedOwnerVersionV1_def
        installed_parts removal_of_installed_def Let_def)
  then have a: "AuthorizeMutationRequest NewRemoveManagedInfrastructureRequest sample_capabilities installed_snapshot
     = Inr (AuthorizedBackendWork removal_of_installed)"
    by (simp add: NewRemoveManagedInfrastructureRequest_def ownerVersionV1_def)
  from authorization_bound_to_observation [OF this] a show ?thesis by simp
qed

definition ban_request :: Request where
  "ban_request = applyManagedPlanRequest (targetPlan
     \<lparr> plb_ownerVersion = ''guard/v1'', plb_basisSnapshotDigest = msn_digest installed_snapshot, plb_revision = 1 \<rparr>
     (PrefixFrom (Addr4 0x0A000001) 32) MembershipPresent TimeoutModeNone 0 False [WireScopeInput])"

theorem authorized_target_protected_witness:
  "\<not> Overlaps (PrefixFrom (Addr4 0x0A000001) 32) loopback4
   \<and> (\<exists>a. AuthorizeMutationRequest ban_request sample_capabilities installed_snapshot = Inr a)"
proof -
  have d: "validSnapshotDigest (msn_digest installed_snapshot)" "msn_digest installed_snapshot \<noteq> []"
    using valid_snapshot_digest [OF installed_snapshot_valid] validSnapshotDigest_nonempty by blast+
  have t: "validTargetTimeout TargetMembershipPresent ManagedTimeoutNone 0 False"
    "ManagedTimeoutNone \<noteq> ManagedTimeoutNative" by code_simp+
  have "\<exists>m. AuthorizeTargetMutation sample_capabilities installed_snapshot (msn_digest installed_snapshot) 1
      (PrefixFrom (Addr4 0x0A000001) 32) TargetMembershipPresent ManagedTimeoutNone 0 False [ManagedScopeInput] = Inr m"
    using d t installed_parts installed_authority [of "msn_digest installed_snapshot"]
    by (simp add: AuthorizeTargetMutation_def installed_valid Let_def)
  then obtain m where "AuthorizeTargetMutation sample_capabilities installed_snapshot (msn_digest installed_snapshot) 1
      (PrefixFrom (Addr4 0x0A000001) 32) TargetMembershipPresent ManagedTimeoutNone 0 False [ManagedScopeInput] = Inr m" ..
  then have a: "AuthorizeMutationRequest ban_request sample_capabilities installed_snapshot = Inr (AuthorizedBackendWork m)"
    using d(2) by (simp add: ban_request_def mapMembership_def mapTimeoutMode_def ManagedOwnerVersionV1_def)
  from authorized_target_protected [OF this [unfolded ban_request_def]] a show ?thesis by blast
qed

theorem Execute_always_answers_witness:
  "\<exists>response. snd (Execute refusing_backend (\<lambda>_. False) NewRemoveManagedInfrastructureRequest 0) = Some response
     \<and> answers NewRemoveManagedInfrastructureRequest response"
  by (rule Execute_always_answers)
    (simp add: NewRemoveManagedInfrastructureRequest_def ownerVersionV1_def ManagedOwnerVersionV1_def)

theorem Execute_rejected_unchanged_witness:
  "fst (Execute refusing_backend (\<lambda>_. False) NewRemoveManagedInfrastructureRequest 7) = 7"
proof -
  have c: "backend_contract id refusing_backend"
    by (simp add: backend_contract_def refusing_backend_def lost_result_def MutationStatusUnknown_def
        MutationStatusRejected_def)
  have e: "Execute refusing_backend (\<lambda>_. False) NewRemoveManagedInfrastructureRequest 7 =
      (7, Some (removeManagedInfrastructureResponse
        \<lparr> mrb_status = StatusRejected, mrb_errorCode = Some MutationErrorCodeOwnershipConflict \<rparr>))"
    by (simp add: Execute_def refusing_backend_def NewRemoveManagedInfrastructureRequest_def ownerVersionV1_def
        ManagedOwnerVersionV1_def installed_valid ok_response_def NewRemoveManagedInfrastructureRejectedResponse_def
        validRemoveRejectedErrorCode_def MutationErrorCodeInvalidPlan_def MutationErrorCodeOwnershipConflict_def)
      (simp add: sample_capabilities_def)
  from Execute_rejected_unchanged [OF c e] e show ?thesis by simp
qed

end
