(* ===== verification/Json_Scan.thy ===== *)
theory Json_Scan
  imports Json
begin

text \<open>
  The token scan that precedes decoding (\<^verbatim>\<open>scanJSON\<close>, \<^verbatim>\<open>scanMutationResponseJSON\<close>): one pass over
  the tokens of the payload that bounds the nesting and the number of tokens and refuses a repeated
  key. The main result is that it accepts the text of every value within the limits.
\<close>

section \<open>The scanner\<close>

datatype scan_error = ScanInvalid | ScanDuplicate | ScanDepth | ScanTokens

definition count_token :: "nat \<Rightarrow> nat \<Rightarrow> scan_error + nat" where
  "count_token maxTokens tokens = (if maxTokens < Suc tokens then Inl ScanTokens else Inr (Suc tokens))"

text \<open>
  \<^verbatim>\<open>scanJSONValue\<close> with its two loops, one mode each: a value, the members of an object after the
  keys already seen, the elements of an array; the flag is set before the first member or element.
  The fuel bounds the nesting of calls and \<open>2 * length raw + 2\<close> is enough, since two successive calls
  consume a byte.
\<close>

datatype scan_mode = ScanValue | ScanMembers "string list" bool | ScanElements bool

primrec scan :: "nat \<Rightarrow> nat \<Rightarrow> nat \<Rightarrow> scan_mode \<Rightarrow> nat \<Rightarrow> nat \<Rightarrow> string \<Rightarrow> scan_error + nat \<times> string" where
  "scan maxDepth maxTokens 0 mode depth tokens s = Inl ScanInvalid"
| "scan maxDepth maxTokens (Suc n) mode depth tokens s =
     (case mode of
        ScanValue \<Rightarrow>
          (case skip_ws s of
             [] \<Rightarrow> Inl ScanInvalid
           | c # r \<Rightarrow>
               if c = CHR ''{'' \<or> c = CHR ''['' then
                 bind_result (count_token maxTokens tokens) (\<lambda>t.
                   if maxDepth < Suc depth then Inl ScanDepth
                   else if c = CHR ''{'' then scan maxDepth maxTokens n (ScanMembers [] True) (Suc depth) t r
                   else scan maxDepth maxTokens n (ScanElements True) (Suc depth) t r)
               else (case lex_scalar (c # r) of
                       None \<Rightarrow> Inl ScanInvalid
                     | Some (_, r') \<Rightarrow> bind_result (count_token maxTokens tokens) (\<lambda>t. Inr (t, r'))))
      | ScanMembers seen start \<Rightarrow>
          (case expect (CHR ''}'') s of
             Some r \<Rightarrow> bind_result (count_token maxTokens tokens) (\<lambda>t. Inr (t, r))
           | None \<Rightarrow>
          (case (if start then Some s else expect (CHR '','') s) of
             None \<Rightarrow> Inl ScanInvalid
           | Some s1 \<Rightarrow>
          (case expect QUOTE s1 of
             None \<Rightarrow> Inl ScanInvalid
           | Some r1 \<Rightarrow>
          (case lex_string r1 of
             None \<Rightarrow> Inl ScanInvalid
           | Some (k, r2) \<Rightarrow>
               bind_result (count_token maxTokens tokens) (\<lambda>t.
                 if k \<in> set seen then Inl ScanDuplicate
                 else (case expect (CHR '':'') r2 of
                         None \<Rightarrow> Inl ScanInvalid
                       | Some r3 \<Rightarrow>
                           bind_result (scan maxDepth maxTokens n ScanValue depth t r3) (\<lambda>(t', r4).
                             scan maxDepth maxTokens n (ScanMembers (k # seen) False) depth t' r4)))))))
      | ScanElements start \<Rightarrow>
          (case expect (CHR '']'') s of
             Some r \<Rightarrow> bind_result (count_token maxTokens tokens) (\<lambda>t. Inr (t, r))
           | None \<Rightarrow>
          (case (if start then Some s else expect (CHR '','') s) of
             None \<Rightarrow> Inl ScanInvalid
           | Some s1 \<Rightarrow>
               bind_result (scan maxDepth maxTokens n ScanValue depth tokens s1) (\<lambda>(t, r).
                 scan maxDepth maxTokens n (ScanElements False) depth t r))))"

definition scan_document :: "nat \<Rightarrow> nat \<Rightarrow> string \<Rightarrow> scan_error option" where
  "scan_document maxDepth maxTokens raw =
     (case scan maxDepth maxTokens (2 * length raw + 2) ScanValue 0 0 raw of
        Inl e \<Rightarrow> Some e
      | Inr (_, r) \<Rightarrow> if skip_ws r = [] then None else Some ScanInvalid)"

section \<open>What the scanner accepts\<close>

fun json_tokens :: "json \<Rightarrow> nat" where
  "json_tokens (JArray vs) = 2 + sum_list (map json_tokens vs)"
| "json_tokens (JObject fs) = 2 + sum_list (map (\<lambda>(k, v). Suc (json_tokens v)) fs)"
| "json_tokens _ = 1"

fun json_nests :: "nat \<Rightarrow> json \<Rightarrow> bool" where
  "json_nests d (JArray vs) = (0 < d \<and> list_all (json_nests (d - 1)) vs)"
| "json_nests d (JObject fs) = (0 < d \<and> list_all (\<lambda>(k, v). json_nests (d - 1) v) fs)"
| "json_nests d _ = True"

fun distinct_keys :: "json \<Rightarrow> bool" where
  "distinct_keys (JArray vs) = list_all distinct_keys vs"
| "distinct_keys (JObject fs) = (distinct (map fst fs) \<and> list_all (\<lambda>(k, v). distinct_keys v) fs)"
| "distinct_keys _ = True"

definition scans :: "json \<Rightarrow> bool" where
  "scans v \<longleftrightarrow> (\<forall>md mt n pd toks r. length (Marshal v) \<le> n \<longrightarrow> delimited r \<longrightarrow> pd \<le> md \<longrightarrow> json_nests (md - pd) v
      \<longrightarrow> toks + json_tokens v \<le> mt \<longrightarrow> scan md mt n ScanValue pd toks (Marshal v @ r) = Inr (toks + json_tokens v, r))"

lemma scansD:
  "scans v \<Longrightarrow> length (Marshal v) \<le> n \<Longrightarrow> delimited r \<Longrightarrow> pd \<le> md \<Longrightarrow> json_nests (md - pd) v
    \<Longrightarrow> toks + json_tokens v \<le> mt \<Longrightarrow> scan md mt n ScanValue pd toks (Marshal v @ r) = Inr (toks + json_tokens v, r)"
  by (simp add: scans_def)

lemma count_token_ok: "Suc t \<le> mt \<Longrightarrow> count_token mt t = Inr (Suc t)"
  by (simp add: count_token_def)

definition comma_texts :: "string list \<Rightarrow> string" where
  "comma_texts ss = concat (map (Cons (CHR '','')) ss)"

lemma comma_join_texts: "comma_join (s # ss) = s @ comma_texts ss"
proof (induction ss arbitrary: s)
  case (Cons t ss)
  then show ?case by (simp add: comma_texts_def)
qed (simp add: comma_texts_def)

lemma delimited_texts: "c = CHR '']'' \<or> c = CHR ''}'' \<Longrightarrow> delimited (comma_texts ss @ c # r)"
  by (cases ss) (auto simp: comma_texts_def delimited_def)

lemma scan_elements_texts:
  assumes "\<forall>v\<in>set vs. scans v \<and> plain_json v" and "length (comma_texts (map Marshal vs)) \<le> n" and "0 < n"
    and "d \<le> md" and "list_all (json_nests (md - d)) vs" and "toks + sum_list (map json_tokens vs) < mt"
  shows "scan md mt n (ScanElements False) d toks (comma_texts (map Marshal vs) @ CHR '']'' # r) =
    Inr (toks + sum_list (map json_tokens vs) + 1, r)"
  using assms
proof (induction vs arbitrary: n toks)
  case Nil
  then obtain m where "n = Suc m" by (cases n) auto
  then show ?case using Nil by (simp add: comma_texts_def expect_Cons is_space_def count_token_ok)
next
  case (Cons v vs)
  then obtain m where n: "n = Suc m" by (cases n) auto
  let ?rest = "comma_texts (map Marshal vs) @ CHR '']'' # r"
  obtain c t where ct: "Marshal v = c # t" using Cons.prems(1) Marshal_first [of v] by auto
  have split: "comma_texts (map Marshal (v # vs)) = CHR '','' # Marshal v @ comma_texts (map Marshal vs)"
    by (simp add: comma_texts_def)
  have "scan md mt m ScanValue d toks (Marshal v @ ?rest) = Inr (toks + json_tokens v, ?rest)"
    using Cons.prems n split by (intro scansD delimited_texts) auto
  moreover have "scan md mt m (ScanElements False) d (toks + json_tokens v) ?rest =
      Inr (toks + json_tokens v + sum_list (map json_tokens vs) + 1, r)"
    using Cons.prems n split ct by (intro Cons.IH) auto
  ultimately show ?case unfolding n split by (simp add: expect_Cons is_space_def)
qed

lemma scan_members_texts:
  assumes "\<forall>(k, v)\<in>set fs. scans v \<and> plain_json v" and "length (comma_texts (map member_text fs)) \<le> n" and "0 < n"
    and "d \<le> md" and "list_all (\<lambda>(k, v). json_nests (md - d) v) fs"
    and "toks + sum_list (map (\<lambda>(k, v). Suc (json_tokens v)) fs) < mt"
    and "distinct (map fst fs)" and "set (map fst fs) \<inter> set seen = {}"
  shows "scan md mt n (ScanMembers seen False) d toks (comma_texts (map member_text fs) @ CHR ''}'' # r) =
    Inr (toks + sum_list (map (\<lambda>(k, v). Suc (json_tokens v)) fs) + 1, r)"
  using assms
proof (induction fs arbitrary: n toks seen)
  case Nil
  then obtain m where "n = Suc m" by (cases n) auto
  then show ?case using Nil by (simp add: comma_texts_def expect_Cons is_space_def count_token_ok)
next
  case (Cons f fs)
  then obtain m where n: "n = Suc m" by (cases n) auto
  obtain k v where f: "f = (k, v)" by (cases f) auto
  let ?rest = "comma_texts (map member_text fs) @ CHR ''}'' # r"
  have split: "comma_texts (map member_text (f # fs)) =
      CHR '','' # QUOTE # concat (map escape_char k) @ QUOTE # CHR '':'' # Marshal v @ comma_texts (map member_text fs)"
    by (simp add: comma_texts_def member_text_def marshal_string_def f)
  have "scan md mt m ScanValue d (Suc toks) (Marshal v @ ?rest) = Inr (Suc toks + json_tokens v, ?rest)"
    using Cons.prems n split f by (intro scansD delimited_texts) auto
  moreover have "scan md mt m (ScanMembers (k # seen) False) d (Suc toks + json_tokens v) ?rest =
      Inr (Suc toks + json_tokens v + sum_list (map (\<lambda>(k, v). Suc (json_tokens v)) fs) + 1, r)"
    using Cons.prems n split f by (intro Cons.IH) auto
  ultimately show ?case using Cons.prems f unfolding n split
    by (simp add: expect_Cons is_space_def lex_string_marshal count_token_ok)
qed

lemma scan_elements_start:
  assumes "scan md mt (Suc n) (ScanElements False) d toks (CHR '','' # s) = Inr y"
    and "s = c # t" and "value_start c"
  shows "scan md mt (Suc n) (ScanElements True) d toks s = Inr y"
  using assms by (simp add: expect_Cons is_space_def value_start_def)

lemma scan_members_start:
  assumes "scan md mt (Suc n) (ScanMembers [] False) d toks (CHR '','' # s) = Inr y"
    and "s = c # t" and "value_start c"
  shows "scan md mt (Suc n) (ScanMembers [] True) d toks s = Inr y"
  using assms by (simp add: expect_Cons is_space_def value_start_def)

lemma scans_scalar:
  assumes "Marshal v = c # s" and "value_start c" and "c \<noteq> CHR ''{''" and "c \<noteq> CHR ''[''"
    and "json_tokens v = 1" and "\<And>r. delimited r \<Longrightarrow> lex_scalar (Marshal v @ r) = Some (v, r)"
  shows "scans v"
  unfolding scans_def
proof (intro allI impI)
  fix md mt n pd toks r
  assume n: "length (Marshal v) \<le> n" and r: "delimited r" and t: "toks + json_tokens v \<le> mt"
  obtain m where m: "n = Suc m" using n assms(1) by (cases n) auto
  have "lex_scalar (c # s @ r) = Some (v, r)" using assms(1) assms(6) [OF r] by simp
  then show "scan md mt n ScanValue pd toks (Marshal v @ r) = Inr (toks + json_tokens v, r)"
    using assms t m by (simp add: skip_ws_Cons value_start_def count_token_ok)
qed

lemma comma_texts_join: "ss \<noteq> [] \<Longrightarrow> comma_texts ss = CHR '','' # comma_join ss"
  by (cases ss) (simp_all add: comma_join_texts, simp add: comma_texts_def)

lemma scans_array:
  assumes all: "\<forall>v\<in>set vs. scans v \<and> plain_json v"
  shows "scans (JArray vs)"
  unfolding scans_def
proof (intro allI impI)
  fix md mt n pd toks r
  assume n: "length (Marshal (JArray vs)) \<le> n" and nest: "json_nests (md - pd) (JArray vs)"
    and t: "toks + json_tokens (JArray vs) \<le> mt"
  obtain m where m: "n = Suc (Suc m)" using n by (cases n rule: nat.exhaust; cases "n - 1") auto
  let ?text = "comma_join (map Marshal vs) @ CHR '']'' # r"
  have "scan md mt (Suc m) (ScanElements True) (Suc pd) (Suc toks) ?text = Inr (toks + json_tokens (JArray vs), r)"
  proof (cases "vs = []")
    case True
    then show ?thesis using t by (simp add: expect_Cons is_space_def count_token_ok)
  next
    case False
    obtain c s where c: "?text = c # s" "value_start c"
      using comma_join_first [of "map Marshal vs"] False all Marshal_first
      by (metis append_Cons hd_in_set list.map_disc_iff list.map_sel(1))
    have "scan md mt (Suc m) (ScanElements False) (Suc pd) (Suc toks) (comma_texts (map Marshal vs) @ CHR '']'' # r) =
        Inr (Suc toks + sum_list (map json_tokens vs) + 1, r)"
      using all nest t n m False by (intro scan_elements_texts) (auto simp: comma_texts_join list_all_iff)
    then show ?thesis using False c scan_elements_start [OF _ c, of md mt m "Suc pd" "Suc toks"]
      by (simp add: comma_texts_join del: scan.simps)
  qed
  then show "scan md mt n ScanValue pd toks (Marshal (JArray vs) @ r) = Inr (toks + json_tokens (JArray vs), r)"
    unfolding m scan.simps(2) [where n = "Suc m" and mode = ScanValue]
    using t nest by (simp add: skip_ws_Cons is_space_def count_token_ok del: scan.simps)
qed

lemma scans_object:
  assumes all: "\<forall>(k, v)\<in>set fs. scans v \<and> plain_json v" and keys: "distinct (map fst fs)"
  shows "scans (JObject fs)"
  unfolding scans_def
proof (intro allI impI)
  fix md mt n pd toks r
  assume n: "length (Marshal (JObject fs)) \<le> n" and nest: "json_nests (md - pd) (JObject fs)"
    and t: "toks + json_tokens (JObject fs) \<le> mt"
  have M: "Marshal (JObject fs) = CHR ''{'' # comma_join (map member_text fs) @ [CHR ''}'']"
    by (simp add: member_text_def)
  obtain m where m: "n = Suc (Suc m)" using n by (cases n rule: nat.exhaust; cases "n - 1") auto
  let ?text = "comma_join (map member_text fs) @ CHR ''}'' # r"
  have "scan md mt (Suc m) (ScanMembers [] True) (Suc pd) (Suc toks) ?text = Inr (toks + json_tokens (JObject fs), r)"
  proof (cases "fs = []")
    case True
    then show ?thesis using t by (simp add: expect_Cons is_space_def count_token_ok)
  next
    case False
    have "\<exists>c s. hd (map member_text fs) = c # s \<and> value_start c"
      using False by (simp add: hd_map member_text_def marshal_string_def split_def value_start_def is_space_def)
    then obtain c s where c: "?text = c # s" "value_start c"
      using comma_join_first [of "map member_text fs"] False by auto
    have "scan md mt (Suc m) (ScanMembers [] False) (Suc pd) (Suc toks) (comma_texts (map member_text fs) @ CHR ''}'' # r) =
        Inr (Suc toks + sum_list (map (\<lambda>(k, v). Suc (json_tokens v)) fs) + 1, r)"
      using all keys nest t n m False unfolding M
      by (intro scan_members_texts) (auto simp: comma_texts_join list_all_iff)
    then show ?thesis using False c scan_members_start [OF _ c, of md mt m "Suc pd" "Suc toks"]
      by (simp add: comma_texts_join del: scan.simps)
  qed
  then show "scan md mt n ScanValue pd toks (Marshal (JObject fs) @ r) = Inr (toks + json_tokens (JObject fs), r)"
    unfolding M m scan.simps(2) [where n = "Suc m" and mode = ScanValue]
    using t nest by (simp add: skip_ws_Cons is_space_def count_token_ok del: scan.simps)
qed

lemma Marshal_scans: "plain_json v \<Longrightarrow> distinct_keys v \<Longrightarrow> scans v"
proof (induction v)
  case (JNumber t)
  then have t: "t = Itoa (read_base 10 t)" by (simp add: plain_number_def)
  obtain c s where c: "Itoa (read_base 10 t) = c # s" "is_dec c" using Itoa_Cons by blast
  show ?case
    using t c dec_start [OF c(2)] lex_scalar_Itoa [of _ "read_base 10 t"] by (intro scans_scalar [of _ c s]) auto
next
  case (JArray vs)
  then show ?case by (intro scans_array) (simp add: list_all_iff)
next
  case (JObject fs)
  then show ?case by (intro scans_object) (fastforce simp: list_all_iff snds.simps split: prod.splits)+
next
  case (JString x)
  then show ?case using lex_scalar_string [of x]
    by (intro scans_scalar [of _ QUOTE "concat (map escape_char x) @ [QUOTE]"])
      (auto simp: value_start_def is_space_def marshal_string_def)
next
  case JNull
  then show ?case
    by (intro scans_scalar) (auto simp: value_start_def is_space_def lex_scalar_def strip_prefix_def)
next
  case (JBool b)
  then show ?case
    by (cases b; intro scans_scalar) (auto simp: value_start_def is_space_def lex_scalar_def strip_prefix_def)
qed

text \<open>The text of a value within the limits is accepted as a whole document.\<close>

lemma scan_document_Marshal:
  assumes "plain_json v" and "distinct_keys v" and "json_nests md v" and "json_tokens v \<le> mt"
  shows "scan_document md mt (Marshal v) = None"
proof -
  have "scan md mt (2 * length (Marshal v) + 2) ScanValue 0 0 (Marshal v @ []) = Inr (0 + json_tokens v, [])"
    using assms by (intro scansD Marshal_scans) (auto simp: delimited_def)
  then show ?thesis by (simp add: scan_document_def skip_ws_def del: scan.simps)
qed

end
