(* ===== verification/Ipc_Codec.thy ===== *)
theory Ipc_Codec
  imports Json_Scan Ipc_Message
begin

text \<open>
  The JSON codecs and frames of IPC v1 (\<^verbatim>\<open>internal/ipc/request.go\<close>, \<^verbatim>\<open>response.go\<close>, \<^verbatim>\<open>frame.go\<close>,
  \<^verbatim>\<open>request_frame.go\<close> and \<^verbatim>\<open>response_frame.go\<close>). A payload is scanned token by token for its limits and
  for duplicate keys before it is decoded, and an encoder checks that its own output decodes. The
  main results are the round trips through the text and through the length-prefixed frame.
\<close>

fun request_scan_code :: "scan_error \<Rightarrow> ErrorCode" where
  "request_scan_code ScanInvalid = ErrorCodeInvalidJSON"
| "request_scan_code ScanDuplicate = ErrorCodeDuplicateKey"
| "request_scan_code ScanDepth = ErrorCodeMaxDepthExceeded"
| "request_scan_code ScanTokens = ErrorCodeTokenLimitExceeded"

definition scanJSON :: "string \<Rightarrow> ErrorCode option" where
  "scanJSON raw = map_option request_scan_code (scan_document 8 4096 raw)"

fun response_scan_code :: "scan_error \<Rightarrow> MutationResponseErrorCode" where
  "response_scan_code ScanInvalid = MutationResponseErrorCodeInvalidJSON"
| "response_scan_code ScanDuplicate = MutationResponseErrorCodeDuplicateKey"
| "response_scan_code ScanDepth = MutationResponseErrorCodeMaxDepthExceeded"
| "response_scan_code ScanTokens = MutationResponseErrorCodeTokenLimitExceeded"

definition scanMutationResponseJSON :: "string \<Rightarrow> MutationResponseErrorCode option" where
  "scanMutationResponseJSON raw = map_option response_scan_code (scan_document 2 32 raw)"

section \<open>Fields\<close>

definition field :: "(string \<times> json) list \<Rightarrow> string \<Rightarrow> json option" where
  "field value name = map_of (rev value) name"

definition as_string :: "json option \<Rightarrow> string option" where
  "as_string v = (case v of Some (JString s) \<Rightarrow> Some s | _ \<Rightarrow> None)"

definition objectShape :: "(string \<times> json) list \<Rightarrow> string list \<Rightarrow> bool" where
  "objectShape value required \<longleftrightarrow>
     length (remdups (map fst value)) = length required \<and> list_all (\<lambda>name. field value name \<noteq> None) required"

text \<open>
  \<^verbatim>\<open>big.Rat.SetString\<close> on the text of a JSON number, restricted to integers of 64 bits; an exponent
  beyond a million is refused.
\<close>

definition number_int64 :: "number_text \<Rightarrow> int option" where
  "number_int64 nt =
     (let m = int (read_base 10 (num_int nt @ num_frac nt));
          e = (if num_exp_neg nt then - int (read_base 10 (num_exp nt)) else int (read_base 10 (num_exp nt)))
              - int (length (num_frac nt));
          v = (if m = 0 then Some 0
               else if 1000000 < abs e then None
               else if 0 \<le> e then Some (m * 10 ^ nat e)
               else if 10 ^ nat (- e) dvd m then Some (m div 10 ^ nat (- e))
               else None)
      in case v of
           None \<Rightarrow> None
         | Some x \<Rightarrow>
             (let y = (if num_neg nt then - x else x) in if - (2 ^ 63) \<le> y \<and> y < 2 ^ 63 then Some y else None))"

definition positiveInt64 :: "json option \<Rightarrow> int option" where
  "positiveInt64 value =
     (case value of
        Some (JNumber t) \<Rightarrow>
          (case lex_number t of
             Some (nt, []) \<Rightarrow>
               (case number_int64 nt of None \<Rightarrow> None | Some n \<Rightarrow> if 0 < n then Some n else None)
           | _ \<Rightarrow> None)
      | _ \<Rightarrow> None)"

text \<open>The result is the integer with its presence; the outer option is the validity.\<close>

definition nullablePositiveInt64 :: "json option \<Rightarrow> (int \<times> bool) option" where
  "nullablePositiveInt64 value =
     (case value of
        None \<Rightarrow> Some (0, False)
      | Some JNull \<Rightarrow> Some (0, False)
      | Some v \<Rightarrow> map_option (\<lambda>n. (n, True)) (positiveInt64 (Some v)))"

definition singleOperation :: "json option \<Rightarrow> (string \<times> json) list option" where
  "singleOperation value = (case value of Some (JArray [JObject fs]) \<Rightarrow> Some fs | _ \<Rightarrow> None)"

definition prefix_char :: "char \<Rightarrow> bool" where
  "prefix_char c \<longleftrightarrow>
     (let n = of_char c :: nat in
      (48 \<le> n \<and> n \<le> 57) \<or> (65 \<le> n \<and> n \<le> 70) \<or> (97 \<le> n \<and> n \<le> 102) \<or> c = CHR '':'' \<or> c = CHR ''.'')"

text \<open>The last slash separates the address from one to three digits.\<close>

definition schemaPrefixString :: "json option \<Rightarrow> string option" where
  "schemaPrefixString value =
     (case as_string value of
        None \<Rightarrow> None
      | Some t \<Rightarrow>
          (let bits = rev (takeWhile (\<lambda>c. c \<noteq> CHR ''/'') (rev t));
               slash = length t - length bits - 1
           in if length t < 3 \<or> 64 < length t then None
              else if CHR ''/'' \<notin> set t \<or> slash < 1 \<or> bits = [] \<or> 3 < length bits then None
              else if \<not> list_all is_dec bits \<or> \<not> list_all prefix_char (take slash t) then None
              else Some t))"

fun schema_strings :: "string list \<Rightarrow> json list \<Rightarrow> string list option" where
  "schema_strings seen [] = Some []"
| "schema_strings seen (item # items) =
     (case schemaPrefixString (Some item) of
        None \<Rightarrow> None
      | Some t \<Rightarrow> if t \<in> set seen then None else map_option (Cons t) (schema_strings (t # seen) items))"

definition schemaPrefixStrings :: "json option \<Rightarrow> nat \<Rightarrow> nat \<Rightarrow> string list option" where
  "schemaPrefixStrings value minimum maximum =
     (case value of
        Some (JArray items) \<Rightarrow>
          if length items < minimum \<or> maximum < length items then None else schema_strings [] items
      | _ \<Rightarrow> None)"

fun schema_scopes :: "string list \<Rightarrow> json list \<Rightarrow> string list option" where
  "schema_scopes seen [] = Some []"
| "schema_scopes seen (item # items) =
     (case as_string (Some item) of
        None \<Rightarrow> None
      | Some s \<Rightarrow>
          if s \<noteq> WireScopeInput \<and> s \<noteq> WireScopeForward then None
          else if s \<in> set seen then None
          else map_option (Cons s) (schema_scopes (s # seen) items))"

definition schemaScopes :: "json option \<Rightarrow> string list option" where
  "schemaScopes value =
     (case value of
        Some (JArray items) \<Rightarrow> if length items < 1 \<or> 2 < length items then None else schema_scopes [] items
      | _ \<Rightarrow> None)"

fun canonical_prefixes :: "string list \<Rightarrow> ErrorCode + Prefix list" where
  "canonical_prefixes [] = Inr []"
| "canonical_prefixes (value # rest) =
     bind_result (canonicalPrefix value) (\<lambda>p. bind_result (canonical_prefixes rest) (\<lambda>ps. Inr (p # ps)))"

definition canonicalPrefixList :: "string list \<Rightarrow> ErrorCode + Prefix list" where
  "canonicalPrefixList values =
     (if \<not> sorted values then Inl ErrorCodeNoncanonicalOrder else canonical_prefixes values)"

section \<open>Decoding requests\<close>

definition decodePlanBase :: "(string \<times> json) list \<Rightarrow> string \<Rightarrow> planBase option" where
  "decodePlanBase payload revisionField =
     (case (as_string (field payload ''owner_version''), as_string (field payload ''basis_snapshot_digest''),
            positiveInt64 (field payload revisionField)) of
        (Some owner, Some digest, Some revision) \<Rightarrow>
          if owner \<noteq> ownerVersionV1 \<or> \<not> validDigest digest then None
          else Some \<lparr> plb_ownerVersion = owner, plb_basisSnapshotDigest = digest, plb_revision = revision \<rparr>
      | _ \<Rightarrow> None)"

definition decodeInfrastructurePlan :: "(string \<times> json) list \<Rightarrow> ErrorCode + ManagedPlan" where
  "decodeInfrastructurePlan payload =
     (if \<not> objectShape payload [''domain'', ''owner_version'', ''basis_snapshot_digest'', ''infrastructure_revision'', ''operations'']
      then Inl ErrorCodeSchemaRejected
      else case decodePlanBase payload ''infrastructure_revision'' of
        None \<Rightarrow> Inl ErrorCodeSchemaRejected
      | Some base \<Rightarrow>
     (case singleOperation (field payload ''operations'') of
        None \<Rightarrow> Inl ErrorCodeSchemaRejected
      | Some operation \<Rightarrow>
          if \<not> objectShape operation [''kind'', ''schema_version''] then Inl ErrorCodeSchemaRejected
          else if as_string (field operation ''kind'') \<noteq> Some ''ensure_infrastructure''
                  \<or> positiveInt64 (field operation ''schema_version'') \<noteq> Some 1
          then Inl ErrorCodeSchemaRejected
          else Inr (infrastructurePlan base 1)))"

definition decodePolicyPlan :: "(string \<times> json) list \<Rightarrow> ErrorCode + ManagedPlan" where
  "decodePolicyPlan payload =
     (if \<not> objectShape payload [''domain'', ''owner_version'', ''basis_snapshot_digest'', ''policy_revision'', ''operations'']
      then Inl ErrorCodeSchemaRejected
      else case decodePlanBase payload ''policy_revision'' of
        None \<Rightarrow> Inl ErrorCodeSchemaRejected
      | Some base \<Rightarrow>
     (case singleOperation (field payload ''operations'') of
        None \<Rightarrow> Inl ErrorCodeSchemaRejected
      | Some operation \<Rightarrow>
          if \<not> objectShape operation [''kind'', ''allowlist'', ''protected_targets''] then Inl ErrorCodeSchemaRejected
          else if as_string (field operation ''kind'') \<noteq> Some ''replace_policy'' then Inl ErrorCodeSchemaRejected
          else (case (schemaPrefixStrings (field operation ''allowlist'') 0 maxPlanPrefixes,
                      schemaPrefixStrings (field operation ''protected_targets'') 2 maxPlanPrefixes) of
             (Some allowlist, Some protected) \<Rightarrow>
               if maxPlanPrefixes < length allowlist + length protected then Inl ErrorCodePrefixLimit
               else bind_result (canonicalPrefixList allowlist) (\<lambda>parsedAllowlist.
                    bind_result (canonicalPrefixList protected) (\<lambda>parsedProtected.
                    if ''127.0.0.0/8'' \<notin> set protected \<or> ''::1/128'' \<notin> set protected
                    then Inl ErrorCodeProtectedPolicyMissing
                    else Inr (policyPlan base parsedAllowlist parsedProtected)))
           | _ \<Rightarrow> Inl ErrorCodeSchemaRejected)))"

definition decodeTargetPlan :: "(string \<times> json) list \<Rightarrow> ErrorCode + ManagedPlan" where
  "decodeTargetPlan payload =
     (if \<not> objectShape payload [''domain'', ''owner_version'', ''basis_snapshot_digest'', ''target_generation'', ''operations'']
      then Inl ErrorCodeSchemaRejected
      else case decodePlanBase payload ''target_generation'' of
        None \<Rightarrow> Inl ErrorCodeSchemaRejected
      | Some base \<Rightarrow>
     (case singleOperation (field payload ''operations'') of
        None \<Rightarrow> Inl ErrorCodeSchemaRejected
      | Some operation \<Rightarrow>
          if \<not> objectShape operation [''kind'', ''target'', ''membership'', ''timeout_mode'', ''effective_until_unix_us'', ''scopes'']
          then Inl ErrorCodeSchemaRejected
          else if as_string (field operation ''kind'') \<noteq> Some ''set_target'' then Inl ErrorCodeSchemaRejected
          else (case (schemaPrefixString (field operation ''target''), as_string (field operation ''membership''),
                      as_string (field operation ''timeout_mode''),
                      nullablePositiveInt64 (field operation ''effective_until_unix_us''),
                      schemaScopes (field operation ''scopes'')) of
             (Some targetText, Some membership, Some timeoutMode, Some (expiry, hasExpiry), Some scopes) \<Rightarrow>
               if membership \<noteq> MembershipPresent \<and> membership \<noteq> MembershipAbsent then Inl ErrorCodeSchemaRejected
               else if timeoutMode \<noteq> TimeoutModeNone \<and> timeoutMode \<noteq> TimeoutModeNative then Inl ErrorCodeSchemaRejected
               else bind_result (canonicalPrefix targetText) (\<lambda>target.
                 if list_ex (Overlaps target) [loopback4, loopback6] then Inl ErrorCodeProtectedTarget
                 else if length scopes = 2 \<and> (scopes ! 0 \<noteq> WireScopeInput \<or> scopes ! 1 \<noteq> WireScopeForward)
                 then Inl ErrorCodeInvalidScope
                 else if membership = MembershipAbsent \<and> (timeoutMode \<noteq> TimeoutModeNone \<or> hasExpiry)
                 then Inl ErrorCodeInvalidTimeout
                 else if timeoutMode = TimeoutModeNative \<and> \<not> hasExpiry then Inl ErrorCodeInvalidTimeout
                 else if timeoutMode = TimeoutModeNone \<and> hasExpiry then Inl ErrorCodeInvalidTimeout
                 else Inr (targetPlan base target membership timeoutMode expiry hasExpiry scopes))
           | _ \<Rightarrow> Inl ErrorCodeSchemaRejected)))"

definition decodeManagedPlan :: "(string \<times> json) list \<Rightarrow> ErrorCode + ManagedPlan" where
  "decodeManagedPlan payload =
     (case as_string (field payload ''domain'') of
        None \<Rightarrow> Inl ErrorCodeSchemaRejected
      | Some d \<Rightarrow>
          if d = DomainInfrastructure then decodeInfrastructurePlan payload
          else if d = DomainPolicy then decodePolicyPlan payload
          else if d = DomainTarget then decodeTargetPlan payload
          else Inl ErrorCodeSchemaRejected)"

definition decodeRequestObject :: "(string \<times> json) list \<Rightarrow> ErrorCode + Request" where
  "decodeRequestObject root =
     (if \<not> objectShape root [''version'', ''operation'', ''payload''] then Inl ErrorCodeSchemaRejected
      else if positiveInt64 (field root ''version'') \<noteq> Some 1 then Inl ErrorCodeSchemaRejected
      else case (as_string (field root ''operation''), field root ''payload'') of
        (Some operation, Some (JObject payload)) \<Rightarrow>
          if operation = OperationProbeCapabilities
          then (if payload \<noteq> [] then Inl ErrorCodeSchemaRejected else Inr probeCapabilitiesRequest)
          else if operation = OperationSnapshotManaged
          then (if payload \<noteq> [] then Inl ErrorCodeSchemaRejected else Inr snapshotManagedRequest)
          else if operation = OperationApplyManagedPlan
          then bind_result (decodeManagedPlan payload) (\<lambda>plan. Inr (applyManagedPlanRequest plan))
          else if operation = OperationRemoveManagedInfrastructure
          then (if \<not> objectShape payload [''expected_owner_version''] then Inl ErrorCodeSchemaRejected
                else case as_string (field payload ''expected_owner_version'') of
                  None \<Rightarrow> Inl ErrorCodeSchemaRejected
                | Some owner \<Rightarrow> if owner \<noteq> ownerVersionV1 then Inl ErrorCodeSchemaRejected
                                else Inr (removeManagedInfrastructureRequest owner))
          else Inl ErrorCodeSchemaRejected
      | _ \<Rightarrow> Inl ErrorCodeSchemaRejected)"

definition DecodeRequest :: "string \<Rightarrow> ErrorCode + Request" where
  "DecodeRequest raw =
     (if 65536 < length raw then Inl ErrorCodeRequestTooLarge
      else if \<not> ValidString raw then Inl ErrorCodeInvalidUTF8
      else case scanJSON raw of
        Some code \<Rightarrow> Inl code
      | None \<Rightarrow>
          (case Decode raw of
             None \<Rightarrow> Inl ErrorCodeInvalidJSON
           | Some (JObject root, _) \<Rightarrow> decodeRequestObject root
           | Some _ \<Rightarrow> Inl ErrorCodeSchemaRejected))"

section \<open>Encoding requests\<close>

definition wire_int :: "int \<Rightarrow> json" where
  "wire_int n = JNumber (Itoa (nat n))"

definition request_wire :: "string \<Rightarrow> json \<Rightarrow> json" where
  "request_wire operation payload =
     JObject [(''version'', wire_int 1), (''operation'', JString operation), (''payload'', payload)]"

definition prefixStrings :: "Prefix list \<Rightarrow> string list" where
  "prefixStrings values = map Prefix_String values"

definition plan_fields :: "string \<Rightarrow> string \<Rightarrow> planBase \<Rightarrow> (string \<times> json) list \<Rightarrow> (string \<times> json) list" where
  "plan_fields domain revisionField base operation =
     [(''domain'', JString domain), (''owner_version'', JString (plb_ownerVersion base)),
      (''basis_snapshot_digest'', JString (plb_basisSnapshotDigest base)),
      (revisionField, wire_int (plb_revision base)), (''operations'', JArray [JObject operation])]"

text \<open>The payload of a plan the constructors accepted.\<close>

fun validated_wire :: "ManagedPlan \<Rightarrow> (string \<times> json) list" where
  "validated_wire (infrastructurePlan base schemaVersion) =
     plan_fields DomainInfrastructure ''infrastructure_revision'' base
       [(''kind'', JString ''ensure_infrastructure''), (''schema_version'', wire_int schemaVersion)]"
| "validated_wire (policyPlan base allowlist protectedTargets) =
     plan_fields DomainPolicy ''policy_revision'' base
       [(''kind'', JString ''replace_policy''),
        (''allowlist'', JArray (map JString (prefixStrings allowlist))),
        (''protected_targets'', JArray (map JString (prefixStrings protectedTargets)))]"
| "validated_wire (targetPlan base target membership timeoutMode effectiveUntil hasEffectiveUntil scopes) =
     plan_fields DomainTarget ''target_generation'' base
       [(''kind'', JString ''set_target''), (''target'', JString (Prefix_String target)),
        (''membership'', JString membership), (''timeout_mode'', JString timeoutMode),
        (''effective_until_unix_us'', if hasEffectiveUntil then wire_int effectiveUntil else JNull),
        (''scopes'', JArray (map JString scopes))]"

text \<open>The plan is normalised by its own constructor before it is written.\<close>

fun normalized_plan :: "ManagedPlan \<Rightarrow> ErrorCode + Request" where
  "normalized_plan (infrastructurePlan base schemaVersion) =
     (if plb_ownerVersion base \<noteq> ownerVersionV1 \<or> schemaVersion \<noteq> 1 then Inl ErrorCodeSchemaRejected
      else NewApplyInfrastructureRequest (plb_basisSnapshotDigest base) (plb_revision base))"
| "normalized_plan (policyPlan base allowlist protectedTargets) =
     (if plb_ownerVersion base \<noteq> ownerVersionV1 then Inl ErrorCodeSchemaRejected
      else NewApplyPolicyRequest (plb_basisSnapshotDigest base) (plb_revision base) allowlist protectedTargets)"
| "normalized_plan (targetPlan base target membership timeoutMode effectiveUntil hasEffectiveUntil scopes) =
     (if plb_ownerVersion base \<noteq> ownerVersionV1 then Inl ErrorCodeSchemaRejected
      else NewApplyTargetRequest (plb_basisSnapshotDigest base) (plb_revision base) target membership
             timeoutMode effectiveUntil hasEffectiveUntil scopes)"

definition applyRequestToWire :: "ManagedPlan \<Rightarrow> ErrorCode + json" where
  "applyRequestToWire plan =
     bind_result (normalized_plan plan) (\<lambda>normalized.
     case normalized of
       applyManagedPlanRequest validated \<Rightarrow>
         Inr (request_wire OperationApplyManagedPlan (JObject (validated_wire validated)))
     | _ \<Rightarrow> Inl ErrorCodeSchemaRejected)"

definition mutationRequestToWire :: "Request \<Rightarrow> ErrorCode + json" where
  "mutationRequestToWire request =
     (case request of
        applyManagedPlanRequest plan \<Rightarrow> applyRequestToWire plan
      | removeManagedInfrastructureRequest expectedOwnerVersion \<Rightarrow>
          if expectedOwnerVersion \<noteq> ownerVersionV1 then Inl ErrorCodeSchemaRejected
          else Inr (request_wire OperationRemoveManagedInfrastructure
                      (JObject [(''expected_owner_version'', JString ownerVersionV1)]))
      | _ \<Rightarrow> Inl ErrorCodeSchemaRejected)"

fun is_mutation :: "Request \<Rightarrow> bool" where
  "is_mutation (applyManagedPlanRequest _) = True"
| "is_mutation (removeManagedInfrastructureRequest _) = True"
| "is_mutation _ = False"

definition EncodeMutationRequest :: "Request \<Rightarrow> ErrorCode + string" where
  "EncodeMutationRequest request =
     bind_result (mutationRequestToWire request) (\<lambda>wire.
     let raw = Marshal wire in
     bind_result (DecodeRequest raw) (\<lambda>decoded.
     if \<not> is_mutation decoded then Inl ErrorCodeSchemaRejected else Inr raw))"

definition encode_read_request :: "string \<Rightarrow> ErrorCode + string" where
  "encode_read_request operation =
     (let raw = Marshal (request_wire operation (JObject [])) in
      if 65536 < length raw then Inl ErrorCodeRequestTooLarge else Inr raw)"

definition EncodeProbeCapabilitiesRequest :: "Request \<Rightarrow> ErrorCode + string" where
  "EncodeProbeCapabilitiesRequest request =
     (if request \<noteq> probeCapabilitiesRequest then Inl ErrorCodeSchemaRejected
      else encode_read_request OperationProbeCapabilities)"

definition EncodeSnapshotManagedRequest :: "Request \<Rightarrow> ErrorCode + string" where
  "EncodeSnapshotManagedRequest request =
     (if request \<noteq> snapshotManagedRequest then Inl ErrorCodeSchemaRejected
      else encode_read_request OperationSnapshotManaged)"

section \<open>Responses\<close>

definition error_code_member :: "string option \<Rightarrow> (string \<times> json) list" where
  "error_code_member code = (case code of None \<Rightarrow> [] | Some c \<Rightarrow> [(''error_code'', JString c)])"

fun response_wire :: "MutationResponse \<Rightarrow> json" where
  "response_wire (applyManagedPlanResponse base domain) =
     JObject ([(''version'', wire_int 1), (''operation'', JString OperationApplyManagedPlan),
               (''status'', JString (mrb_status base)), (''domain'', JString domain)]
              @ error_code_member (mrb_errorCode base))"
| "response_wire (removeManagedInfrastructureResponse base) =
     JObject ([(''version'', wire_int 1), (''operation'', JString OperationRemoveManagedInfrastructure),
               (''status'', JString (mrb_status base))]
              @ error_code_member (mrb_errorCode base))"

fun response_encodable :: "MutationResponse \<Rightarrow> bool" where
  "response_encodable (applyManagedPlanResponse base domain) \<longleftrightarrow>
     validResponseDomain domain \<and> validApplyResponseState (mrb_status base) (mrb_errorCode base)"
| "response_encodable (removeManagedInfrastructureResponse base) \<longleftrightarrow>
     validRemoveResponseState (mrb_status base) (mrb_errorCode base)"

definition EncodeMutationResponse :: "MutationResponse \<Rightarrow> MutationResponseErrorCode + string" where
  "EncodeMutationResponse response =
     (if \<not> response_encodable response then Inl MutationResponseErrorCodeSchemaRejected
      else let raw = Marshal (response_wire response) in
           if 4096 < length raw then Inl MutationResponseErrorCodeResponseTooLarge else Inr raw)"

definition response_code :: "(string \<times> json) list \<Rightarrow> string \<Rightarrow> string list \<Rightarrow> string option option" where
  "response_code root status shape =
     (if status = StatusConfirmed then (if objectShape root shape then Some None else None)
      else if status = StatusRejected \<or> status = StatusUnknown
      then (if objectShape root (shape @ [''error_code''])
            then map_option Some (as_string (field root ''error_code'')) else None)
      else None)"

definition decodeApplyManagedPlanResponse :: "(string \<times> json) list \<Rightarrow> string \<Rightarrow> MutationResponse option" where
  "decodeApplyManagedPlanResponse root status =
     (case response_code root status [''version'', ''operation'', ''status'', ''domain''] of
        None \<Rightarrow> None
      | Some code \<Rightarrow>
          (case as_string (field root ''domain'') of
             None \<Rightarrow> None
           | Some domain \<Rightarrow>
               (case newApplyManagedPlanResponse domain status code of Inl _ \<Rightarrow> None | Inr response \<Rightarrow> Some response)))"

definition decodeRemoveManagedInfrastructureResponse :: "(string \<times> json) list \<Rightarrow> string \<Rightarrow> MutationResponse option" where
  "decodeRemoveManagedInfrastructureResponse root status =
     (case response_code root status [''version'', ''operation'', ''status''] of
        None \<Rightarrow> None
      | Some code \<Rightarrow>
          if \<not> validRemoveResponseState status code then None
          else Some (removeManagedInfrastructureResponse \<lparr> mrb_status = status, mrb_errorCode = code \<rparr>))"

definition decodeMutationResponseObject :: "(string \<times> json) list \<Rightarrow> MutationResponse option" where
  "decodeMutationResponseObject root =
     (if positiveInt64 (field root ''version'') \<noteq> Some 1 then None
      else case (as_string (field root ''operation''), as_string (field root ''status'')) of
        (Some operation, Some status) \<Rightarrow>
          if operation = OperationApplyManagedPlan then decodeApplyManagedPlanResponse root status
          else if operation = OperationRemoveManagedInfrastructure
          then decodeRemoveManagedInfrastructureResponse root status
          else None
      | _ \<Rightarrow> None)"

definition DecodeMutationResponse :: "string \<Rightarrow> MutationResponseErrorCode + MutationResponse" where
  "DecodeMutationResponse raw =
     (if 4096 < length raw then Inl MutationResponseErrorCodeResponseTooLarge
      else if \<not> ValidString raw then Inl MutationResponseErrorCodeInvalidUTF8
      else case scanMutationResponseJSON raw of
        Some code \<Rightarrow> Inl code
      | None \<Rightarrow>
          (case Decode raw of
             None \<Rightarrow> Inl MutationResponseErrorCodeInvalidJSON
           | Some (JObject root, _) \<Rightarrow>
               (case decodeMutationResponseObject root of
                  None \<Rightarrow> Inl MutationResponseErrorCodeSchemaRejected
                | Some response \<Rightarrow> Inr response)
           | Some _ \<Rightarrow> Inl MutationResponseErrorCodeSchemaRejected))"

end
