(* ===== verification/Ipc_Roundtrip.thy ===== *)
theory Ipc_Roundtrip
  imports Ipc_Codec
begin

text \<open>
  Correctness of the IPC codecs: the fields the decoders read back are the fields the encoders wrote,
  so that decoding an encoded request or response yields it again.
\<close>

section \<open>Fields\<close>

lemma as_string_String [simp]: "as_string (Some (JString s)) = Some s"
  by (simp add: as_string_def)

lemma as_string_SomeD: "as_string v = Some s \<Longrightarrow> v = Some (JString s)"
  by (auto simp: as_string_def split: option.splits json.splits)

lemma schemaPrefixString_SomeD: "schemaPrefixString v = Some t \<Longrightarrow> v = Some (JString t)"
  by (auto simp: schemaPrefixString_def Let_def split: option.splits if_splits dest: as_string_SomeD)

lemma positiveInt64_wire_int:
  assumes "0 < n"
  shows "positiveInt64 (Some (wire_int n)) = (if n < 2 ^ 63 then Some n else None)"
proof -
  have "lex_number (Itoa (nat n)) =
      Some (\<lparr> num_neg = False, num_int = Itoa (nat n), num_frac = [], num_exp_neg = False, num_exp = [] \<rparr>, [])"
    using lex_number_Itoa [of "[]" "nat n"] by (simp add: delimited_def)
  moreover have "read_base 10 [] = 0" by (simp add: read_base_def)
  ultimately show ?thesis using assms
    by (simp add: positiveInt64_def wire_int_def number_int64_def read_Itoa)
qed

lemma positiveInt64_wire_intD: "positiveInt64 (Some (wire_int n)) = Some m \<Longrightarrow> 0 < n \<Longrightarrow> m = n"
  by (simp add: positiveInt64_wire_int split: if_splits)

lemma plain_wire_int [simp]: "plain_json (wire_int n)"
  by (simp add: wire_int_def)

lemma schema_strings_JString: "schema_strings seen (map JString xs) = Some ts \<Longrightarrow> ts = xs"
  by (induction xs arbitrary: seen ts)
    (auto split: option.splits if_splits dest: schemaPrefixString_SomeD)

lemma schemaPrefixStrings_JString: "schemaPrefixStrings (Some (JArray (map JString xs))) a b = Some ts \<Longrightarrow> ts = xs"
  by (auto simp: schemaPrefixStrings_def schema_strings_JString split: if_splits)

lemma schema_scopes_JString: "schema_scopes seen (map JString xs) = Some ts \<Longrightarrow> ts = xs"
  by (induction xs arbitrary: seen ts) (auto split: option.splits if_splits)

lemma schemaScopes_JString: "schemaScopes (Some (JArray (map JString xs))) = Some ts \<Longrightarrow> ts = xs"
  by (auto simp: schemaScopes_def schema_scopes_JString split: if_splits)

lemma parse_invalid: "\<not> Prefix_IsValid (parse_prefix ''invalid Prefix'')"
  by (simp add: parse_prefix_def Prefix_IsValid_def zero_prefix_def go_defs)

lemma canonicalPrefix_String: "canonicalPrefix (Prefix_String q) = Inr p \<Longrightarrow> p = q"
proof (cases "Prefix_IsValid q")
  case True
  assume "canonicalPrefix (Prefix_String q) = Inr p"
  then show ?thesis using parse_prefix_String [OF True] by (simp add: canonicalPrefix_def Let_def split: if_splits)
next
  case False
  assume "canonicalPrefix (Prefix_String q) = Inr p"
  then show ?thesis using False parse_invalid
    by (simp add: canonicalPrefix_def Let_def Prefix_String_def split: if_splits)
qed

lemma canonical_prefixes_String: "canonical_prefixes (map Prefix_String qs) = Inr ps \<Longrightarrow> ps = qs"
  by (induction qs arbitrary: ps) (auto dest: canonicalPrefix_String)

lemma canonicalPrefixList_String: "canonicalPrefixList (map Prefix_String qs) = Inr ps \<Longrightarrow> ps = qs"
  by (auto simp: canonicalPrefixList_def canonical_prefixes_String split: if_splits)

lemma validatedPrefixList_from_id: "validatedPrefixList_from seen prev i qs = Inr ps \<Longrightarrow> ps = qs"
  by (induction qs arbitrary: seen prev i ps)
    (auto simp: Let_def split: sum.splits if_splits dest: canonicalPrefix_String)

lemma validatedPrefixList_id: "validatedPrefixList qs = Inr ps \<Longrightarrow> ps = qs"
  by (simp add: validatedPrefixList_def validatedPrefixList_from_id)

lemma validatedScopeList_id: "validatedScopeList ss = Inr ts \<Longrightarrow> ts = ss"
  by (auto simp: validatedScopeList_def split: if_splits)

section \<open>Plans\<close>

lemma newPlanBase_id:
  "newPlanBase (plb_basisSnapshotDigest b) (plb_revision b) = Inr b' \<Longrightarrow> plb_ownerVersion b = ownerVersionV1
    \<Longrightarrow> b' = b \<and> 0 < plb_revision b"
  by (auto simp: newPlanBase_def split: if_splits)

text \<open>A plan its constructor accepts is the plan itself, with a positive revision.\<close>

lemma normalized_plan_id:
  assumes "normalized_plan plan = Inr request"
  shows "request = applyManagedPlanRequest plan \<and> 0 < plb_revision (plan_base plan)"
proof (cases plan)
  case (infrastructurePlan b v)
  then show ?thesis using assms
    by (auto simp: NewApplyInfrastructureRequest_def split: if_splits dest!: newPlanBase_id)
next
  case (policyPlan b a p)
  then show ?thesis using assms
    by (auto simp: NewApplyPolicyRequest_def split: if_splits dest!: newPlanBase_id validatedPrefixList_id)
next
  case (targetPlan b t m tm e h sc)
  then show ?thesis using assms
    by (auto simp: NewApplyTargetRequest_def split: if_splits
        dest!: newPlanBase_id canonicalPrefix_String validatedScopeList_id)
qed

lemma decodePlanBase_wire:
  assumes "decodePlanBase (plan_fields d f b ops) f = Some b'" and "f \<notin> {''domain'', ''owner_version'', ''basis_snapshot_digest'', ''operations''}"
    and "0 < plb_revision b"
  shows "b' = b"
  using assms by (auto simp: decodePlanBase_def plan_fields_def field_def split: option.splits if_splits dest!: positiveInt64_wire_intD)

lemma singleOperation_wire:
  "f \<noteq> ''operations'' \<Longrightarrow> singleOperation (field (plan_fields d f b ops) ''operations'') = Some ops"
  by (simp add: plan_fields_def field_def singleOperation_def)

lemma decodeInfrastructurePlan_wire:
  assumes "decodeInfrastructurePlan (validated_wire (infrastructurePlan b v)) = Inr plan"
    and "0 < plb_revision b" and "v = 1"
  shows "plan = infrastructurePlan b v"
proof -
  have "decodePlanBase (validated_wire (infrastructurePlan b v)) ''infrastructure_revision'' = Some b' \<Longrightarrow> b' = b" for b'
    using decodePlanBase_wire [OF _ _ assms(2), of DomainInfrastructure "''infrastructure_revision''"] by simp
  then show ?thesis using assms(1,3)
    by (auto simp: decodeInfrastructurePlan_def singleOperation_wire split: option.splits if_splits)
qed

lemma decodePolicyPlan_InrD:
  assumes "decodePolicyPlan payload = Inr plan"
  obtains base operation al pr A P where "decodePlanBase payload ''policy_revision'' = Some base"
    and "singleOperation (field payload ''operations'') = Some operation"
    and "schemaPrefixStrings (field operation ''allowlist'') 0 maxPlanPrefixes = Some al"
    and "schemaPrefixStrings (field operation ''protected_targets'') 2 maxPlanPrefixes = Some pr"
    and "canonicalPrefixList al = Inr A" and "canonicalPrefixList pr = Inr P" and "plan = policyPlan base A P"
  using assms by (simp add: decodePolicyPlan_def split: option.splits if_splits)

lemma decodePolicyPlan_wire:
  assumes "decodePolicyPlan (validated_wire (policyPlan b a p)) = Inr plan" and "0 < plb_revision b"
  shows "plan = policyPlan b a p"
  using assms(1)
proof (rule decodePolicyPlan_InrD)
  fix base operation al pr A P
  let ?ops = "[(''kind'', JString ''replace_policy''),
        (''allowlist'', JArray (map JString (prefixStrings a))),
        (''protected_targets'', JArray (map JString (prefixStrings p)))]"
  assume d: "decodePlanBase (validated_wire (policyPlan b a p)) ''policy_revision'' = Some base"
    "singleOperation (field (validated_wire (policyPlan b a p)) ''operations'') = Some operation"
    "schemaPrefixStrings (field operation ''allowlist'') 0 maxPlanPrefixes = Some al"
    "schemaPrefixStrings (field operation ''protected_targets'') 2 maxPlanPrefixes = Some pr"
    "canonicalPrefixList al = Inr A" "canonicalPrefixList pr = Inr P" "plan = policyPlan base A P"
  have "base = b"
    using d(1) decodePlanBase_wire [OF _ _ assms(2), of DomainPolicy "''policy_revision''" ?ops base] by simp
  moreover have op: "operation = ?ops" using d(2) singleOperation_wire [of "''policy_revision''" DomainPolicy b ?ops] by simp
  have "al = prefixStrings a" using d(3) unfolding op by (intro schemaPrefixStrings_JString) (simp add: field_def)
  moreover have "pr = prefixStrings p" using d(4) unfolding op by (intro schemaPrefixStrings_JString) (simp add: field_def)
  ultimately show ?thesis using d(5-7) canonicalPrefixList_String [of a A] canonicalPrefixList_String [of p P]
    by (simp add: prefixStrings_def)
qed

lemma decodeTargetPlan_InrD:
  assumes "decodeTargetPlan payload = Inr plan"
  obtains base operation t m tm e h sc p where "decodePlanBase payload ''target_generation'' = Some base"
    and "singleOperation (field payload ''operations'') = Some operation"
    and "schemaPrefixString (field operation ''target'') = Some t"
    and "as_string (field operation ''membership'') = Some m"
    and "as_string (field operation ''timeout_mode'') = Some tm"
    and "nullablePositiveInt64 (field operation ''effective_until_unix_us'') = Some (e, h)"
    and "schemaScopes (field operation ''scopes'') = Some sc"
    and "canonicalPrefix t = Inr p" and "plan = targetPlan base p m tm e h sc"
  using assms by (simp add: decodeTargetPlan_def split: option.splits if_splits prod.splits) blast+

lemma nullable_expiry:
  assumes "nullablePositiveInt64 (Some (if h then wire_int e else JNull)) = Some x" and "if h then 0 < e else e = 0"
  shows "x = (e, h)"
proof (cases h)
  case True
  then have "map_option (\<lambda>n. (n, True)) (positiveInt64 (Some (wire_int e))) = Some x"
    using assms(1) by (simp add: nullablePositiveInt64_def wire_int_def)
  then show ?thesis using assms(2) True by (auto dest!: positiveInt64_wire_intD)
next
  case False
  then show ?thesis using assms by (auto simp: nullablePositiveInt64_def)
qed

lemma decodeTargetPlan_wire:
  assumes "decodeTargetPlan (validated_wire (targetPlan b t m tm e h sc)) = Inr plan" and "0 < plb_revision b"
    and "if h then 0 < e else e = 0"
  shows "plan = targetPlan b t m tm e h sc"
  using assms(1)
proof (rule decodeTargetPlan_InrD)
  fix base operation t' m' tm' e' h' sc' p
  let ?ops = "[(''kind'', JString ''set_target''), (''target'', JString (Prefix_String t)),
        (''membership'', JString m), (''timeout_mode'', JString tm),
        (''effective_until_unix_us'', if h then wire_int e else JNull), (''scopes'', JArray (map JString sc))]"
  assume d: "decodePlanBase (validated_wire (targetPlan b t m tm e h sc)) ''target_generation'' = Some base"
    "singleOperation (field (validated_wire (targetPlan b t m tm e h sc)) ''operations'') = Some operation"
    "schemaPrefixString (field operation ''target'') = Some t'"
    "as_string (field operation ''membership'') = Some m'"
    "as_string (field operation ''timeout_mode'') = Some tm'"
    "nullablePositiveInt64 (field operation ''effective_until_unix_us'') = Some (e', h')"
    "schemaScopes (field operation ''scopes'') = Some sc'"
    "canonicalPrefix t' = Inr p" "plan = targetPlan base p m' tm' e' h' sc'"
  have "base = b"
    using d(1) decodePlanBase_wire [OF _ _ assms(2), of DomainTarget "''target_generation''" ?ops base] by simp
  moreover have op: "operation = ?ops"
    using d(2) singleOperation_wire [of "''target_generation''" DomainTarget b ?ops] by simp
  have "t' = Prefix_String t"
    using schemaPrefixString_SomeD [OF d(3)] unfolding op by (simp add: field_def)
  moreover have "m' = m" "tm' = tm" using d(4,5) unfolding op by (simp_all add: field_def)
  moreover have "(e', h') = (e, h)"
    using d(6) assms(3) unfolding op by (intro nullable_expiry) (simp_all add: field_def)
  moreover have "sc' = sc" using d(7) unfolding op by (intro schemaScopes_JString) (simp add: field_def)
  ultimately show ?thesis using d(8,9) canonicalPrefix_String [of t p] by simp
qed

lemma wire_domain:
  "as_string (field (validated_wire plan) ''domain'') = Some (plan_domain plan)"
  by (cases plan) (simp_all add: plan_fields_def field_def)

lemma decodeManagedPlan_wire:
  assumes "decodeManagedPlan (validated_wire plan) = Inr plan'" and "normalized_plan plan = Inr request"
  shows "plan' = plan"
proof (cases plan)
  case (infrastructurePlan b v)
  have "decodeInfrastructurePlan (validated_wire plan) = Inr plan'" "0 < plb_revision b" "v = 1"
    using assms normalized_plan_id [OF assms(2)] infrastructurePlan
    by (auto simp: decodeManagedPlan_def wire_domain split: if_splits simp del: validated_wire.simps)
  then show ?thesis using decodeInfrastructurePlan_wire infrastructurePlan by blast
next
  case (policyPlan b a p)
  have "decodePolicyPlan (validated_wire plan) = Inr plan'" "0 < plb_revision b"
    using assms normalized_plan_id [OF assms(2)] policyPlan
    by (auto simp: decodeManagedPlan_def wire_domain wire_names simp del: validated_wire.simps)
  then show ?thesis using decodePolicyPlan_wire policyPlan by blast
next
  case (targetPlan b t m tm e h sc)
  have "decodeTargetPlan (validated_wire plan) = Inr plan'" "0 < plb_revision b"
    using assms normalized_plan_id [OF assms(2)] targetPlan
    by (auto simp: decodeManagedPlan_def wire_domain wire_names simp del: validated_wire.simps)
  moreover have "if h then 0 < e else e = 0"
    using assms(2) targetPlan by (auto simp: NewApplyTargetRequest_def split: if_splits)
  ultimately show ?thesis using decodeTargetPlan_wire targetPlan by blast
qed

section \<open>Requests\<close>

definition wire_fields :: "string \<Rightarrow> json \<Rightarrow> (string \<times> json) list" where
  "wire_fields operation payload =
     [(''version'', wire_int 1), (''operation'', JString operation), (''payload'', payload)]"

lemma wire_fields_at:
  "field (wire_fields op pl) ''version'' = Some (wire_int 1)"
  "field (wire_fields op pl) ''operation'' = Some (JString op)"
  "field (wire_fields op pl) ''payload'' = Some pl"
  by (simp_all add: wire_fields_def field_def)

lemma wire_fields_shape: "objectShape (wire_fields op pl) [''version'', ''operation'', ''payload'']"
  by (simp add: objectShape_def wire_fields_at) (simp add: wire_fields_def)

lemma positive_one: "positiveInt64 (Some (wire_int 1)) = Some 1"
  by (simp add: positiveInt64_wire_int)

lemma decode_apply:
  "decodeRequestObject (wire_fields OperationApplyManagedPlan (JObject pl)) =
     bind_result (decodeManagedPlan pl) (\<lambda>plan. Inr (applyManagedPlanRequest plan))"
  by (simp add: decodeRequestObject_def wire_fields_shape wire_fields_at positive_one wire_names)

lemma decode_remove:
  "decodeRequestObject (wire_fields OperationRemoveManagedInfrastructure
      (JObject [(''expected_owner_version'', JString ownerVersionV1)])) =
     Inr (removeManagedInfrastructureRequest ownerVersionV1)"
  by (simp add: decodeRequestObject_def wire_fields_shape wire_fields_at positive_one)
    (simp add: wire_names objectShape_def field_def)

lemma decode_reads:
  "decodeRequestObject (wire_fields OperationProbeCapabilities (JObject [])) = Inr probeCapabilitiesRequest"
  "decodeRequestObject (wire_fields OperationSnapshotManaged (JObject [])) = Inr snapshotManagedRequest"
  by (simp_all add: decodeRequestObject_def wire_fields_shape wire_fields_at positive_one wire_names)

lemma plain_plan: "list_all (\<lambda>(k, v). plain_json v) (validated_wire plan)"
  by (cases plan) (simp_all add: plan_fields_def list_all_iff)

lemma mutationRequestToWire_cases:
  assumes "mutationRequestToWire request = Inr wire"
  shows "\<exists>op pl. wire = JObject (wire_fields op pl) \<and> plain_json wire
    \<and> (\<forall>d. decodeRequestObject (wire_fields op pl) = Inr d \<longrightarrow> d = request)"
proof (cases request)
  case (applyManagedPlanRequest plan)
  then obtain n where n: "normalized_plan plan = Inr n"
    using assms by (auto simp: mutationRequestToWire_def applyRequestToWire_def)
  then have "wire = request_wire OperationApplyManagedPlan (JObject (validated_wire plan))"
    using assms applyManagedPlanRequest normalized_plan_id [OF n]
    by (simp add: mutationRequestToWire_def applyRequestToWire_def)
  then have "wire = JObject (wire_fields OperationApplyManagedPlan (JObject (validated_wire plan)))" "plain_json wire"
    using plain_plan [of plan] by (simp_all add: request_wire_def wire_fields_def)
  moreover have "decodeRequestObject (wire_fields OperationApplyManagedPlan (JObject (validated_wire plan))) = Inr d
      \<Longrightarrow> d = request" for d
    using decode_apply [of "validated_wire plan"] decodeManagedPlan_wire [OF _ n] applyManagedPlanRequest by auto
  ultimately show ?thesis by blast
next
  case (removeManagedInfrastructureRequest owner)
  then have "wire = JObject (wire_fields OperationRemoveManagedInfrastructure
      (JObject [(''expected_owner_version'', JString ownerVersionV1)]))" "owner = ownerVersionV1"
    using assms by (auto simp: mutationRequestToWire_def request_wire_def wire_fields_def split: if_splits)
  then show ?thesis using decode_remove removeManagedInfrastructureRequest by (auto simp: wire_fields_def)
qed (use assms in \<open>simp_all add: mutationRequestToWire_def\<close>)

lemma DecodeRequest_Marshal:
  assumes "plain_json (JObject root)" and "DecodeRequest (Marshal (JObject root)) = Inr d"
  shows "decodeRequestObject root = Inr d"
  using assms(2) Decode_Marshal [OF assms(1)]
  by (simp add: DecodeRequest_def del: Marshal.simps split: if_splits option.splits)

lemma EncodeMutationRequest_decodes:
  assumes "EncodeMutationRequest request = Inr raw"
  shows "DecodeRequest raw = Inr request \<and> length raw \<le> 65536"
proof -
  obtain wire d where w: "mutationRequestToWire request = Inr wire" "raw = Marshal wire" "DecodeRequest raw = Inr d"
    using assms by (auto simp: EncodeMutationRequest_def Let_def split: if_splits)
  then obtain op pl where wire: "wire = JObject (wire_fields op pl)" "plain_json wire"
    "\<forall>d. decodeRequestObject (wire_fields op pl) = Inr d \<longrightarrow> d = request"
    using mutationRequestToWire_cases by blast
  have "d = request" using DecodeRequest_Marshal [of "wire_fields op pl" d] wire w by blast
  moreover have "length raw \<le> 65536" using w(3) by (simp add: DecodeRequest_def split: if_splits)
  ultimately show ?thesis using w(3) by simp
qed

section \<open>Responses\<close>

definition ascii :: "string \<Rightarrow> bool" where
  "ascii s \<longleftrightarrow> (\<forall>c\<in>set s. of_char c < (128 :: nat))"

fun ascii_json :: "json \<Rightarrow> bool" where
  "ascii_json (JNumber t) = ascii t"
| "ascii_json (JString t) = ascii t"
| "ascii_json (JArray vs) = list_all ascii_json vs"
| "ascii_json (JObject fs) = list_all (\<lambda>(k, v). ascii k \<and> ascii_json v) fs"
| "ascii_json _ = True"

lemma ascii_append [simp]: "ascii (s @ t) \<longleftrightarrow> ascii s \<and> ascii t"
  by (auto simp: ascii_def)

lemma ascii_Cons: "ascii (c # s) \<longleftrightarrow> of_char c < (128 :: nat) \<and> ascii s"
  by (simp add: ascii_def)

lemma ascii_comma_join: "\<forall>s\<in>set ss. ascii s \<Longrightarrow> ascii (comma_join ss)"
  by (induction ss rule: comma_join.induct) (simp_all add: ascii_Cons, simp add: ascii_def)

lemma digit_char_ascii: "d < 16 \<Longrightarrow> of_char (digit_char d) < (128 :: nat)"
  by (simp add: digit_char_def)

lemma escape_ascii: "of_char c < (128 :: nat) \<Longrightarrow> ascii (escape_char c)"
  by (simp add: escape_char_def Let_def ascii_def hex2_def digit_char_ascii less_mult_imp_div_less)

lemma marshal_string_ascii: "ascii s \<Longrightarrow> ascii (marshal_string s)"
proof (induction s)
  case (Cons c s)
  then show ?case using escape_ascii [of c] by (simp add: marshal_string_def ascii_Cons)
qed (simp add: marshal_string_def ascii_def)

lemma Marshal_ascii: "ascii_json v \<Longrightarrow> ascii (Marshal v)"
proof (induction v)
  case (JArray vs)
  then show ?case by (simp add: ascii_Cons ascii_comma_join list_all_iff) (simp add: ascii_def)
next
  case (JObject fs)
  have "ascii (member_text (k, v))" if "(k, v) \<in> set fs" for k v
    using JObject that by (fastforce simp: member_text_def ascii_Cons marshal_string_ascii list_all_iff snds.simps)
  then have "ascii (comma_join (map member_text fs))" by (intro ascii_comma_join) auto
  then show ?case unfolding member_text_def by (simp add: ascii_Cons) (simp add: ascii_def)
qed (auto simp: marshal_string_ascii, simp_all add: ascii_def)

lemma wire_int_ascii [simp]: "ascii_json (wire_int n)"
  using show_base_decimal [of "nat n"] by (auto simp: wire_int_def ascii_def Itoa_def is_dec_def dest!: bspec)

lemma ascii_names:
  "ascii OperationApplyManagedPlan" "ascii OperationRemoveManagedInfrastructure"
  "ascii OperationProbeCapabilities" "ascii OperationSnapshotManaged"
  by (simp_all add: wire_names ascii_def)

lemma response_ascii:
  assumes "response_encodable r"
  shows "ascii_json (response_wire r)"
proof (cases r)
  case (applyManagedPlanResponse b d)
  then have "ascii d" "ascii (mrb_status b)" "\<forall>c. mrb_errorCode b = Some c \<longrightarrow> ascii c"
    using assms by (auto simp: validResponseDomain_def validApplyResponseState_def validApplyRejectedErrorCode_def
        wire_names response_names ascii_def split: if_splits option.splits)
  then show ?thesis using applyManagedPlanResponse ascii_names
    by (cases "mrb_errorCode b") (simp_all add: error_code_member_def, simp_all add: ascii_def)
next
  case (removeManagedInfrastructureResponse b)
  then have "ascii (mrb_status b)" "\<forall>c. mrb_errorCode b = Some c \<longrightarrow> ascii c"
    using assms by (auto simp: validRemoveResponseState_def validRemoveRejectedErrorCode_def
        wire_names response_names ascii_def split: if_splits option.splits)
  then show ?thesis using removeManagedInfrastructureResponse ascii_names
    by (cases "mrb_errorCode b") (simp_all add: error_code_member_def, simp_all add: ascii_def)
qed

lemma response_scans: "scanMutationResponseJSON (Marshal (response_wire r)) = None"
proof -
  have "scan_document 2 32 (Marshal (response_wire r)) = None"
    by (cases r; cases "mrb_errorCode (response_base r)"; intro scan_document_Marshal)
      (simp_all add: error_code_member_def wire_int_def)
  then show ?thesis by (simp add: scanMutationResponseJSON_def)
qed

lemma response_plain: "plain_json (response_wire r)"
  by (cases r; cases "mrb_errorCode (response_base r)") (simp_all add: error_code_member_def)

lemma response_object:
  assumes "response_encodable r"
  shows "\<exists>root. response_wire r = JObject root \<and> decodeMutationResponseObject root = Some r"
proof (cases r)
  case (applyManagedPlanResponse b d)
  then show ?thesis using assms
    by (cases b; cases "mrb_errorCode b")
      (auto simp: decodeMutationResponseObject_def decodeApplyManagedPlanResponse_def response_code_def field_def
        objectShape_def error_code_member_def positive_one newApplyManagedPlanResponse_def validApplyResponseState_def
        split: if_splits)
next
  case (removeManagedInfrastructureResponse b)
  then show ?thesis using assms
    by (cases b; cases "mrb_errorCode b")
      (auto simp: decodeMutationResponseObject_def decodeRemoveManagedInfrastructureResponse_def response_code_def field_def
        objectShape_def error_code_member_def positive_one validRemoveResponseState_def wire_names
        split: if_splits)
qed

lemma EncodeMutationResponse_decodes:
  assumes "EncodeMutationResponse r = Inr raw"
  shows "DecodeMutationResponse raw = Inr r \<and> length raw \<le> 4096"
proof -
  have e: "response_encodable r" "raw = Marshal (response_wire r)" "length raw \<le> 4096"
    using assms by (auto simp: EncodeMutationResponse_def Let_def split: if_splits)
  obtain root where root: "response_wire r = JObject root" "decodeMutationResponseObject root = Some r"
    using response_object [OF e(1)] by blast
  have "ValidString raw"
    using Marshal_ascii [OF response_ascii [OF e(1)]] e(2) by (intro ValidString_ascii) (simp add: ascii_def)
  moreover have "scanMutationResponseJSON raw = None" using response_scans [of r] e(2) by simp
  moreover have "Decode raw = Some (JObject root, [])" using Decode_Marshal [OF response_plain [of r]] root(1) e(2) by simp
  ultimately show ?thesis using e(3) root(2) by (simp add: DecodeMutationResponse_def)
qed

end
