(* ===== verification/Ipc_Frame.thy ===== *)
theory Ipc_Frame
  imports Ipc_Roundtrip
begin

text \<open>
  The length-prefixed frames of IPC v1 (\<^verbatim>\<open>frame.go\<close>, \<^verbatim>\<open>request_frame.go\<close>, \<^verbatim>\<open>response_frame.go\<close>, and the
  probe and snapshot request frames). A stream is the string of the bytes still to be read. The
  \<^verbatim>\<open>io.Writer\<close> is a parameter; what is relied on is its documented contract. Everything about
  frames is proved once, for any codec that decodes what it encodes within its limit.
\<close>

section \<open>Frames\<close>

datatype FrameErrorCode =
    FrameErrorCodeTruncatedLength | FrameErrorCodeFrameTooLarge
  | FrameErrorCodeTruncatedPayload | FrameErrorCodeWriteFailed

datatype 'c frame_error = FrameError FrameErrorCode | PayloadError 'c

definition maxFrameBytes :: nat where "maxFrameBytes = 2 ^ 20"

definition PutUint32 :: "nat \<Rightarrow> string" where
  "PutUint32 n = [char_of (n div 16777216 mod 256), char_of (n div 65536 mod 256), char_of (n div 256 mod 256), char_of (n mod 256)]"

definition Uint32 :: "string \<Rightarrow> nat" where
  "Uint32 header = foldl (\<lambda>acc c. acc * 256 + of_char c) 0 header"

definition ReadFull :: "nat \<Rightarrow> string \<Rightarrow> (string \<times> string) option" where
  "ReadFull n stream = (if length stream < n then None else Some (take n stream, drop n stream))"

definition read_frame :: "nat \<Rightarrow> 'c \<Rightarrow> (string \<Rightarrow> 'c + 'm) \<Rightarrow> string \<Rightarrow> 'c frame_error + 'm \<times> string" where
  "read_frame limit tooLarge decode stream =
     (case ReadFull 4 stream of
        None \<Rightarrow> Inl (FrameError FrameErrorCodeTruncatedLength)
      | Some (header, stream1) \<Rightarrow>
          (let payloadLength = Uint32 header in
           if maxFrameBytes < payloadLength then Inl (FrameError FrameErrorCodeFrameTooLarge)
           else if limit < payloadLength then Inl (PayloadError tooLarge)
           else (case ReadFull payloadLength stream1 of
                   None \<Rightarrow> Inl (FrameError FrameErrorCodeTruncatedPayload)
                 | Some (payload, stream2) \<Rightarrow>
                     (case decode payload of Inl code \<Rightarrow> Inl (PayloadError code) | Inr m \<Rightarrow> Inr (m, stream2)))))"

definition DecodeFrame :: "string \<Rightarrow> ErrorCode frame_error + Request \<times> string" where
  "DecodeFrame = read_frame 65536 ErrorCodeRequestTooLarge DecodeRequest"

definition DecodeMutationResponseFrame :: "string \<Rightarrow> MutationResponseErrorCode frame_error + MutationResponse \<times> string" where
  "DecodeMutationResponseFrame = read_frame 4096 MutationResponseErrorCodeResponseTooLarge DecodeMutationResponse"

text \<open>
  A writer returns the number of bytes it took, whether it failed, and its new state. The loop ends
  because a round that took nothing stops it.
\<close>

type_synonym 'w writer = "'w \<Rightarrow> string \<Rightarrow> int \<times> bool \<times> 'w"

function writeAll :: "'w writer \<Rightarrow> 'w \<Rightarrow> string \<Rightarrow> bool \<times> 'w" where
  "writeAll wr w remaining =
     (if remaining = [] then (True, w)
      else case wr w remaining of
        (written, failed, w') \<Rightarrow>
          if written < 0 \<or> int (length remaining) < written then (False, w')
          else if failed \<or> written = 0 then (False, w')
          else writeAll wr w' (drop (nat written) remaining))"
  by pat_completeness auto
termination
  by (relation "measure (\<lambda>(_, _, r). length r)") auto

declare writeAll.simps [simp del]

definition writeFramePayload :: "'w writer \<Rightarrow> 'w option \<Rightarrow> string \<Rightarrow> FrameErrorCode option \<times> 'w option" where
  "writeFramePayload wr writer payload =
     (if maxFrameBytes < length payload then (Some FrameErrorCodeFrameTooLarge, writer)
      else case writer of
        None \<Rightarrow> (Some FrameErrorCodeWriteFailed, None)
      | Some w \<Rightarrow>
          (case writeAll wr w (PutUint32 (length payload)) of
             (False, w1) \<Rightarrow> (Some FrameErrorCodeWriteFailed, Some w1)
           | (True, w1) \<Rightarrow>
               (case writeAll wr w1 payload of
                  (False, w2) \<Rightarrow> (Some FrameErrorCodeWriteFailed, Some w2)
                | (True, w2) \<Rightarrow> (None, Some w2))))"

definition write_frame ::
  "('m \<Rightarrow> 'c + string) \<Rightarrow> 'w writer \<Rightarrow> 'w option \<Rightarrow> 'm \<Rightarrow> 'c frame_error option \<times> 'w option" where
  "write_frame encode wr writer m =
     (case encode m of
        Inl code \<Rightarrow> (Some (PayloadError code), writer)
      | Inr payload \<Rightarrow> (case writeFramePayload wr writer payload of (e, w) \<Rightarrow> (map_option FrameError e, w)))"

definition WriteMutationRequestFrame where
  "WriteMutationRequestFrame wr writer request = write_frame EncodeMutationRequest wr writer request"

definition WriteMutationResponseFrame where
  "WriteMutationResponseFrame wr writer response = write_frame EncodeMutationResponse wr writer response"

definition WriteProbeCapabilitiesRequestFrame where
  "WriteProbeCapabilitiesRequestFrame wr writer request = write_frame EncodeProbeCapabilitiesRequest wr writer request"

definition WriteSnapshotManagedRequestFrame where
  "WriteSnapshotManagedRequestFrame wr writer request = write_frame EncodeSnapshotManagedRequest wr writer request"

section \<open>Writing\<close>

text \<open>The contract of \<^verbatim>\<open>io.Writer\<close>: the count is within the buffer, that much of it is appended to the
  output, and a short write fails.\<close>

definition writer_contract :: "'w writer \<Rightarrow> ('w \<Rightarrow> string) \<Rightarrow> bool" where
  "writer_contract wr out \<longleftrightarrow>
     (\<forall>w p n failed w'. wr w p = (n, failed, w') \<longrightarrow>
        0 \<le> n \<and> n \<le> int (length p) \<and> out w' = out w @ take (nat n) p \<and> (n < int (length p) \<longrightarrow> failed))"

lemma Uint32_PutUint32: "n < 2 ^ 32 \<Longrightarrow> Uint32 (PutUint32 n) = n"
proof -
  assume "n < 2 ^ 32"
  have b: "of_char (char_of (k mod 256) :: char) = k mod 256" for k :: nat by (simp add: of_char_of)
  have "n div 16777216 mod 256 = n div 16777216" using \<open>n < 2 ^ 32\<close> by simp
  moreover have "n div 16777216 = n div 65536 div 256" "n div 65536 = n div 256 div 256"
    by (simp_all add: div_mult2_eq [symmetric])
  ultimately have "n div 16777216 mod 256 * 256 + n div 65536 mod 256 = n div 65536" by simp
  moreover have "n div 65536 * 256 + n div 256 mod 256 = n div 256"
    using div_mult_mod_eq [of "n div 256" 256] by (simp add: div_mult2_eq [symmetric])
  moreover have "n div 256 * 256 + n mod 256 = n" by simp
  ultimately show ?thesis unfolding Uint32_def PutUint32_def foldl.simps b by (simp only: mult_0 add_0)
qed

lemma length_PutUint32 [simp]: "length (PutUint32 n) = 4"
  by (simp add: PutUint32_def)

lemma writeAll_appends:
  assumes "writer_contract wr out" and "writeAll wr w remaining = (ok, w')"
  shows "\<exists>k. out w' = out w @ take k remaining \<and> (ok \<longrightarrow> out w' = out w @ remaining)"
  using assms
proof (induction wr w remaining rule: writeAll.induct)
  case (1 wr w remaining)
  show ?case
  proof (cases "remaining = []")
    case True
    then show ?thesis using 1 by (simp add: writeAll.simps [of wr w])
  next
    case False
    obtain n failed w1 where step: "wr w remaining = (n, failed, w1)" by (cases "wr w remaining") auto
    then have n: "0 \<le> n" "n \<le> int (length remaining)" "out w1 = out w @ take (nat n) remaining"
      using 1(2) by (auto simp: writer_contract_def)
    show ?thesis
    proof (cases "failed \<or> n = 0")
      case True
      then have "w' = w1" "\<not> ok" using 1(3) False step n by (auto simp: writeAll.simps [of wr w])
      then show ?thesis using n(3) by blast
    next
      case go: False
      then have rest: "writeAll wr w1 (drop (nat n) remaining) = (ok, w')"
        using 1(3) False step n by (simp add: writeAll.simps [of wr w])
      obtain k where k: "out w' = out w1 @ take k (drop (nat n) remaining)"
          "ok \<longrightarrow> out w' = out w1 @ drop (nat n) remaining"
        using 1(1) [OF False step [symmetric] refl _ _ 1(2) rest] n go by auto
      then have "out w' = out w @ take (nat n + k) remaining" using n(3) by (simp add: take_add)
      moreover have "ok \<longrightarrow> out w' = out w @ remaining" using k(2) n(3) by simp
      ultimately show ?thesis by blast
    qed
  qed
qed

lemma writeFramePayload_appends:
  assumes "writer_contract wr out" and "writeFramePayload wr (Some w) payload = (None, Some w')"
  shows "out w' = out w @ PutUint32 (length payload) @ payload"
proof -
  obtain w1 where "writeAll wr w (PutUint32 (length payload)) = (True, w1)" "writeAll wr w1 payload = (True, w')"
    using assms(2) by (auto simp: writeFramePayload_def split: if_splits prod.splits bool.splits)
  then show ?thesis using writeAll_appends [OF assms(1)] by (metis append.assoc)
qed

section \<open>Frames of a codec\<close>

locale framed_codec =
  fixes encode :: "'m \<Rightarrow> 'c + string" and decode :: "string \<Rightarrow> 'c + 'm"
    and limit :: nat and tooLarge :: 'c
  assumes decodes: "encode m = Inr raw \<Longrightarrow> decode raw = Inr m \<and> length raw \<le> limit"
    and limit_fits: "limit \<le> maxFrameBytes"
begin

lemma read_written:
  assumes "encode m = Inr raw"
  shows "read_frame limit tooLarge decode ((PutUint32 (length raw) @ raw) @ rest) = Inr (m, rest)"
proof -
  have len: "length raw \<le> limit" "length raw \<le> maxFrameBytes" using decodes [OF assms] limit_fits by auto
  then have "Uint32 (PutUint32 (length raw)) = length raw"
    by (intro Uint32_PutUint32) (simp add: maxFrameBytes_def)
  then show ?thesis using len decodes [OF assms] by (simp add: read_frame_def ReadFull_def)
qed

lemma written_frame_reads:
  assumes "writer_contract wr out" and "write_frame encode wr (Some w) m = (None, Some w')"
  shows "\<exists>frame. out w' = out w @ frame \<and> (\<forall>rest. read_frame limit tooLarge decode (frame @ rest) = Inr (m, rest))"
proof -
  obtain raw where raw: "encode m = Inr raw" "writeFramePayload wr (Some w) raw = (None, Some w')"
    using assms(2) by (auto simp: write_frame_def split: sum.splits prod.splits)
  then show ?thesis using writeFramePayload_appends [OF assms(1) raw(2)] read_written [OF raw(1)] by blast
qed

lemma partial_frame_refused:
  assumes "encode m = Inr raw" and "k < 4 + length raw"
  shows "read_frame limit tooLarge decode (take k (PutUint32 (length raw) @ raw)) =
    Inl (FrameError (if k < 4 then FrameErrorCodeTruncatedLength else FrameErrorCodeTruncatedPayload))"
proof -
  have len: "length raw \<le> limit" "length raw \<le> maxFrameBytes" using decodes [OF assms(1)] limit_fits by auto
  then have "Uint32 (PutUint32 (length raw)) = length raw"
    by (intro Uint32_PutUint32) (simp add: maxFrameBytes_def)
  moreover have "\<not> k < 4 \<Longrightarrow> k - 4 < length raw" using assms(2) by simp
  ultimately show ?thesis using len by (auto simp: read_frame_def ReadFull_def Let_def)
qed

end

lemma length_escape: "length (escape_char c) \<le> 6"
  by (simp add: escape_char_def Let_def hex2_def)

lemma length_marshal_string: "length (marshal_string s) \<le> 6 * length s + 2"
proof -
  have "length (concat (map escape_char s)) \<le> 6 * length s"
    by (induction s) (use length_escape in \<open>auto intro: add_mono simp: mult_Suc_right\<close>)
  then show ?thesis by (simp add: marshal_string_def)
qed

lemma DecodeRequest_wire:
  assumes "plain_json (JObject root)" and "distinct_keys (JObject root)" and "json_nests 8 (JObject root)"
    and "json_tokens (JObject root) \<le> 4096" and "ascii_json (JObject root)" and "length (Marshal (JObject root)) \<le> 65536"
  shows "DecodeRequest (Marshal (JObject root)) = decodeRequestObject root"
proof -
  have "ValidString (Marshal (JObject root))"
    using Marshal_ascii [OF assms(5)] by (intro ValidString_ascii) (simp add: ascii_def)
  moreover have "scanJSON (Marshal (JObject root)) = None"
    using scan_document_Marshal [OF assms(1-4)] by (simp add: scanJSON_def)
  ultimately show ?thesis using Decode_Marshal [OF assms(1)] assms(6) by (simp add: DecodeRequest_def del: Marshal.simps)
qed

lemma read_request_decodes:
  assumes "encode_read_request op = Inr raw" and "ascii op"
  shows "DecodeRequest raw = decodeRequestObject (wire_fields op (JObject [])) \<and> length raw \<le> 65536"
proof -
  have e: "raw = Marshal (JObject (wire_fields op (JObject [])))" "length raw \<le> 65536"
    using assms(1) by (auto simp: encode_read_request_def Let_def request_wire_def wire_fields_def split: if_splits)
  moreover have "ascii_json (JObject (wire_fields op (JObject [])))" using assms(2)
    by (simp add: wire_fields_def) (simp add: ascii_def)
  ultimately show ?thesis
    using DecodeRequest_wire [of "wire_fields op (JObject [])"] by (simp add: wire_fields_def wire_int_def del: Marshal.simps)
qed

interpretation request_frames: framed_codec EncodeMutationRequest DecodeRequest 65536 ErrorCodeRequestTooLarge
  by unfold_locales (auto dest: EncodeMutationRequest_decodes simp: maxFrameBytes_def)

interpretation response_frames: framed_codec EncodeMutationResponse DecodeMutationResponse 4096 MutationResponseErrorCodeResponseTooLarge
  by unfold_locales (auto dest: EncodeMutationResponse_decodes simp: maxFrameBytes_def)

interpretation probe_frames: framed_codec EncodeProbeCapabilitiesRequest DecodeRequest 65536 ErrorCodeRequestTooLarge
  by unfold_locales (auto simp: EncodeProbeCapabilitiesRequest_def maxFrameBytes_def decode_reads ascii_names
      split: if_splits dest!: read_request_decodes)

interpretation snapshot_frames: framed_codec EncodeSnapshotManagedRequest DecodeRequest 65536 ErrorCodeRequestTooLarge
  by unfold_locales (auto simp: EncodeSnapshotManagedRequest_def maxFrameBytes_def decode_reads ascii_names
      split: if_splits dest!: read_request_decodes)

section \<open>Properties\<close>

lemma remove_request_encodes:
  "\<exists>raw. EncodeMutationRequest NewRemoveManagedInfrastructureRequest = Inr raw"
proof -
  let ?root = "wire_fields OperationRemoveManagedInfrastructure
      (JObject [(''expected_owner_version'', JString ownerVersionV1)])"
  have "length (Marshal (JObject ?root)) \<le> 65536"
    using length_marshal_string [of OperationRemoveManagedInfrastructure] length_marshal_string [of ownerVersionV1]
      length_marshal_string [of "''expected_owner_version''"] length_marshal_string [of "''version''"]
      length_marshal_string [of "''operation''"] length_marshal_string [of "''payload''"]
    by (simp add: wire_fields_def wire_int_def wire_names Itoa_def show_base.simps)
  moreover have "ascii_json (JObject ?root)"
    by (simp add: wire_fields_def ascii_names) (simp add: ascii_def wire_names)
  ultimately have "DecodeRequest (Marshal (JObject ?root)) = decodeRequestObject ?root"
    by (intro DecodeRequest_wire) (simp_all add: wire_fields_def wire_int_def)
  then show ?thesis using decode_remove
    by (simp add: EncodeMutationRequest_def mutationRequestToWire_def NewRemoveManagedInfrastructureRequest_def
        request_wire_def wire_fields_def Let_def del: Marshal.simps)
qed

definition buffer_write :: "string writer" where
  "buffer_write w p = (int (length p), False, w @ p)"

lemma buffer_contract: "writer_contract buffer_write id"
  by (simp add: writer_contract_def buffer_write_def)

lemma buffer_writeAll: "writeAll buffer_write w s = (True, w @ s)"
  by (simp add: writeAll.simps [of _ _ s] buffer_write_def) (simp add: writeAll.simps [of _ _ "[]"])

lemma buffer_frame:
  assumes "encode m = Inr raw" and "length raw \<le> maxFrameBytes"
  shows "write_frame encode buffer_write (Some []) m = (None, Some (PutUint32 (length raw) @ raw))"
  using assms by (simp add: write_frame_def writeFramePayload_def buffer_writeAll)

text \<open>
  Claim C31. A mutation request that \<^verbatim>\<open>WriteMutationRequestFrame\<close> wrote without an error is read back
  unchanged by \<^verbatim>\<open>DecodeFrame\<close>, whatever follows it on the stream, and exactly its frame is consumed;
  this holds for every writer that keeps the contract of \<^verbatim>\<open>io.Writer\<close>, by which a short write fails.
\<close>

theorem request_frame_roundtrip:
  assumes "writer_contract wr out" and "WriteMutationRequestFrame wr (Some w) request = (None, Some w')"
  shows "\<exists>frame. out w' = out w @ frame \<and> (\<forall>rest. DecodeFrame (frame @ rest) = Inr (request, rest))"
  using request_frames.written_frame_reads [OF assms(1), of w request w'] assms(2)
  by (simp add: WriteMutationRequestFrame_def DecodeFrame_def)

theorem request_frame_roundtrip_witness:
  "\<exists>w'. WriteMutationRequestFrame buffer_write (Some []) NewRemoveManagedInfrastructureRequest = (None, Some w')
     \<and> DecodeFrame w' = Inr (NewRemoveManagedInfrastructureRequest, [])"
proof -
  obtain raw where raw: "EncodeMutationRequest NewRemoveManagedInfrastructureRequest = Inr raw"
    using remove_request_encodes by blast
  have "length raw \<le> maxFrameBytes"
    using EncodeMutationRequest_decodes [OF raw] by (simp add: maxFrameBytes_def)
  then have w: "WriteMutationRequestFrame buffer_write (Some []) NewRemoveManagedInfrastructureRequest =
      (None, Some (PutUint32 (length raw) @ raw))"
    using buffer_frame [of EncodeMutationRequest, OF raw] by (simp add: WriteMutationRequestFrame_def)
  have "DecodeFrame ((PutUint32 (length raw) @ raw) @ []) = Inr (NewRemoveManagedInfrastructureRequest, [])"
    using request_frame_roundtrip [OF buffer_contract w] unfolding id_apply append_Nil by blast
  then show ?thesis using w by (intro exI [of _ "PutUint32 (length raw) @ raw"]) simp
qed

text \<open>
  Claim C32. Every mutation response of the closed set travels unchanged through its frame: what
  \<^verbatim>\<open>WriteMutationResponseFrame\<close> wrote is read back by \<^verbatim>\<open>DecodeMutationResponseFrame\<close> as the same
  response, and the rest of the stream is left.
\<close>

theorem response_frame_roundtrip:
  assumes "writer_contract wr out" and "WriteMutationResponseFrame wr (Some w) response = (None, Some w')"
  shows "\<exists>frame. out w' = out w @ frame
    \<and> (\<forall>rest. DecodeMutationResponseFrame (frame @ rest) = Inr (response, rest))"
  using response_frames.written_frame_reads [OF assms(1), of w response w'] assms(2)
  by (simp add: WriteMutationResponseFrame_def DecodeMutationResponseFrame_def)

lemma unknown_response_encodes:
  "\<exists>raw. EncodeMutationResponse NewRemoveManagedInfrastructureUnknownResponse = Inr raw"
proof -
  have "length (Marshal (response_wire NewRemoveManagedInfrastructureUnknownResponse)) \<le> 4096"
    using length_marshal_string [of OperationRemoveManagedInfrastructure] length_marshal_string [of StatusUnknown]
      length_marshal_string [of MutationErrorCodeUnknownResult] length_marshal_string [of "''version''"]
      length_marshal_string [of "''operation''"] length_marshal_string [of "''status''"]
      length_marshal_string [of "''error_code''"]
    by (simp add: NewRemoveManagedInfrastructureUnknownResponse_def error_code_member_def wire_int_def
        wire_names response_names Itoa_def show_base.simps)
  then show ?thesis
    by (simp add: EncodeMutationResponse_def NewRemoveManagedInfrastructureUnknownResponse_def
        validRemoveResponseState_def response_names Let_def)
qed

theorem response_frame_roundtrip_witness:
  "\<exists>w'. WriteMutationResponseFrame buffer_write (Some []) NewRemoveManagedInfrastructureUnknownResponse = (None, Some w')
     \<and> DecodeMutationResponseFrame w' = Inr (NewRemoveManagedInfrastructureUnknownResponse, [])"
proof -
  obtain raw where raw: "EncodeMutationResponse NewRemoveManagedInfrastructureUnknownResponse = Inr raw"
    using unknown_response_encodes by blast
  have "length raw \<le> maxFrameBytes"
    using EncodeMutationResponse_decodes [OF raw] by (simp add: maxFrameBytes_def)
  then have w: "WriteMutationResponseFrame buffer_write (Some []) NewRemoveManagedInfrastructureUnknownResponse =
      (None, Some (PutUint32 (length raw) @ raw))"
    using buffer_frame [of EncodeMutationResponse, OF raw] by (simp add: WriteMutationResponseFrame_def)
  have "DecodeMutationResponseFrame ((PutUint32 (length raw) @ raw) @ []) = Inr (NewRemoveManagedInfrastructureUnknownResponse, [])"
    using response_frame_roundtrip [OF buffer_contract w] unfolding id_apply append_Nil by blast
  then show ?thesis using w by (intro exI [of _ "PutUint32 (length raw) @ raw"]) simp
qed

text \<open>
  Claim C33. A request frame that was cut short is never taken for a request: every proper prefix of an
  encoded frame is refused, as a truncated length within the first four bytes and as a truncated
  payload after them.
\<close>

theorem partial_request_frame_refused:
  assumes "EncodeMutationRequest request = Inr raw" and "k < 4 + length raw"
  shows "DecodeFrame (take k (PutUint32 (length raw) @ raw)) =
    Inl (FrameError (if k < 4 then FrameErrorCodeTruncatedLength else FrameErrorCodeTruncatedPayload))"
  using request_frames.partial_frame_refused [OF assms] by (simp add: DecodeFrame_def)

theorem partial_request_frame_refused_witness:
  "\<exists>raw. EncodeMutationRequest NewRemoveManagedInfrastructureRequest = Inr raw
     \<and> DecodeFrame (take 3 (PutUint32 (length raw) @ raw)) = Inl (FrameError FrameErrorCodeTruncatedLength)"
proof -
  obtain raw where raw: "EncodeMutationRequest NewRemoveManagedInfrastructureRequest = Inr raw"
    using remove_request_encodes by blast
  then show ?thesis using partial_request_frame_refused [OF raw, of 3] by simp
qed

end
