(* ===== verification/Reconcile_Model.thy ===== *)
theory Reconcile_Model
  imports Core_Policy Observed_State Intent_Resolution "HOL-Library.AList"
begin

text \<open>
  The data of the reconciler: plans, physical snapshots and results of
  \<^verbatim>\<open>internal/reconcile/model/types.go\<close>, the retry ledger of \<^verbatim>\<open>internal/core\<close>, the controller of
  \<^verbatim>\<open>internal/reconcile/controller.go\<close> and the pure functions its critical sections are built from.
  The two digests are functions of the model: they hash a printed form of a plan or a snapshot, and
  what is used of them is only whether a digest is the one of its plan.
\<close>

section \<open>Plans and snapshots\<close>

datatype Domain = DomainInfrastructure | DomainPolicy | DomainTarget | Domain_other u8

datatype ResultKind = ResultConfirmed | ResultRejected | ResultUnknown | ResultKind_other u8

record PhysicalInfrastructure =
  phi_Backend :: string
  phi_OwnerVersion :: string
  phi_Digest :: string

record PhysicalPolicy =
  php_RelationDigest :: string

record OperationPlan =
  op_Domain :: Domain
  op_Target :: Prefix
  op_DesiredTarget :: NormalizedTargetEnforcementIntent
  op_DesiredInfrastructure :: ManagedInfrastructureIntent
  op_DesiredPolicy :: ManagedPolicyIntent
  op_ExpectedInfrastructureRevision :: u64
  op_ExpectedPolicyRevision :: u64
  op_ExpectedTargetGeneration :: u64
  op_ExpectedSnapshotRevision :: u64
  op_FenceSnapshotRevision :: bool
  op_BasisSnapshotDigest :: string
  op_Digest :: string

record ApplyResult =
  ar_Kind :: ResultKind
  ar_Domain :: Domain
  ar_Target :: Prefix
  ar_Digest :: string
  ar_ErrorCode :: string

record Snapshot =
  sn_BasisDigest :: string
  sn_Infrastructure :: "PhysicalInfrastructure option"
  sn_Policy :: "PhysicalPolicy option"
  sn_Targets :: "(Prefix \<times> PhysicalTargetObserved) list"

datatype plan_error =
    PlanDomainUnknown | PlanDigestUnbound | PlanFenceInvalid | PlanPayloadIncomplete
  | PlanPolicyInvalid managed_policy_error | PlanTargetNotCanonical | PlanGenerationMismatch
  | PlanTargetInvalid intent_error

definition ValidDomain :: "Domain \<Rightarrow> bool" where
  "ValidDomain domain \<longleftrightarrow> domain = DomainInfrastructure \<or> domain = DomainPolicy \<or> domain = DomainTarget"

definition ValidatePlan :: "(OperationPlan \<Rightarrow> string) \<Rightarrow> OperationPlan \<Rightarrow> plan_error option" where
  "ValidatePlan PlanDigest plan =
     (if \<not> ValidDomain (op_Domain plan) then Some PlanDomainUnknown
      else if op_Digest plan = [] \<or> op_Digest plan \<noteq> PlanDigest plan then Some PlanDigestUnbound
      else case op_Domain plan of
        DomainInfrastructure \<Rightarrow>
          if Prefix_IsValid (op_Target plan) \<or> op_ExpectedInfrastructureRevision plan = 0 then Some PlanFenceInvalid
          else if mi_Backend (op_DesiredInfrastructure plan) = [] \<or> mi_OwnerVersion (op_DesiredInfrastructure plan) = []
                  \<or> mi_Digest (op_DesiredInfrastructure plan) = []
          then Some PlanPayloadIncomplete else None
      | DomainPolicy \<Rightarrow>
          if Prefix_IsValid (op_Target plan) \<or> op_ExpectedPolicyRevision plan = 0 then Some PlanFenceInvalid
          else if mp_RelationDigest (op_DesiredPolicy plan) = [] then Some PlanPayloadIncomplete
          else if mp_Allowlist (op_DesiredPolicy plan) \<noteq> None \<or> mp_ProtectedTargets (op_DesiredPolicy plan) \<noteq> None
          then map_option PlanPolicyInvalid (ValidateComplete (op_DesiredPolicy plan)) else None
      | DomainTarget \<Rightarrow>
          if \<not> Prefix_IsValid (op_Target plan) \<or> op_Target plan \<noteq> Masked (op_Target plan) then Some PlanTargetNotCanonical
          else if int_CanonicalTarget (op_DesiredTarget plan) \<noteq> op_Target plan \<or> op_ExpectedTargetGeneration plan = 0
                  \<or> int_Generation (op_DesiredTarget plan) \<noteq> op_ExpectedTargetGeneration plan
          then Some PlanGenerationMismatch
          else map_option PlanTargetInvalid (NormalizedTargetEnforcementIntent_Validate (op_DesiredTarget plan))
      | Domain_other _ \<Rightarrow> None)"

section \<open>The retry ledger\<close>

datatype ReconcileStatus =
  ReconcilePending | ReconcileApplying | ReconcileConverged | ReconcileRetryWaiting | ReconcileDegraded
| ReconcileStatus_other u8

record RetryState =
  rs_Status :: ReconcileStatus
  rs_AttemptCount :: nat
  rs_LastAttemptAt :: "time option"
  rs_NextAttemptAt :: "time option"
  rs_LastErrorCode :: string

definition zero_retry :: RetryState where
  "zero_retry = \<lparr> rs_Status = ReconcileStatus_other 0, rs_AttemptCount = 0, rs_LastAttemptAt = None,
     rs_NextAttemptAt = None, rs_LastErrorCode = [] \<rparr>"

definition pending_retry :: RetryState where
  "pending_retry = zero_retry\<lparr>rs_Status := ReconcilePending\<rparr>"

text \<open>
  \<^verbatim>\<open>attemptRef\<close> has one key per domain, of which only that of its domain is set; the three ledger maps
  of the controller are one map over it.
\<close>

datatype attemptRef =
    RefInfrastructure u64 u64
  | RefPolicy u64 u64
  | RefTarget Prefix u64 u64

fun ref_domain :: "attemptRef \<Rightarrow> Domain" where
  "ref_domain (RefInfrastructure _ _) = DomainInfrastructure"
| "ref_domain (RefPolicy _ _) = DomainPolicy"
| "ref_domain (RefTarget _ _ _) = DomainTarget"

fun retryEpoch :: "attemptRef \<Rightarrow> u64" where
  "retryEpoch (RefInfrastructure _ e) = e"
| "retryEpoch (RefPolicy _ e) = e"
| "retryEpoch (RefTarget _ _ e) = e"

fun sameAttemptPhysicalKey :: "attemptRef \<Rightarrow> attemptRef \<Rightarrow> bool" where
  "sameAttemptPhysicalKey (RefInfrastructure r _) (RefInfrastructure r' _) = (r = r')"
| "sameAttemptPhysicalKey (RefPolicy r _) (RefPolicy r' _) = (r = r')"
| "sameAttemptPhysicalKey (RefTarget t g _) (RefTarget t' g' _) = (t = t' \<and> g = g')"
| "sameAttemptPhysicalKey _ _ = False"

record pendingProbeKey =
  pk_domain :: Domain
  pk_target :: Prefix
  pk_infrastructureRevision :: u64
  pk_policyRevision :: u64
  pk_targetGeneration :: u64
  pk_snapshotRevision :: u64
  pk_fenceSnapshotRevision :: bool

definition pendingProbeKeyForPlan :: "OperationPlan \<Rightarrow> pendingProbeKey" where
  "pendingProbeKeyForPlan plan =
     \<lparr> pk_domain = op_Domain plan, pk_target = op_Target plan,
       pk_infrastructureRevision = op_ExpectedInfrastructureRevision plan,
       pk_policyRevision = op_ExpectedPolicyRevision plan,
       pk_targetGeneration = op_ExpectedTargetGeneration plan,
       pk_snapshotRevision = op_ExpectedSnapshotRevision plan,
       pk_fenceSnapshotRevision = op_FenceSnapshotRevision plan \<rparr>"

record ReconcileKey =
  rk_Domain :: Domain
  rk_Target :: Prefix

definition maxMutationAttempts :: nat where "maxMutationAttempts = 6"

text \<open>Durations are in nanoseconds.\<close>

definition retryBackoff :: "int list" where
  "retryBackoff = [1000000000, 5000000000, 30000000000, 300000000000, 900000000000]"

text \<open>The element \<^verbatim>\<open>retryBackoff[attempts-1]\<close>; no value where the index is out of range and Go panics.\<close>

definition backoff :: "nat \<Rightarrow> int option" where
  "backoff attempts = (if 0 < attempts \<and> attempts \<le> length retryBackoff then Some (retryBackoff ! (attempts - 1)) else None)"

definition retryable :: "string \<Rightarrow> bool" where
  "retryable code \<longleftrightarrow> code \<notin> {''ownership_conflict'', ''unsupported'', ''invalid_plan''}"

section \<open>The controller\<close>

text \<open>
  The fields of \<^verbatim>\<open>Controller\<close> that hold its state; the map fields are association lists, and the
  boundaries it calls are parameters of the operations.
\<close>

record Controller =
  ct_nodeID :: string
  ct_hasDesired :: bool
  ct_desired :: DesiredFirewallSnapshot
  ct_desiredTargets :: "(Prefix \<times> NormalizedTargetEnforcementIntent) list"
  ct_infrastructureEpoch :: u64
  ct_policyEpoch :: u64
  ct_targetEpochs :: "(Prefix \<times> u64) list"
  ct_states :: "(attemptRef \<times> RetryState) list"
  ct_confirmedTargets :: "(Prefix \<times> u64) list"
  ct_pendingProbes :: "(pendingProbeKey \<times> attemptRef) list"
  ct_syntheticRefs :: "attemptRef list"
  ct_startupProbeRequired :: bool
  ct_recoveryReloadNeeded :: bool
  ct_lastObservedAt :: time

definition zero_desired :: DesiredFirewallSnapshot where
  "zero_desired = \<lparr> ds_SnapshotRevision = 0, ds_InfrastructureRevision = 0, ds_PolicyRevision = 0,
     ds_Infrastructure = \<lparr> mi_Backend = [], mi_OwnerVersion = [], mi_Digest = [] \<rparr>,
     ds_Policy = \<lparr> mp_RelationDigest = [], mp_Allowlist = None, mp_ProtectedTargets = None \<rparr>, ds_Targets = [] \<rparr>"

definition NewController :: Controller where
  "NewController = \<lparr> ct_nodeID = [], ct_hasDesired = False, ct_desired = zero_desired, ct_desiredTargets = [],
     ct_infrastructureEpoch = 0, ct_policyEpoch = 0, ct_targetEpochs = [], ct_states = [],
     ct_confirmedTargets = [], ct_pendingProbes = [], ct_syntheticRefs = [], ct_startupProbeRequired = False,
     ct_recoveryReloadNeeded = False, ct_lastObservedAt = 0 \<rparr>"

definition target_epoch :: "Controller \<Rightarrow> Prefix \<Rightarrow> u64" where
  "target_epoch c target = (case map_of (ct_targetEpochs c) target of None \<Rightarrow> 0 | Some e \<Rightarrow> e)"

definition stateForRef :: "Controller \<Rightarrow> attemptRef \<Rightarrow> RetryState option" where
  "stateForRef c ref = map_of (ct_states c) ref"

definition getState :: "Controller \<Rightarrow> attemptRef \<Rightarrow> RetryState" where
  "getState c ref = (case stateForRef c ref of None \<Rightarrow> zero_retry | Some s \<Rightarrow> s)"

definition putState :: "attemptRef \<Rightarrow> RetryState \<Rightarrow> Controller \<Rightarrow> Controller" where
  "putState ref state c = c\<lparr>ct_states := AList.update ref state (ct_states c)\<rparr>"

definition put_pending :: "pendingProbeKey \<Rightarrow> attemptRef \<Rightarrow> Controller \<Rightarrow> Controller" where
  "put_pending key ref c = c\<lparr>ct_pendingProbes := AList.update key ref (ct_pendingProbes c)\<rparr>"

definition delete_pending :: "pendingProbeKey \<Rightarrow> Controller \<Rightarrow> Controller" where
  "delete_pending key c = c\<lparr>ct_pendingProbes := AList.delete key (ct_pendingProbes c)\<rparr>"

definition delete_synthetic :: "attemptRef \<Rightarrow> Controller \<Rightarrow> Controller" where
  "delete_synthetic ref c = c\<lparr>ct_syntheticRefs := removeAll ref (ct_syntheticRefs c)\<rparr>"

definition confirm_target :: "Prefix \<Rightarrow> u64 \<Rightarrow> Controller \<Rightarrow> Controller" where
  "confirm_target target generation c =
     c\<lparr>ct_confirmedTargets := AList.update target generation (ct_confirmedTargets c)\<rparr>"

definition hasPendingRef :: "Controller \<Rightarrow> attemptRef \<Rightarrow> bool" where
  "hasPendingRef c ref \<longleftrightarrow> list_ex (\<lambda>(k, r). r = ref) (ct_pendingProbes c)"

section \<open>Desired state\<close>

datatype desired_error =
    DesiredInvalid desired_snapshot_error | DesiredDuplicateTarget | RevisionsBackward
  | InfrastructureRevisionMismatch | PolicyRevisionMismatch | TargetDisappeared Prefix
  | ChangedTargetSameGeneration Prefix | UnchangedTargetNewGeneration Prefix | SnapshotRevisionMismatch

definition prepareDesired ::
  "DesiredFirewallSnapshot \<Rightarrow> desired_error + DesiredFirewallSnapshot \<times> (Prefix \<times> NormalizedTargetEnforcementIntent) list" where
  "prepareDesired snapshot =
     (case NewDesiredFirewallSnapshot snapshot of
        Inl e \<Rightarrow> Inl (DesiredInvalid e)
      | Inr prepared \<Rightarrow>
          if \<not> distinct (map int_CanonicalTarget (ds_Targets prepared)) then Inl DesiredDuplicateTarget
          else Inr (prepared, map (\<lambda>i. (int_CanonicalTarget i, i)) (ds_Targets prepared)))"

definition policyIntentEqual :: "ManagedPolicyIntent \<Rightarrow> ManagedPolicyIntent \<Rightarrow> bool" where
  "policyIntentEqual left right \<longleftrightarrow>
     mp_RelationDigest left = mp_RelationDigest right
     \<and> elems (mp_Allowlist left) = elems (mp_Allowlist right)
     \<and> elems (mp_ProtectedTargets left) = elems (mp_ProtectedTargets right)"

text \<open>The loop over the previous targets: the first refusal, or whether some target changed.\<close>

fun transition_targets ::
  "(Prefix \<times> NormalizedTargetEnforcementIntent) list \<Rightarrow> (Prefix \<times> NormalizedTargetEnforcementIntent) list
    \<Rightarrow> desired_error + bool" where
  "transition_targets nextTargets [] = Inr False"
| "transition_targets nextTargets ((target, oldIntent) # rest) =
     (case map_of nextTargets target of
        None \<Rightarrow> Inl (TargetDisappeared target)
      | Some newIntent \<Rightarrow>
          if \<not> Equivalent oldIntent newIntent then
            (if int_Generation newIntent \<le> int_Generation oldIntent then Inl (ChangedTargetSameGeneration target)
             else bind_result (transition_targets nextTargets rest) (\<lambda>_. Inr True))
          else if int_Generation newIntent \<noteq> int_Generation oldIntent then Inl (UnchangedTargetNewGeneration target)
          else transition_targets nextTargets rest)"

definition validateDesiredTransition ::
  "DesiredFirewallSnapshot \<Rightarrow> (Prefix \<times> NormalizedTargetEnforcementIntent) list
    \<Rightarrow> DesiredFirewallSnapshot \<Rightarrow> (Prefix \<times> NormalizedTargetEnforcementIntent) list \<Rightarrow> desired_error option" where
  "validateDesiredTransition previous previousTargets next nextTargets =
     (if ds_SnapshotRevision next < ds_SnapshotRevision previous
         \<or> ds_InfrastructureRevision next < ds_InfrastructureRevision previous
         \<or> ds_PolicyRevision next < ds_PolicyRevision previous
      then Some RevisionsBackward
      else let infraChanged = (ds_Infrastructure previous \<noteq> ds_Infrastructure next);
               policyChanged = (\<not> policyIntentEqual (ds_Policy previous) (ds_Policy next)) in
      if infraChanged \<noteq> (ds_InfrastructureRevision previous < ds_InfrastructureRevision next)
      then Some InfrastructureRevisionMismatch
      else if policyChanged \<noteq> (ds_PolicyRevision previous < ds_PolicyRevision next) then Some PolicyRevisionMismatch
      else case transition_targets nextTargets previousTargets of
        Inl e \<Rightarrow> Some e
      | Inr targetChanged \<Rightarrow>
          (let externalChanged = (infraChanged \<or> policyChanged \<or> targetChanged
                 \<or> list_ex (\<lambda>(target, _). map_of previousTargets target = None) nextTargets)
           in if externalChanged \<noteq> (ds_SnapshotRevision previous < ds_SnapshotRevision next)
              then Some SnapshotRevisionMismatch else None))"

definition max_epoch :: "(attemptRef \<Rightarrow> bool) \<Rightarrow> Controller \<Rightarrow> u64" where
  "max_epoch p c =
     fold (\<lambda>(ref, _) epoch. if p ref \<and> epoch < retryEpoch ref then retryEpoch ref else epoch) (ct_states c) 0"

fun ref_of_infrastructure :: "u64 \<Rightarrow> attemptRef \<Rightarrow> bool" where
  "ref_of_infrastructure revision (RefInfrastructure r _) = (r = revision)"
| "ref_of_infrastructure revision _ = False"

fun ref_of_policy :: "u64 \<Rightarrow> attemptRef \<Rightarrow> bool" where
  "ref_of_policy revision (RefPolicy r _) = (r = revision)"
| "ref_of_policy revision _ = False"

fun ref_of_target :: "Prefix \<Rightarrow> u64 \<Rightarrow> attemptRef \<Rightarrow> bool" where
  "ref_of_target target generation (RefTarget t g _) = (t = target \<and> g = generation)"
| "ref_of_target target generation _ = False"

definition activateHydratedState :: "Controller \<Rightarrow> Controller" where
  "activateHydratedState c =
     c\<lparr>ct_infrastructureEpoch := max_epoch (ref_of_infrastructure (ds_InfrastructureRevision (ct_desired c))) c,
       ct_policyEpoch := max_epoch (ref_of_policy (ds_PolicyRevision (ct_desired c))) c,
       ct_confirmedTargets := [],
       ct_targetEpochs :=
         fold (\<lambda>(target, intent). AList.update target (max_epoch (ref_of_target target (int_Generation intent)) c))
           (ct_desiredTargets c) (ct_targetEpochs c)\<rparr>"

definition SetDesiredSnapshot :: "DesiredFirewallSnapshot \<Rightarrow> Controller \<Rightarrow> desired_error option \<times> Controller" where
  "SetDesiredSnapshot snapshot c =
     (case prepareDesired snapshot of
        Inl e \<Rightarrow> (Some e, c)
      | Inr (prepared, targets) \<Rightarrow>
          (case (if ct_hasDesired c
                 then validateDesiredTransition (ct_desired c) (ct_desiredTargets c) prepared targets else None) of
             Some e \<Rightarrow> (Some e, c)
           | None \<Rightarrow>
               (None, activateHydratedState
                        (c\<lparr>ct_desired := prepared, ct_desiredTargets := targets, ct_hasDesired := True\<rparr>))))"

end
