(* ===== verification/Reconcile_State.thy ===== *)
theory Reconcile_State
  imports Reconcile_Model
begin

text \<open>
  The checks and computations the critical sections of the controller make on its state: whether a
  plan or a snapshot matches the desired state, which ledger entry an attempt uses, the observations
  to persist (\<^verbatim>\<open>observed_state.go\<close>), and hydration from the durable ledger (\<^verbatim>\<open>persistence.go\<close>).
\<close>

section \<open>Matching\<close>

definition planMatchesCurrentDesired :: "Controller \<Rightarrow> OperationPlan \<Rightarrow> bool" where
  "planMatchesCurrentDesired c plan \<longleftrightarrow>
     ct_hasDesired c \<and>
     (case op_Domain plan of
        DomainInfrastructure \<Rightarrow>
          op_ExpectedInfrastructureRevision plan = ds_InfrastructureRevision (ct_desired c)
          \<and> (\<not> op_FenceSnapshotRevision plan \<or> op_ExpectedSnapshotRevision plan = ds_SnapshotRevision (ct_desired c))
          \<and> op_DesiredInfrastructure plan = ds_Infrastructure (ct_desired c)
      | DomainPolicy \<Rightarrow>
          op_ExpectedPolicyRevision plan = ds_PolicyRevision (ct_desired c)
          \<and> policyIntentEqual (op_DesiredPolicy plan) (ds_Policy (ct_desired c))
      | DomainTarget \<Rightarrow>
          (case map_of (ct_desiredTargets c) (op_Target plan) of
             None \<Rightarrow> False
           | Some intent \<Rightarrow>
               op_ExpectedTargetGeneration plan = int_Generation intent
               \<and> int_Generation (op_DesiredTarget plan) = int_Generation intent
               \<and> Equivalent (op_DesiredTarget plan) intent)
      | Domain_other _ \<Rightarrow> False)"

definition nativeExpirySnapshotTolerance :: int where "nativeExpirySnapshotTolerance = 3000000000"

definition nativeExpiryMatchesIntent :: "time option \<Rightarrow> NormalizedTargetEnforcementIntent \<Rightarrow> bool" where
  "nativeExpiryMatchesIntent observed intent =
     (case (observed, NativeExpiryForIntent intent, int_EffectiveUntil intent) of
        (Some o1, Some want, Some _) \<Rightarrow> \<not> o1 < want - nativeExpirySnapshotTolerance \<and> \<not> want < o1
      | _ \<Rightarrow> observed = None \<and> NativeExpiryForIntent intent = None)"

definition expiry_matches :: "PhysicalTargetObserved \<Rightarrow> NormalizedTargetEnforcementIntent \<Rightarrow> bool" where
  "expiry_matches observed intent =
     (if int_TimeoutMode intent = TimeoutNative then nativeExpiryMatchesIntent (pto_NativeExpiry observed) intent
      else pto_NativeExpiry observed = None)"

definition wanted_coverage :: "PolicyCoverage \<Rightarrow> ObservedPolicyCoverage" where
  "wanted_coverage coverage =
     (if coverage = PolicyCoveragePartial then ObservedPolicyPartial
      else if coverage = PolicyCoverageFull then ObservedPolicyFull else ObservedPolicyNone)"

definition physicalTargetMatches ::
  "(Prefix \<times> PhysicalTargetObserved) list \<Rightarrow> NormalizedTargetEnforcementIntent \<Rightarrow> bool" where
  "physicalTargetMatches targets intent =
     (case map_of targets (int_CanonicalTarget intent) of
        None \<Rightarrow> int_BanMembership intent = BanAbsent
      | Some observed \<Rightarrow>
          if int_BanMembership intent = BanAbsent then
            pto_CanonicalTarget observed = int_CanonicalTarget intent
            \<and> IsZero (pto_ObservedAt observed) \<and> pto_Backend observed = []
            \<and> pto_BanMembership observed = ObservedMembershipAbsent
            \<and> pto_PolicyCoverage observed = ObservedPolicyUnknown \<and> pto_PolicyRelationDigest observed = []
            \<and> pto_TimeoutMode observed = TimeoutNone \<and> pto_NativeExpiry observed = None \<and> pto_Scopes observed = 0
            \<and> pto_AddressFamily observed = AddressFamily_other 0 \<and> pto_OwnerVersion observed = []
            \<and> pto_LastErrorCode observed = []
          else if pto_BanMembership observed \<noteq> ObservedMembershipPresent
                  \<or> pto_TimeoutMode observed \<noteq> int_TimeoutMode intent
                  \<or> pto_Scopes observed \<noteq> int_Scopes intent \<or> pto_AddressFamily observed \<noteq> int_AddressFamily intent
          then False
          else if pto_Evidence observed \<noteq> TargetObservationEvidenceManagedSnapshot
                  \<and> (pto_Evidence observed \<noteq> TargetObservationEvidenceComplete
                     \<or> pto_PolicyRelationDigest observed \<noteq> int_PolicyRelationDigest intent
                     \<or> pto_OwnerVersion observed \<noteq> int_BackendAttributesDigest intent)
          then False
          else if pto_Evidence observed = TargetObservationEvidenceManagedSnapshot then expiry_matches observed intent
          else if pto_PolicyCoverage observed \<noteq> wanted_coverage (int_PolicyCoverage intent) then False
          else expiry_matches observed intent)"

definition snapshotMatchesCurrentDesired :: "Controller \<Rightarrow> Snapshot \<Rightarrow> Domain \<Rightarrow> Prefix \<Rightarrow> bool" where
  "snapshotMatchesCurrentDesired c snapshot domain target \<longleftrightarrow>
     ct_hasDesired c \<and>
     (case domain of
        DomainInfrastructure \<Rightarrow>
          (case sn_Infrastructure snapshot of
             None \<Rightarrow> False
           | Some i \<Rightarrow> phi_Backend i = mi_Backend (ds_Infrastructure (ct_desired c))
                \<and> phi_OwnerVersion i = mi_OwnerVersion (ds_Infrastructure (ct_desired c))
                \<and> phi_Digest i = mi_Digest (ds_Infrastructure (ct_desired c)))
      | DomainPolicy \<Rightarrow>
          (case sn_Policy snapshot of
             None \<Rightarrow> False
           | Some p \<Rightarrow> php_RelationDigest p = mp_RelationDigest (ds_Policy (ct_desired c)))
      | DomainTarget \<Rightarrow>
          (case map_of (ct_desiredTargets c) target of
             None \<Rightarrow> False
           | Some intent \<Rightarrow> physicalTargetMatches (sn_Targets snapshot) intent)
      | Domain_other _ \<Rightarrow> False)"

definition pendingKeyMatchesCurrentDesired :: "Controller \<Rightarrow> pendingProbeKey \<Rightarrow> bool" where
  "pendingKeyMatchesCurrentDesired c key =
     (case pk_domain key of
        DomainInfrastructure \<Rightarrow>
          pk_infrastructureRevision key = ds_InfrastructureRevision (ct_desired c)
          \<and> (\<not> pk_fenceSnapshotRevision key \<or> pk_snapshotRevision key = ds_SnapshotRevision (ct_desired c))
      | DomainPolicy \<Rightarrow> pk_policyRevision key = ds_PolicyRevision (ct_desired c)
      | DomainTarget \<Rightarrow>
          (case map_of (ct_desiredTargets c) (pk_target key) of
             None \<Rightarrow> False
           | Some intent \<Rightarrow> pk_targetGeneration key = int_Generation intent)
      | Domain_other _ \<Rightarrow> False)"

section \<open>Ledger entries\<close>

text \<open>The ledger key of a plan; a plan of no known domain has none.\<close>

text \<open>
  No key for an unknown domain: the source returns an empty one there. \<^verbatim>\<open>ValidatePlan\<close> and the match with the
  desired state refuse such a plan before an attempt is looked up, and \<^verbatim>\<open>markInvalidPlan\<close> returns early.
\<close>

definition attemptState :: "Controller \<Rightarrow> OperationPlan \<Rightarrow> attemptRef option" where
  "attemptState c plan =
     (case op_Domain plan of
        DomainInfrastructure \<Rightarrow> Some (RefInfrastructure (op_ExpectedInfrastructureRevision plan) (ct_infrastructureEpoch c))
      | DomainPolicy \<Rightarrow> Some (RefPolicy (op_ExpectedPolicyRevision plan) (ct_policyEpoch c))
      | DomainTarget \<Rightarrow> Some (RefTarget (op_Target plan) (op_ExpectedTargetGeneration plan) (target_epoch c (op_Target plan)))
      | Domain_other _ \<Rightarrow> None)"

definition current_ref :: "Controller \<Rightarrow> Domain \<Rightarrow> Prefix \<Rightarrow> attemptRef option" where
  "current_ref c domain target =
     (case domain of
        DomainInfrastructure \<Rightarrow> Some (RefInfrastructure (ds_InfrastructureRevision (ct_desired c)) (ct_infrastructureEpoch c))
      | DomainPolicy \<Rightarrow> Some (RefPolicy (ds_PolicyRevision (ct_desired c)) (ct_policyEpoch c))
      | DomainTarget \<Rightarrow>
          map_option (\<lambda>intent. RefTarget target (int_Generation intent) (target_epoch c target))
            (map_of (ct_desiredTargets c) target)
      | Domain_other _ \<Rightarrow> None)"

definition currentAttemptRefForKey :: "Controller \<Rightarrow> ReconcileKey \<Rightarrow> attemptRef option" where
  "currentAttemptRefForKey c key = current_ref c (rk_Domain key) (rk_Target key)"

definition currentStateForPendingKey :: "Controller \<Rightarrow> pendingProbeKey \<Rightarrow> (attemptRef \<times> RetryState) option" where
  "currentStateForPendingKey c key =
     (case current_ref c (pk_domain key) (pk_target key) of
        None \<Rightarrow> None
      | Some ref \<Rightarrow> map_option (\<lambda>s. (ref, s)) (stateForRef c ref))"

definition markPendingRefsSuperseded :: "attemptRef \<Rightarrow> Controller \<Rightarrow> Controller" where
  "markPendingRefsSuperseded current c =
     c\<lparr>ct_syntheticRefs :=
        fold (\<lambda>(_, pending) refs.
               if pending = current \<or> ref_domain pending \<noteq> ref_domain current then refs
               else if sameAttemptPhysicalKey pending current then List.insert pending refs else refs)
          (ct_pendingProbes c) (ct_syntheticRefs c)\<rparr>"

section \<open>The durable ledger\<close>

datatype ReconcileDomain =
  ReconcileDomainInfrastructure | ReconcileDomainPolicy | ReconcileDomainTarget | ReconcileDomain_other u8

record PersistedReconcileState =
  prs_NodeID :: string
  prs_Domain :: ReconcileDomain
  prs_InfrastructureRevision :: u64
  prs_PolicyRevision :: u64
  prs_Target :: Prefix
  prs_TargetGeneration :: u64
  prs_RetryEpoch :: u64
  prs_RetryState :: RetryState
  prs_UpdatedAt :: time

record PersistedProbeRequirement =
  ppr_NodeID :: string
  ppr_Domain :: ReconcileDomain
  ppr_InfrastructureRevision :: u64
  ppr_PolicyRevision :: u64
  ppr_Target :: Prefix
  ppr_TargetGeneration :: u64
  ppr_SnapshotRevision :: u64
  ppr_FenceSnapshotRevision :: bool
  ppr_RetryEpoch :: u64
  ppr_AttemptCount :: nat
  ppr_RecordedAt :: time

record ReconcileStateTransition =
  rst_State :: "PersistedReconcileState option"
  rst_UpsertProbe :: "PersistedProbeRequirement option"
  rst_DeleteProbe :: "PersistedProbeRequirement option"
  rst_Observed :: "ObservedFirewallUpdate option"

record ReconcileRecoverySnapshot =
  rrs_States :: "PersistedReconcileState list"
  rrs_ProbeRequirements :: "PersistedProbeRequirement list"

fun coreDomain :: "Domain \<Rightarrow> ReconcileDomain" where
  "coreDomain DomainInfrastructure = ReconcileDomainInfrastructure"
| "coreDomain DomainPolicy = ReconcileDomainPolicy"
| "coreDomain DomainTarget = ReconcileDomainTarget"
| "coreDomain (Domain_other _) = ReconcileDomain_other 0"

fun fakeDomain :: "ReconcileDomain \<Rightarrow> Domain" where
  "fakeDomain ReconcileDomainInfrastructure = DomainInfrastructure"
| "fakeDomain ReconcileDomainPolicy = DomainPolicy"
| "fakeDomain ReconcileDomainTarget = DomainTarget"
| "fakeDomain (ReconcileDomain_other _) = Domain_other 0"

fun persistedState :: "string \<Rightarrow> time \<Rightarrow> attemptRef \<Rightarrow> RetryState \<Rightarrow> PersistedReconcileState" where
  "persistedState node now (RefInfrastructure r e) state =
     \<lparr> prs_NodeID = node, prs_Domain = ReconcileDomainInfrastructure, prs_InfrastructureRevision = r,
       prs_PolicyRevision = 0, prs_Target = zero_prefix, prs_TargetGeneration = 0, prs_RetryEpoch = e,
       prs_RetryState = state, prs_UpdatedAt = now \<rparr>"
| "persistedState node now (RefPolicy r e) state =
     \<lparr> prs_NodeID = node, prs_Domain = ReconcileDomainPolicy, prs_InfrastructureRevision = 0,
       prs_PolicyRevision = r, prs_Target = zero_prefix, prs_TargetGeneration = 0, prs_RetryEpoch = e,
       prs_RetryState = state, prs_UpdatedAt = now \<rparr>"
| "persistedState node now (RefTarget t g e) state =
     \<lparr> prs_NodeID = node, prs_Domain = ReconcileDomainTarget, prs_InfrastructureRevision = 0,
       prs_PolicyRevision = 0, prs_Target = t, prs_TargetGeneration = g, prs_RetryEpoch = e,
       prs_RetryState = state, prs_UpdatedAt = now \<rparr>"

definition persistedProbe :: "string \<Rightarrow> time \<Rightarrow> pendingProbeKey \<Rightarrow> attemptRef \<Rightarrow> nat \<Rightarrow> PersistedProbeRequirement" where
  "persistedProbe node now key ref attemptCount =
     \<lparr> ppr_NodeID = node, ppr_Domain = coreDomain (pk_domain key),
       ppr_InfrastructureRevision = pk_infrastructureRevision key, ppr_PolicyRevision = pk_policyRevision key,
       ppr_Target = pk_target key, ppr_TargetGeneration = pk_targetGeneration key,
       ppr_SnapshotRevision = pk_snapshotRevision key, ppr_FenceSnapshotRevision = pk_fenceSnapshotRevision key,
       ppr_RetryEpoch = retryEpoch ref, ppr_AttemptCount = attemptCount, ppr_RecordedAt = now \<rparr>"

datatype hydrate_error =
    ForeignNode | ZeroRevision | InvalidTargetKey | InvalidDomain | InvalidRetryState | InvalidAttemptCount
  | DuplicateProbe | AttemptMismatch | IncompatibleStatus | MissingProbe

definition ref_from_parts ::
  "ReconcileDomain \<Rightarrow> u64 \<Rightarrow> u64 \<Rightarrow> Prefix \<Rightarrow> u64 \<Rightarrow> u64 \<Rightarrow> hydrate_error + attemptRef" where
  "ref_from_parts domain infrastructureRevision policyRevision target generation epoch =
     (case domain of
        ReconcileDomainInfrastructure \<Rightarrow>
          if infrastructureRevision = 0 then Inl ZeroRevision else Inr (RefInfrastructure infrastructureRevision epoch)
      | ReconcileDomainPolicy \<Rightarrow>
          if policyRevision = 0 then Inl ZeroRevision else Inr (RefPolicy policyRevision epoch)
      | ReconcileDomainTarget \<Rightarrow>
          if \<not> Prefix_IsValid target \<or> target \<noteq> Masked target \<or> generation = 0 then Inl InvalidTargetKey
          else Inr (RefTarget target generation epoch)
      | ReconcileDomain_other _ \<Rightarrow> Inl InvalidDomain)"

definition attemptRefFromPersistedState :: "PersistedReconcileState \<Rightarrow> hydrate_error + attemptRef" where
  "attemptRefFromPersistedState p =
     ref_from_parts (prs_Domain p) (prs_InfrastructureRevision p) (prs_PolicyRevision p) (prs_Target p)
       (prs_TargetGeneration p) (prs_RetryEpoch p)"

definition pendingProbeFromPersisted :: "PersistedProbeRequirement \<Rightarrow> hydrate_error + pendingProbeKey \<times> attemptRef" where
  "pendingProbeFromPersisted r =
     bind_result (ref_from_parts (ppr_Domain r) (ppr_InfrastructureRevision r) (ppr_PolicyRevision r) (ppr_Target r)
                    (ppr_TargetGeneration r) (ppr_RetryEpoch r)) (\<lambda>ref.
     if ppr_AttemptCount r = 0 \<or> maxMutationAttempts < ppr_AttemptCount r then Inl InvalidAttemptCount
     else Inr (\<lparr> pk_domain = fakeDomain (ppr_Domain r), pk_target = ppr_Target r,
                 pk_infrastructureRevision = ppr_InfrastructureRevision r, pk_policyRevision = ppr_PolicyRevision r,
                 pk_targetGeneration = ppr_TargetGeneration r, pk_snapshotRevision = ppr_SnapshotRevision r,
                 pk_fenceSnapshotRevision = ppr_FenceSnapshotRevision r \<rparr>, ref))"

definition validateRecoveredRetryState :: "RetryState \<Rightarrow> hydrate_error option" where
  "validateRecoveredRetryState s =
     (if (case rs_Status s of ReconcileStatus_other _ \<Rightarrow> True | _ \<Rightarrow> False) then Some InvalidRetryState
      else if maxMutationAttempts < rs_AttemptCount s then Some InvalidRetryState
      else if rs_AttemptCount s = 0 \<and> rs_LastAttemptAt s \<noteq> None then Some InvalidRetryState
      else if rs_Status s = ReconcileApplying
              \<and> (rs_AttemptCount s = 0 \<or> rs_LastAttemptAt s = None \<or> rs_NextAttemptAt s \<noteq> None)
      then Some InvalidRetryState
      else if rs_Status s = ReconcileRetryWaiting
              \<and> (rs_AttemptCount s = 0 \<or> rs_LastAttemptAt s = None \<or> rs_NextAttemptAt s = None)
      then Some InvalidRetryState
      else if (case (rs_NextAttemptAt s, rs_LastAttemptAt s) of (Some n, Some l) \<Rightarrow> \<not> l < n | _ \<Rightarrow> False)
      then Some InvalidRetryState
      else if (rs_Status s = ReconcileConverged \<or> rs_Status s = ReconcileDegraded) \<and> rs_NextAttemptAt s \<noteq> None
      then Some InvalidRetryState
      else None)"

text \<open>An attempt that was being applied when the process ended has failed and waits for its backoff.\<close>

definition recovered_state :: "RetryState \<Rightarrow> RetryState" where
  "recovered_state s =
     (if rs_Status s = ReconcileApplying then
        (if maxMutationAttempts \<le> rs_AttemptCount s then s\<lparr>rs_Status := ReconcileDegraded, rs_NextAttemptAt := None\<rparr>
         else (case (backoff (rs_AttemptCount s), rs_LastAttemptAt s) of
                 (Some d, Some l) \<Rightarrow> s\<lparr>rs_Status := ReconcileRetryWaiting, rs_NextAttemptAt := Some (l + d)\<rparr>
               | _ \<Rightarrow> s))
      else s)"

fun hydrate_states :: "PersistedReconcileState list \<Rightarrow> Controller \<Rightarrow> hydrate_error + Controller" where
  "hydrate_states [] c = Inr c"
| "hydrate_states (p # ps) c =
     (if prs_NodeID p \<noteq> ct_nodeID c then Inl ForeignNode
      else bind_result (attemptRefFromPersistedState p) (\<lambda>ref.
        case validateRecoveredRetryState (prs_RetryState p) of
          Some e \<Rightarrow> Inl e
        | None \<Rightarrow> hydrate_states ps (putState ref (recovered_state (prs_RetryState p)) c)))"

fun hydrate_probes :: "PersistedProbeRequirement list \<Rightarrow> Controller \<Rightarrow> hydrate_error + Controller" where
  "hydrate_probes [] c = Inr c"
| "hydrate_probes (r # rs) c =
     (if ppr_NodeID r \<noteq> ct_nodeID c then Inl ForeignNode
      else bind_result (pendingProbeFromPersisted r) (\<lambda>(key, ref).
        if map_of (ct_pendingProbes c) key \<noteq> None then Inl DuplicateProbe
        else case stateForRef c ref of
          Some state \<Rightarrow>
            if rs_AttemptCount state \<noteq> ppr_AttemptCount r then Inl AttemptMismatch
            else if rs_Status state \<noteq> ReconcileApplying \<and> rs_Status state \<noteq> ReconcileRetryWaiting
                    \<and> rs_Status state \<noteq> ReconcileDegraded
            then Inl IncompatibleStatus
            else hydrate_probes rs (put_pending key ref c)
        | None \<Rightarrow>
            (let c1 = putState ref (zero_retry\<lparr>rs_Status := ReconcileApplying, rs_AttemptCount := ppr_AttemptCount r\<rparr>) c
             in hydrate_probes rs (put_pending key ref (c1\<lparr>ct_syntheticRefs := List.insert ref (ct_syntheticRefs c1)\<rparr>)))))"

definition hydrateRecovery :: "ReconcileRecoverySnapshot \<Rightarrow> Controller \<Rightarrow> hydrate_error + Controller" where
  "hydrateRecovery recovery c =
     bind_result (hydrate_states (rrs_States recovery) c) (\<lambda>c1.
     bind_result (hydrate_probes (rrs_ProbeRequirements recovery) c1) (\<lambda>c2.
     if list_all (\<lambda>p. rs_Status (prs_RetryState p) \<noteq> ReconcileApplying
                      \<or> (case attemptRefFromPersistedState p of Inr ref \<Rightarrow> hasPendingRef c2 ref | Inl _ \<Rightarrow> False))
          (rrs_States recovery)
     then Inr c2 else Inl MissingProbe))"

definition replaceRecovery :: "ReconcileRecoverySnapshot \<Rightarrow> Controller \<Rightarrow> hydrate_error + Controller" where
  "replaceRecovery recovery c =
     bind_result (hydrateRecovery recovery (NewController\<lparr>ct_nodeID := ct_nodeID c\<rparr>)) (\<lambda>replacement.
     let c1 = c\<lparr>ct_states := ct_states replacement, ct_pendingProbes := ct_pendingProbes replacement,
                ct_syntheticRefs := ct_syntheticRefs replacement,
                ct_startupProbeRequired := (rrs_States recovery \<noteq> [] \<or> rrs_ProbeRequirements recovery \<noteq> [])\<rparr>
     in Inr (if ct_hasDesired c1 then activateHydratedState c1 else c1))"

section \<open>Reading back an indeterminate commit\<close>

definition equalPersistedTime :: "time option \<Rightarrow> time option \<Rightarrow> bool" where
  "equalPersistedTime left right =
     (case (left, right) of (Some l, Some r) \<Rightarrow> UnixMicro l = UnixMicro r | _ \<Rightarrow> left = None \<and> right = None)"

definition samePersistedState :: "PersistedReconcileState \<Rightarrow> PersistedReconcileState \<Rightarrow> bool" where
  "samePersistedState left right \<longleftrightarrow>
     prs_NodeID left = prs_NodeID right \<and> prs_Domain left = prs_Domain right
     \<and> prs_InfrastructureRevision left = prs_InfrastructureRevision right
     \<and> prs_PolicyRevision left = prs_PolicyRevision right \<and> prs_Target left = prs_Target right
     \<and> prs_TargetGeneration left = prs_TargetGeneration right \<and> prs_RetryEpoch left = prs_RetryEpoch right
     \<and> rs_Status (prs_RetryState left) = rs_Status (prs_RetryState right)
     \<and> rs_AttemptCount (prs_RetryState left) = rs_AttemptCount (prs_RetryState right)
     \<and> equalPersistedTime (rs_LastAttemptAt (prs_RetryState left)) (rs_LastAttemptAt (prs_RetryState right))
     \<and> equalPersistedTime (rs_NextAttemptAt (prs_RetryState left)) (rs_NextAttemptAt (prs_RetryState right))
     \<and> rs_LastErrorCode (prs_RetryState left) = rs_LastErrorCode (prs_RetryState right)"

definition recoveryHasProbe :: "ReconcileRecoverySnapshot \<Rightarrow> PersistedProbeRequirement \<Rightarrow> bool" where
  "recoveryHasProbe recovery expected \<longleftrightarrow>
     list_ex (\<lambda>probe. probe\<lparr>ppr_RecordedAt := 0\<rparr> = expected\<lparr>ppr_RecordedAt := 0\<rparr>) (rrs_ProbeRequirements recovery)"

definition reconcileTransitionApplied :: "ReconcileRecoverySnapshot \<Rightarrow> ReconcileStateTransition \<Rightarrow> bool" where
  "reconcileTransitionApplied recovery transition \<longleftrightarrow>
     (case rst_State transition of
        None \<Rightarrow> True | Some s \<Rightarrow> list_ex (\<lambda>state. samePersistedState state s) (rrs_States recovery))
     \<and> (case rst_UpsertProbe transition of None \<Rightarrow> True | Some p \<Rightarrow> recoveryHasProbe recovery p)
     \<and> (case rst_DeleteProbe transition of None \<Rightarrow> True | Some p \<Rightarrow> \<not> recoveryHasProbe recovery p)"

type_synonym ObservedFirewallSnapshot = ObservedFirewallUpdate

definition equalObservedTime :: "time \<Rightarrow> time \<Rightarrow> bool" where
  "equalObservedTime left right \<longleftrightarrow> UnixMicro left = UnixMicro right"

definition sameInfrastructureObserved :: "InfrastructureObservedState \<Rightarrow> InfrastructureObservedState \<Rightarrow> bool" where
  "sameInfrastructureObserved left right \<longleftrightarrow>
     ios_Presence left = ios_Presence right \<and> equalObservedTime (ios_ObservedAt left) (ios_ObservedAt right)
     \<and> ios_Backend left = ios_Backend right \<and> ios_OwnerVersion left = ios_OwnerVersion right
     \<and> ios_Digest left = ios_Digest right \<and> ios_ConfirmedRevision left = ios_ConfirmedRevision right
     \<and> ios_LastErrorCode left = ios_LastErrorCode right"

definition samePolicyObserved :: "PolicyObservedState \<Rightarrow> PolicyObservedState \<Rightarrow> bool" where
  "samePolicyObserved left right \<longleftrightarrow>
     pos_Presence left = pos_Presence right \<and> equalObservedTime (pos_ObservedAt left) (pos_ObservedAt right)
     \<and> pos_RelationDigest left = pos_RelationDigest right \<and> pos_ConfirmedRevision left = pos_ConfirmedRevision right
     \<and> pos_LastErrorCode left = pos_LastErrorCode right"

definition sameTargetObserved :: "TargetObservedState \<Rightarrow> TargetObservedState \<Rightarrow> bool" where
  "sameTargetObserved left right \<longleftrightarrow>
     pto_CanonicalTarget left = pto_CanonicalTarget right \<and> equalObservedTime (pto_ObservedAt left) (pto_ObservedAt right)
     \<and> pto_Backend left = pto_Backend right \<and> pto_BanMembership left = pto_BanMembership right
     \<and> pto_PolicyCoverage left = pto_PolicyCoverage right
     \<and> pto_PolicyRelationDigest left = pto_PolicyRelationDigest right
     \<and> pto_TimeoutMode left = pto_TimeoutMode right
     \<and> equalPersistedTime (pto_NativeExpiry left) (pto_NativeExpiry right)
     \<and> pto_Scopes left = pto_Scopes right \<and> pto_AddressFamily left = pto_AddressFamily right
     \<and> pto_OwnerVersion left = pto_OwnerVersion right \<and> pto_LastErrorCode left = pto_LastErrorCode right
     \<and> tos_ConfirmedGeneration left = tos_ConfirmedGeneration right"

definition observedUpdateApplied :: "ObservedFirewallSnapshot \<Rightarrow> ObservedFirewallUpdate \<Rightarrow> bool" where
  "observedUpdateApplied snapshot update \<longleftrightarrow>
     ofu_NodeID snapshot = ofu_NodeID update
     \<and> (case (ofu_Infrastructure update, ofu_Infrastructure snapshot) of
          (None, _) \<Rightarrow> True | (Some _, None) \<Rightarrow> False | (Some u, Some s) \<Rightarrow> sameInfrastructureObserved s u)
     \<and> (case (ofu_Policy update, ofu_Policy snapshot) of
          (None, _) \<Rightarrow> True | (Some _, None) \<Rightarrow> False | (Some u, Some s) \<Rightarrow> samePolicyObserved s u)
     \<and> list_all (\<lambda>expected.
          case find (\<lambda>actual. pto_CanonicalTarget actual = pto_CanonicalTarget expected) (ofu_Targets snapshot) of
            None \<Rightarrow> False | Some actual \<Rightarrow> sameTargetObserved actual expected) (ofu_Targets update)"

section \<open>Observations\<close>

definition probeFailureErrorCode :: string where "probeFailureErrorCode = ''backend_probe_failed''"

definition blank_target :: "Prefix \<Rightarrow> ObservedMembership \<Rightarrow> PhysicalTargetObserved" where
  "blank_target target membership =
     \<lparr> pto_CanonicalTarget = target, pto_ObservedAt = 0, pto_Evidence = TargetObservationEvidenceComplete,
       pto_Backend = [], pto_BanMembership = membership, pto_PolicyCoverage = ObservedPolicyUnknown,
       pto_PolicyRelationDigest = [], pto_TimeoutMode = TimeoutNone, pto_NativeExpiry = None, pto_Scopes = 0,
       pto_AddressFamily = AddressFamily_other 0, pto_OwnerVersion = [], pto_LastErrorCode = [] \<rparr>"

definition sorted_targets :: "Controller \<Rightarrow> Prefix list" where
  "sorted_targets c = sort_key Prefix_String (map fst (ct_desiredTargets c))"

definition infrastructure_observed :: "Controller \<Rightarrow> time \<Rightarrow> Snapshot \<Rightarrow> InfrastructureObservedState" where
  "infrastructure_observed c at snapshot =
     (case sn_Infrastructure snapshot of
        None \<Rightarrow> \<lparr> ios_Presence = ObservedPresenceAbsent, ios_ObservedAt = at, ios_Backend = [], ios_OwnerVersion = [],
                  ios_Digest = [], ios_ConfirmedRevision = 0, ios_LastErrorCode = [] \<rparr>
      | Some i \<Rightarrow> \<lparr> ios_Presence = ObservedPresencePresent, ios_ObservedAt = at, ios_Backend = phi_Backend i,
                    ios_OwnerVersion = phi_OwnerVersion i, ios_Digest = phi_Digest i,
                    ios_ConfirmedRevision =
                      (if snapshotMatchesCurrentDesired c snapshot DomainInfrastructure zero_prefix
                       then ds_InfrastructureRevision (ct_desired c) else 0),
                    ios_LastErrorCode = [] \<rparr>)"

definition policy_observed :: "Controller \<Rightarrow> time \<Rightarrow> Snapshot \<Rightarrow> PolicyObservedState" where
  "policy_observed c at snapshot =
     (case sn_Policy snapshot of
        None \<Rightarrow> \<lparr> pos_Presence = ObservedPresenceAbsent, pos_ObservedAt = at, pos_RelationDigest = [],
                  pos_ConfirmedRevision = 0, pos_LastErrorCode = [] \<rparr>
      | Some p \<Rightarrow> \<lparr> pos_Presence = ObservedPresencePresent, pos_ObservedAt = at,
                    pos_RelationDigest = php_RelationDigest p,
                    pos_ConfirmedRevision =
                      (if snapshotMatchesCurrentDesired c snapshot DomainPolicy zero_prefix
                       then ds_PolicyRevision (ct_desired c) else 0),
                    pos_LastErrorCode = [] \<rparr>)"

definition target_observed :: "Controller \<Rightarrow> time \<Rightarrow> Snapshot \<Rightarrow> Prefix \<Rightarrow> TargetObservedState" where
  "target_observed c at snapshot target =
     (let physical = (case map_of (sn_Targets snapshot) target of
                        None \<Rightarrow> blank_target target ObservedMembershipAbsent
                      | Some p \<Rightarrow> p\<lparr>pto_CanonicalTarget := target\<rparr>)
      in PhysicalTargetObserved.extend (physical\<lparr>pto_ObservedAt := at\<rparr>)
           (TargetObservedState.fields
              (if snapshotMatchesCurrentDesired c snapshot DomainTarget target
               then (case map_of (ct_desiredTargets c) target of None \<Rightarrow> 0 | Some i \<Rightarrow> int_Generation i) else 0)))"

definition snapshot_update :: "Controller \<Rightarrow> time \<Rightarrow> Snapshot \<Rightarrow> ObservedFirewallUpdate" where
  "snapshot_update c at snapshot =
     \<lparr> ofu_NodeID = ct_nodeID c, ofu_Infrastructure = Some (infrastructure_observed c at snapshot),
       ofu_Policy = Some (policy_observed c at snapshot),
       ofu_Targets = map (target_observed c at snapshot) (sorted_targets c) \<rparr>"

definition unknown_infrastructure :: "time \<Rightarrow> string \<Rightarrow> InfrastructureObservedState" where
  "unknown_infrastructure at code =
     \<lparr> ios_Presence = ObservedPresenceUnknown, ios_ObservedAt = at, ios_Backend = [], ios_OwnerVersion = [],
       ios_Digest = [], ios_ConfirmedRevision = 0, ios_LastErrorCode = code \<rparr>"

definition unknown_policy :: "time \<Rightarrow> string \<Rightarrow> PolicyObservedState" where
  "unknown_policy at code =
     \<lparr> pos_Presence = ObservedPresenceUnknown, pos_ObservedAt = at, pos_RelationDigest = [],
       pos_ConfirmedRevision = 0, pos_LastErrorCode = code \<rparr>"

definition unknown_target :: "time \<Rightarrow> string \<Rightarrow> Prefix \<Rightarrow> TargetObservedState" where
  "unknown_target at code target =
     PhysicalTargetObserved.extend
       ((blank_target target ObservedMembershipUnknown)\<lparr>pto_ObservedAt := at, pto_LastErrorCode := code\<rparr>)
       (TargetObservedState.fields 0)"

definition error_code_or_default :: "string \<Rightarrow> string" where
  "error_code_or_default code = (if code = [] then probeFailureErrorCode else code)"

definition all_unknown_update :: "Controller \<Rightarrow> time \<Rightarrow> string \<Rightarrow> ObservedFirewallUpdate" where
  "all_unknown_update c at code =
     \<lparr> ofu_NodeID = ct_nodeID c, ofu_Infrastructure = Some (unknown_infrastructure at code),
       ofu_Policy = Some (unknown_policy at code), ofu_Targets = map (unknown_target at code) (sorted_targets c) \<rparr>"

definition unknown_update :: "Controller \<Rightarrow> time \<Rightarrow> string \<Rightarrow> Domain \<Rightarrow> Prefix \<Rightarrow> ObservedFirewallUpdate" where
  "unknown_update c at code domain target =
     \<lparr> ofu_NodeID = ct_nodeID c,
       ofu_Infrastructure = (if domain = DomainInfrastructure then Some (unknown_infrastructure at code) else None),
       ofu_Policy = (if domain = DomainPolicy then Some (unknown_policy at code) else None),
       ofu_Targets = (if domain = DomainTarget then [unknown_target at code target] else []) \<rparr>"

end
