(* ===== verification/Reconcile_Controller.thy ===== *)
theory Reconcile_Controller
  imports Reconcile_State "HOL-Library.State_Monad"
begin

text \<open>
  The operations of the reconcile controller (\<^verbatim>\<open>controller.go\<close>, \<^verbatim>\<open>persistence.go\<close>, \<^verbatim>\<open>observed_state.go\<close>) in
  the state monad. The clock, the backend, the audit writer, the store and the two digests are
  parameters over an abstract world. \<^verbatim>\<open>mutationMu\<close> makes the operations sequential; between two critical
  sections of one of them the state mutex is free and \<^verbatim>\<open>SetDesiredSnapshot\<close> may run, which \<open>locked\<close> makes
  explicit by letting the world publish any snapshots before a section. The log records the calls of
  the backend and the attempts begun, in order.
\<close>

section \<open>Boundaries\<close>

datatype store_error = ErrReconcileCommitUnknown | ErrReconcileStateRegression | StoreUnavailable

datatype reconcile_error =
    ErrInvalidPlan | ErrStalePlan | ErrStaleCompletion | ErrRetryNotReady | ErrBudgetExhausted
  | ErrTargetIntentExpired | BackendFailed | StoreFailed store_error | HydrateFailed hydrate_error
  | ObservedInvalid observed_error | TargetNotDesired | DomainNotSupported | PendingStateMissing
  | ApplyResultUnsupported | DesiredMissing | EpochOverflow | AuditFailed | ForeignObserved
  | ProbeTimeoutNotPositive
  | Joined reconcile_error reconcile_error | IndexOutOfRange

fun is_error :: "store_error \<Rightarrow> reconcile_error \<Rightarrow> bool" where
  "is_error e (StoreFailed f) = (f = e)"
| "is_error e (Joined a b) = (is_error e a \<or> is_error e b)"
| "is_error e _ = False"

definition join_errors :: "reconcile_error \<Rightarrow> reconcile_error option \<Rightarrow> reconcile_error" where
  "join_errors e f = (case f of None \<Rightarrow> e | Some g \<Rightarrow> Joined e g)"

record ReconcileRetryAudit =
  rra_ID :: string
  rra_IdempotencyKey :: string
  rra_NodeID :: string
  rra_ActorType :: string
  rra_PreviousEpoch :: u64
  rra_OccurredAt :: time

record ReconcileRetryTransition =
  rrt_State :: PersistedReconcileState
  rrt_Audit :: ReconcileRetryAudit

record CriticalAuditEvent =
  cae_Action :: string
  cae_Domain :: Domain
  cae_Target :: Prefix
  cae_PreviousEpoch :: u64
  cae_NewEpoch :: u64
  cae_OccurredAt :: time

record 'w PersistentStateStore =
  ss_LoadReconcileRecovery :: "string \<Rightarrow> 'w \<Rightarrow> (store_error + ReconcileRecoverySnapshot) \<times> 'w"
  ss_ApplyReconcileTransition :: "ReconcileStateTransition \<Rightarrow> 'w \<Rightarrow> store_error option \<times> 'w"
  ss_ApplyReconcileRetryTransition :: "ReconcileRetryTransition \<Rightarrow> 'w \<Rightarrow> store_error option \<times> 'w"
  ss_ReadReconcileRetryTransition ::
    "ReconcileRetryTransition \<Rightarrow> 'w \<Rightarrow> (store_error + ReconcileRecoverySnapshot \<times> bool) \<times> 'w"
  ss_LoadObservedFirewallSnapshot :: "string \<Rightarrow> 'w \<Rightarrow> (store_error + ObservedFirewallSnapshot) \<times> 'w"
  ss_ApplyObservedFirewallUpdate :: "ObservedFirewallUpdate \<Rightarrow> 'w \<Rightarrow> store_error option \<times> 'w"

text \<open>
  \<open>bd_Publish\<close> yields the snapshots that concurrent callers pass to \<^verbatim>\<open>SetDesiredSnapshot\<close>, and
  \<open>bd_Range\<close> the order in which a \<^verbatim>\<open>range\<close> loop visits the pending probes.
\<close>

record 'w Boundary =
  bd_Now :: "'w \<Rightarrow> time \<times> 'w"
  bd_Probe :: "'w \<Rightarrow> Snapshot option \<times> 'w"
  bd_Apply :: "OperationPlan \<Rightarrow> 'w \<Rightarrow> ApplyResult option \<times> 'w"
  bd_RequiresFreshBasis :: bool
  bd_AppendCriticalAudit :: "CriticalAuditEvent \<Rightarrow> 'w \<Rightarrow> bool \<times> 'w"
  bd_Store :: "'w PersistentStateStore option"
  bd_Publish :: "'w \<Rightarrow> DesiredFirewallSnapshot list \<times> 'w"
  bd_Range :: "(pendingProbeKey \<times> attemptRef) list \<Rightarrow> (pendingProbeKey \<times> attemptRef) list"
  bd_PlanDigest :: "OperationPlan \<Rightarrow> string"
  bd_SnapshotDigest :: "Snapshot \<Rightarrow> string"

datatype call =
    Probed "Snapshot option"
  | Begun attemptRef nat
  | Applied OperationPlan
  | Confirmed Prefix u64 "NormalizedTargetEnforcementIntent option" Snapshot

record 'w system =
  sys_controller :: Controller
  sys_world :: 'w
  sys_log :: "call list"

type_synonym ('w, 'a) act = "('w system, 'a) state"

definition get_controller :: "('w, Controller) act" where
  "get_controller = State (\<lambda>s. (sys_controller s, s))"

definition update_controller :: "(Controller \<Rightarrow> Controller) \<Rightarrow> ('w, unit) act" where
  "update_controller f = State (\<lambda>s. ((), s\<lparr>sys_controller := f (sys_controller s)\<rparr>))"

definition ask :: "('w \<Rightarrow> 'a \<times> 'w) \<Rightarrow> ('w, 'a) act" where
  "ask f = State (\<lambda>s. case f (sys_world s) of (a, w) \<Rightarrow> (a, s\<lparr>sys_world := w\<rparr>))"

definition log_call :: "call \<Rightarrow> ('w, unit) act" where
  "log_call x = State (\<lambda>s. ((), s\<lparr>sys_log := sys_log s @ [x]\<rparr>))"

text \<open>A confirmation is logged with the intent that is desired for the target at that moment.\<close>

definition log_confirmed :: "Prefix \<Rightarrow> u64 \<Rightarrow> Snapshot \<Rightarrow> ('w, unit) act" where
  "log_confirmed target generation snapshot = do {
     c \<leftarrow> get_controller;
     log_call (Confirmed target generation (map_of (ct_desiredTargets c) target) snapshot)
   }"

definition ok :: "'a \<Rightarrow> ('s, 'e + 'a) state" where "ok x = State_Monad.return (Inr x)"

definition fail :: "'e \<Rightarrow> ('s, 'e + 'a) state" where "fail e = State_Monad.return (Inl e)"

text \<open>Sequencing of operations that may fail, with the two shapes of Go results.\<close>

definition andThen :: "('s, 'e + 'a) state \<Rightarrow> ('a \<Rightarrow> ('s, 'e + 'b) state) \<Rightarrow> ('s, 'e + 'b) state" where
  "andThen m f = do { r \<leftarrow> m; (case r of Inl e \<Rightarrow> fail e | Inr x \<Rightarrow> f x) }"

definition unless_error :: "('s, 'e option) state \<Rightarrow> ('s, 'e + 'b) state \<Rightarrow> ('s, 'e + 'b) state" where
  "unless_error m k = do { r \<leftarrow> m; (case r of Some e \<Rightarrow> fail e | None \<Rightarrow> k) }"

definition now :: "'w Boundary \<Rightarrow> ('w, time) act" where "now B = ask (bd_Now B)"

definition probe :: "'w Boundary \<Rightarrow> ('w, Snapshot option) act" where
  "probe B = do { r \<leftarrow> ask (bd_Probe B); _ \<leftarrow> log_call (Probed r); State_Monad.return r }"

definition publish :: "'w Boundary \<Rightarrow> ('w, unit) act" where
  "publish B = do {
     snapshots \<leftarrow> ask (bd_Publish B);
     update_controller (fold (\<lambda>snapshot c. snd (SetDesiredSnapshot snapshot c)) snapshots)
   }"

definition locked :: "'w Boundary \<Rightarrow> ('w, 'a) act \<Rightarrow> ('w, 'a) act" where
  "locked B m = do { _ \<leftarrow> publish B; m }"

section \<open>Persistence\<close>

definition applyTransition :: "'w Boundary \<Rightarrow> 'w PersistentStateStore \<Rightarrow> ReconcileStateTransition \<Rightarrow> ('w, reconcile_error option) act" where
  "applyTransition B st transition = do {
     r \<leftarrow> ask (ss_ApplyReconcileTransition st transition);
     if r \<noteq> Some ErrReconcileCommitUnknown then State_Monad.return (map_option StoreFailed r)
     else do {
       c \<leftarrow> get_controller;
       l \<leftarrow> ask (ss_LoadReconcileRecovery st (ct_nodeID c));
       case l of
         Inl e \<Rightarrow> do {
           _ \<leftarrow> update_controller (\<lambda>c. c\<lparr>ct_recoveryReloadNeeded := True\<rparr>);
           State_Monad.return (Some (Joined (StoreFailed ErrReconcileCommitUnknown) (StoreFailed e)))
         }
       | Inr recovery \<Rightarrow> do {
           o1 \<leftarrow> (case rst_Observed transition of
                   None \<Rightarrow> ok True
                 | Some update \<Rightarrow> do {
                     ol \<leftarrow> ask (ss_LoadObservedFirewallSnapshot st (ct_nodeID c));
                     (case ol of Inl e \<Rightarrow> fail e | Inr observed \<Rightarrow> ok (observedUpdateApplied observed update))
                   });
           case o1 of
             Inl e \<Rightarrow> do {
               _ \<leftarrow> update_controller (\<lambda>c. c\<lparr>ct_recoveryReloadNeeded := True\<rparr>);
               State_Monad.return (Some (Joined (StoreFailed ErrReconcileCommitUnknown) (StoreFailed e)))
             }
           | Inr observedApplied \<Rightarrow> do {
               c' \<leftarrow> get_controller;
               (case replaceRecovery recovery c' of
                  Inl e \<Rightarrow> do {
                    _ \<leftarrow> update_controller (\<lambda>c. c\<lparr>ct_recoveryReloadNeeded := True\<rparr>);
                    State_Monad.return (Some (Joined (StoreFailed ErrReconcileCommitUnknown) (HydrateFailed e)))
                  }
                | Inr c1 \<Rightarrow> do {
                    _ \<leftarrow> update_controller (\<lambda>_. c1\<lparr>ct_recoveryReloadNeeded := False\<rparr>);
                    State_Monad.return (if reconcileTransitionApplied recovery transition \<and> observedApplied then None
                                        else Some (StoreFailed ErrReconcileCommitUnknown))
                  })
             }
         }
     }
   }"

definition stamped_state :: "'w Boundary \<Rightarrow> attemptRef \<Rightarrow> RetryState \<Rightarrow> ('w, PersistedReconcileState) act" where
  "stamped_state B ref state = do {
     c \<leftarrow> get_controller; t \<leftarrow> now B; State_Monad.return (persistedState (ct_nodeID c) t ref state) }"

definition stamped_probe :: "'w Boundary \<Rightarrow> pendingProbeKey \<Rightarrow> attemptRef \<Rightarrow> nat \<Rightarrow> ('w, PersistedProbeRequirement) act" where
  "stamped_probe B key ref attempts = do {
     c \<leftarrow> get_controller; t \<leftarrow> now B; State_Monad.return (persistedProbe (ct_nodeID c) t key ref attempts) }"

definition optional_probe :: "'w Boundary \<Rightarrow> pendingProbeKey option \<Rightarrow> attemptRef \<Rightarrow> nat \<Rightarrow> ('w, PersistedProbeRequirement option) act" where
  "optional_probe B key ref attempts =
     (case key of
        None \<Rightarrow> State_Monad.return None
      | Some k \<Rightarrow> do { p \<leftarrow> stamped_probe B k ref attempts; State_Monad.return (Some p) })"

definition persistApplyingState ::
  "'w Boundary \<Rightarrow> attemptRef \<Rightarrow> RetryState \<Rightarrow> pendingProbeKey \<Rightarrow> attemptRef option \<Rightarrow> ('w, reconcile_error option) act" where
  "persistApplyingState B ref state key previous =
     (case bd_Store B of
        None \<Rightarrow> State_Monad.return None
      | Some st \<Rightarrow> do {
          ps \<leftarrow> stamped_state B ref state;
          up \<leftarrow> stamped_probe B key ref (rs_AttemptCount state);
          c \<leftarrow> get_controller;
          (case previous of
             None \<Rightarrow> applyTransition B st
                       \<lparr> rst_State = Some ps, rst_UpsertProbe = Some up, rst_DeleteProbe = None, rst_Observed = None \<rparr>
           | Some previousRef \<Rightarrow>
               (case stateForRef c previousRef of
                  None \<Rightarrow> State_Monad.return (Some PendingStateMissing)
                | Some previousState \<Rightarrow> do {
                    del \<leftarrow> stamped_probe B key previousRef (rs_AttemptCount previousState);
                    applyTransition B st
                      \<lparr> rst_State = Some ps, rst_UpsertProbe = Some up, rst_DeleteProbe = Some del, rst_Observed = None \<rparr>
                  }))
        })"

definition persistStateWithObserved ::
  "'w Boundary \<Rightarrow> attemptRef \<Rightarrow> RetryState \<Rightarrow> pendingProbeKey option \<Rightarrow> pendingProbeKey option
    \<Rightarrow> ObservedFirewallUpdate option \<Rightarrow> ('w, reconcile_error option) act" where
  "persistStateWithObserved B ref state upsertKey deleteKey observed =
     (case bd_Store B of
        None \<Rightarrow> State_Monad.return None
      | Some st \<Rightarrow> do {
          ps \<leftarrow> stamped_state B ref state;
          up \<leftarrow> optional_probe B upsertKey ref (rs_AttemptCount state);
          del \<leftarrow> optional_probe B deleteKey ref (rs_AttemptCount state);
          applyTransition B st
            \<lparr> rst_State = Some ps, rst_UpsertProbe = up, rst_DeleteProbe = del, rst_Observed = observed \<rparr>
        })"

definition persistStateAndClearProbe ::
  "'w Boundary \<Rightarrow> attemptRef \<Rightarrow> RetryState \<Rightarrow> pendingProbeKey \<Rightarrow> attemptRef \<Rightarrow> ('w, reconcile_error option) act" where
  "persistStateAndClearProbe B stateRef state key pendingRef =
     (case bd_Store B of
        None \<Rightarrow> State_Monad.return None
      | Some st \<Rightarrow> do {
          c \<leftarrow> get_controller;
          (case stateForRef c pendingRef of
             None \<Rightarrow> State_Monad.return (Some PendingStateMissing)
           | Some pendingState \<Rightarrow> do {
               ps \<leftarrow> stamped_state B stateRef state;
               del \<leftarrow> stamped_probe B key pendingRef (rs_AttemptCount pendingState);
               applyTransition B st
                 \<lparr> rst_State = Some ps, rst_UpsertProbe = None, rst_DeleteProbe = Some del, rst_Observed = None \<rparr>
             })
        })"

definition clearProbe :: "'w Boundary \<Rightarrow> pendingProbeKey \<Rightarrow> attemptRef \<Rightarrow> ('w, reconcile_error option) act" where
  "clearProbe B key pendingRef =
     (case bd_Store B of
        None \<Rightarrow> State_Monad.return None
      | Some st \<Rightarrow> do {
          c \<leftarrow> get_controller;
          (case stateForRef c pendingRef of
             None \<Rightarrow> State_Monad.return (Some PendingStateMissing)
           | Some pendingState \<Rightarrow> do {
               del \<leftarrow> stamped_probe B key pendingRef (rs_AttemptCount pendingState);
               applyTransition B st
                 \<lparr> rst_State = None, rst_UpsertProbe = None, rst_DeleteProbe = Some del, rst_Observed = None \<rparr>
             })
        })"

definition reloadRecoveryIfNeeded :: "'w Boundary \<Rightarrow> ('w, reconcile_error option) act" where
  "reloadRecoveryIfNeeded B = do {
     c \<leftarrow> get_controller;
     (case bd_Store B of
        Some st \<Rightarrow>
          if \<not> ct_recoveryReloadNeeded c then State_Monad.return None
          else do {
            l \<leftarrow> ask (ss_LoadReconcileRecovery st (ct_nodeID c));
            (case l of
               Inl e \<Rightarrow> State_Monad.return (Some (StoreFailed e))
             | Inr recovery \<Rightarrow> do {
                 c' \<leftarrow> get_controller;
                 (case replaceRecovery recovery c' of
                    Inl e \<Rightarrow> State_Monad.return (Some (HydrateFailed e))
                  | Inr c1 \<Rightarrow> do {
                      _ \<leftarrow> update_controller (\<lambda>_. c1\<lparr>ct_recoveryReloadNeeded := False\<rparr>);
                      State_Monad.return None
                    })
               })
          }
      | None \<Rightarrow> State_Monad.return None)
   }"

section \<open>Observations\<close>

definition nextObservedAt :: "'w Boundary \<Rightarrow> ('w, time) act" where
  "nextObservedAt B = do {
     t \<leftarrow> now B;
     c \<leftarrow> get_controller;
     let u = t - t mod 1000;
     let at = (if ct_lastObservedAt c < u then u else ct_lastObservedAt c + 1000);
     _ \<leftarrow> update_controller (\<lambda>c. c\<lparr>ct_lastObservedAt := at\<rparr>);
     State_Monad.return at
   }"

definition validated_update :: "ObservedFirewallUpdate \<Rightarrow> ('w, reconcile_error + ObservedFirewallUpdate option) act" where
  "validated_update update =
     (case ObservedFirewallUpdate_Validate update of
        Some e \<Rightarrow> fail (ObservedInvalid e)
      | None \<Rightarrow> ok (Some update))"

definition observedUpdateForSnapshot ::
  "'w Boundary \<Rightarrow> Snapshot \<Rightarrow> ('w, reconcile_error + ObservedFirewallUpdate option) act" where
  "observedUpdateForSnapshot B snapshot = do {
     c \<leftarrow> get_controller;
     if bd_Store B = None \<or> \<not> ct_hasDesired c then ok None
     else do { at \<leftarrow> nextObservedAt B; validated_update (snapshot_update c at snapshot) }
   }"

definition unknownObservedUpdate ::
  "'w Boundary \<Rightarrow> Domain \<Rightarrow> Prefix \<Rightarrow> string \<Rightarrow> ('w, reconcile_error + ObservedFirewallUpdate option) act" where
  "unknownObservedUpdate B domain target code = do {
     c \<leftarrow> get_controller;
     if bd_Store B = None \<or> \<not> ct_hasDesired c then ok None
     else do {
       at \<leftarrow> nextObservedAt B;
       if domain = DomainTarget \<and> map_of (ct_desiredTargets c) target = None then fail TargetNotDesired
       else if \<not> ValidDomain domain then fail DomainNotSupported
       else validated_update (unknown_update c at (error_code_or_default code) domain target)
     }
   }"

definition allUnknownObservedUpdate ::
  "'w Boundary \<Rightarrow> string \<Rightarrow> ('w, reconcile_error + ObservedFirewallUpdate option) act" where
  "allUnknownObservedUpdate B code = do {
     c \<leftarrow> get_controller;
     if bd_Store B = None \<or> \<not> ct_hasDesired c then ok None
     else do {
       at \<leftarrow> nextObservedAt B;
       validated_update (all_unknown_update c at (error_code_or_default code))
     }
   }"

definition persistObserved :: "'w Boundary \<Rightarrow> ObservedFirewallUpdate option \<Rightarrow> ('w, reconcile_error option) act" where
  "persistObserved B update =
     (case (update, bd_Store B) of
        (Some u, Some st) \<Rightarrow> do {
          r \<leftarrow> ask (ss_ApplyObservedFirewallUpdate st u);
          if r \<noteq> Some ErrReconcileCommitUnknown then State_Monad.return (map_option StoreFailed r)
          else do {
            c \<leftarrow> get_controller;
            l \<leftarrow> ask (ss_LoadObservedFirewallSnapshot st (ct_nodeID c));
            (case l of
               Inl e \<Rightarrow> State_Monad.return (Some (Joined (StoreFailed ErrReconcileCommitUnknown) (StoreFailed e)))
             | Inr snapshot \<Rightarrow>
                 State_Monad.return (if observedUpdateApplied snapshot u then None
                                     else Some (StoreFailed ErrReconcileCommitUnknown)))
          }
        }
      | _ \<Rightarrow> State_Monad.return None)"

definition recordAllUnknownObserved :: "'w Boundary \<Rightarrow> string \<Rightarrow> ('w, reconcile_error option) act" where
  "recordAllUnknownObserved B code = locked B (do {
     u \<leftarrow> allUnknownObservedUpdate B code;
     (case u of Inl e \<Rightarrow> State_Monad.return (Some e) | Inr update \<Rightarrow> persistObserved B update)
   })"

end
