(* ===== verification/Reconcile_Execute.thy ===== *)
theory Reconcile_Execute
  imports Reconcile_Controller
begin

text \<open>
  The attempts of the controller: the expiration fence, beginning and finishing an attempt, \<^verbatim>\<open>Execute\<close>,
  the two recoveries by probe, the administrator's retries and the persistent constructor.
\<close>

section \<open>Beginning an attempt\<close>

definition targetExpirationFenceLocked :: "'w Boundary \<Rightarrow> OperationPlan \<Rightarrow> ('w, reconcile_error option) act" where
  "targetExpirationFenceLocked B plan =
     (if op_Domain plan \<noteq> DomainTarget \<or> int_BanMembership (op_DesiredTarget plan) \<noteq> BanPresent
      then State_Monad.return None
      else case int_EffectiveUntil (op_DesiredTarget plan) of
        None \<Rightarrow> State_Monad.return None
      | Some until \<Rightarrow> do {
          t \<leftarrow> now B;
          c \<leftarrow> get_controller;
          State_Monad.return
            (if t < until then None
             else if \<not> planMatchesCurrentDesired c plan then Some ErrStalePlan else Some ErrTargetIntentExpired)
        })"

definition targetExpirationFence :: "'w Boundary \<Rightarrow> OperationPlan \<Rightarrow> ('w, reconcile_error option) act" where
  "targetExpirationFence B plan = locked B (targetExpirationFenceLocked B plan)"

definition retry_state :: "Controller \<Rightarrow> attemptRef \<Rightarrow> RetryState" where
  "retry_state c ref = (case stateForRef c ref of None \<Rightarrow> pending_retry | Some s \<Rightarrow> s)"

definition begun_state :: "time \<Rightarrow> RetryState \<Rightarrow> RetryState" where
  "begun_state t s =
     s\<lparr>rs_AttemptCount := Suc (rs_AttemptCount s), rs_Status := ReconcileApplying, rs_LastAttemptAt := Some t,
       rs_NextAttemptAt := None, rs_LastErrorCode := []\<rparr>"

definition not_ready :: "time \<Rightarrow> RetryState \<Rightarrow> bool" where
  "not_ready t s \<longleftrightarrow> rs_Status s = ReconcileRetryWaiting \<and> (case rs_NextAttemptAt s of None \<Rightarrow> False | Some n \<Rightarrow> t < n)"

definition put_begun :: "attemptRef \<Rightarrow> RetryState \<Rightarrow> ('w, unit) act" where
  "put_begun ref begun = do {
     _ \<leftarrow> update_controller (putState ref begun);
     log_call (Begun ref (rs_AttemptCount begun))
   }"

definition beginAttemptLocked :: "'w Boundary \<Rightarrow> OperationPlan \<Rightarrow> ('w, reconcile_error + attemptRef) act" where
  "beginAttemptLocked B plan =
     unless_error (targetExpirationFenceLocked B plan) (do {
       c \<leftarrow> get_controller;
       (case attemptState c plan of
          None \<Rightarrow> fail ErrInvalidPlan
        | Some ref \<Rightarrow> do {
            let state = retry_state c ref;
            t \<leftarrow> now B;
            if rs_Status state = ReconcileDegraded \<or> maxMutationAttempts \<le> rs_AttemptCount state
            then fail ErrBudgetExhausted
            else if not_ready t state then fail ErrRetryNotReady
            else do {
              let begun = begun_state t state;
              let probeKey = pendingProbeKeyForPlan plan;
              let previous = map_of (ct_pendingProbes c) probeKey;
              unless_error (persistApplyingState B ref begun probeKey previous) (do {
                _ \<leftarrow> put_begun ref begun;
                _ \<leftarrow> update_controller (put_pending probeKey ref);
                _ \<leftarrow> update_controller (\<lambda>c. case previous of None \<Rightarrow> c | Some p \<Rightarrow> delete_synthetic p c);
                ok ref
              })
            }
          })
     })"

definition beginAttempt :: "'w Boundary \<Rightarrow> OperationPlan \<Rightarrow> ('w, reconcile_error + attemptRef) act" where
  "beginAttempt B plan = locked B (do {
     c \<leftarrow> get_controller;
     if \<not> planMatchesCurrentDesired c plan then fail ErrStalePlan else beginAttemptLocked B plan
   })"

section \<open>Finishing an attempt\<close>

definition converged_state :: "RetryState \<Rightarrow> RetryState" where
  "converged_state s = s\<lparr>rs_Status := ReconcileConverged, rs_NextAttemptAt := None, rs_LastErrorCode := []\<rparr>"

definition confirm_step :: "Prefix \<Rightarrow> u64 \<Rightarrow> Snapshot \<Rightarrow> ('w, unit) act" where
  "confirm_step target generation snapshot = do {
     _ \<leftarrow> update_controller (confirm_target target generation);
     log_confirmed target generation snapshot
   }"

definition confirm_plan :: "OperationPlan \<Rightarrow> Snapshot \<Rightarrow> ('w, unit) act" where
  "confirm_plan plan snapshot =
     (if op_Domain plan = DomainTarget then confirm_step (op_Target plan) (op_ExpectedTargetGeneration plan) snapshot
      else State_Monad.return ())"

definition confirm_key :: "pendingProbeKey \<Rightarrow> Snapshot \<Rightarrow> ('w, unit) act" where
  "confirm_key key snapshot =
     (if pk_domain key = DomainTarget then confirm_step (pk_target key) (pk_targetGeneration key) snapshot
      else State_Monad.return ())"

text \<open>The ledger state after a failure; no value where the backoff table has no entry and Go panics.\<close>

definition gives_up :: "bool \<Rightarrow> RetryState \<Rightarrow> bool" where
  "gives_up canRetry state \<longleftrightarrow> \<not> canRetry \<or> maxMutationAttempts \<le> rs_AttemptCount state"

definition failed_state :: "string \<Rightarrow> bool \<Rightarrow> time \<Rightarrow> RetryState \<Rightarrow> RetryState option" where
  "failed_state code canRetry t state =
     (if gives_up canRetry state
      then Some (state\<lparr>rs_LastErrorCode := code, rs_Status := ReconcileDegraded, rs_NextAttemptAt := None\<rparr>)
      else map_option (\<lambda>d. state\<lparr>rs_LastErrorCode := code, rs_Status := ReconcileRetryWaiting, rs_NextAttemptAt := Some (t + d)\<rparr>)
             (backoff (rs_AttemptCount state)))"

definition finishFailureLocked ::
  "'w Boundary \<Rightarrow> attemptRef \<Rightarrow> pendingProbeKey \<Rightarrow> string \<Rightarrow> bool \<Rightarrow> bool \<Rightarrow> ObservedFirewallUpdate option
    \<Rightarrow> ('w, reconcile_error option) act" where
  "finishFailureLocked B ref key code canRetry requireProbe observed = do {
     c \<leftarrow> get_controller;
     t \<leftarrow> (if gives_up canRetry (getState c ref) then State_Monad.return 0 else now B);
     (case failed_state code canRetry t (getState c ref) of
        None \<Rightarrow> State_Monad.return (Some IndexOutOfRange)
      | Some state \<Rightarrow> do {
          e \<leftarrow> persistStateWithObserved B ref state (if requireProbe then Some key else None)
                 (if requireProbe then None else Some key) observed;
          (case e of
             Some err \<Rightarrow> do { _ \<leftarrow> update_controller (put_pending key ref); State_Monad.return (Some err) }
           | None \<Rightarrow> do {
               _ \<leftarrow> update_controller (putState ref state);
               _ \<leftarrow> update_controller (if requireProbe then put_pending key ref else delete_pending key);
               State_Monad.return None
             })
        })
   }"

definition finishFailure ::
  "'w Boundary \<Rightarrow> attemptRef \<Rightarrow> pendingProbeKey \<Rightarrow> string \<Rightarrow> bool \<Rightarrow> ('w, reconcile_error option) act" where
  "finishFailure B ref key code canRetry = locked B (finishFailureLocked B ref key code canRetry False None)"

definition finishFailureAndRequireProbeObserved ::
  "'w Boundary \<Rightarrow> attemptRef \<Rightarrow> pendingProbeKey \<Rightarrow> string \<Rightarrow> bool \<Rightarrow> ('w, reconcile_error option) act" where
  "finishFailureAndRequireProbeObserved B ref key code allDomains = locked B (do {
     u \<leftarrow> (if allDomains then allUnknownObservedUpdate B code
           else unknownObservedUpdate B (pk_domain key) (pk_target key) code);
     (case u of
        Inl e \<Rightarrow> State_Monad.return (Some e)
      | Inr observed \<Rightarrow> finishFailureLocked B ref key code True True observed)
   })"

definition finishStaleLocked :: "'w Boundary \<Rightarrow> attemptRef \<Rightarrow> pendingProbeKey \<Rightarrow> ('w, reconcile_error option) act" where
  "finishStaleLocked B ref key = do {
     c \<leftarrow> get_controller;
     let state = (getState c ref)\<lparr>rs_Status := ReconcilePending, rs_NextAttemptAt := None,
                   rs_LastErrorCode := ''stale_completion''\<rparr>;
     let (stateRef, persisted) =
       (case currentStateForPendingKey c key of
          Some (currentRef, currentState) \<Rightarrow> if currentRef \<noteq> ref then (currentRef, currentState) else (ref, state)
        | None \<Rightarrow> (ref, state));
     e \<leftarrow> (if (ref \<in> set (ct_syntheticRefs c) \<and> stateRef = ref) \<or> \<not> sameAttemptPhysicalKey ref stateRef
           then clearProbe B key ref
           else persistStateAndClearProbe B stateRef persisted key ref);
     (case e of
        Some err \<Rightarrow> State_Monad.return (Some err)
      | None \<Rightarrow> do {
          _ \<leftarrow> update_controller (putState ref state);
          _ \<leftarrow> update_controller (delete_synthetic ref);
          State_Monad.return None
        })
   }"

definition finishRecoveredPendingLocked ::
  "'w Boundary \<Rightarrow> Snapshot \<Rightarrow> attemptRef \<Rightarrow> pendingProbeKey \<Rightarrow> ('w, reconcile_error option) act" where
  "finishRecoveredPendingLocked B snapshot ref key = do {
     c \<leftarrow> get_controller;
     let (stateRef, found) = (case currentStateForPendingKey c key of Some p \<Rightarrow> p | None \<Rightarrow> (ref, getState c ref));
     let state = converged_state found;
     e \<leftarrow> persistStateAndClearProbe B stateRef state key ref;
     (case e of
        Some err \<Rightarrow> State_Monad.return (Some err)
      | None \<Rightarrow> do {
          _ \<leftarrow> update_controller (putState stateRef state);
          _ \<leftarrow> update_controller (delete_synthetic ref);
          _ \<leftarrow> confirm_key key snapshot;
          State_Monad.return None
        })
   }"

definition finishRecoveredByProbeLocked ::
  "'w Boundary \<Rightarrow> Snapshot \<Rightarrow> OperationPlan \<Rightarrow> pendingProbeKey \<Rightarrow> attemptRef \<Rightarrow> ('w, reconcile_error option) act" where
  "finishRecoveredByProbeLocked B snapshot plan key pendingRef = do {
     c \<leftarrow> get_controller;
     (case attemptState c plan of
        None \<Rightarrow> State_Monad.return (Some ErrInvalidPlan)
      | Some ref \<Rightarrow> do {
          let state = converged_state (retry_state c ref);
          e \<leftarrow> persistStateAndClearProbe B ref state key pendingRef;
          (case e of
             Some err \<Rightarrow> State_Monad.return (Some err)
           | None \<Rightarrow> do {
               _ \<leftarrow> update_controller (putState ref state);
               _ \<leftarrow> update_controller (delete_synthetic pendingRef);
               _ \<leftarrow> confirm_plan plan snapshot;
               State_Monad.return None
             })
        })
   }"

definition finishConvergedLocked ::
  "'w Boundary \<Rightarrow> Snapshot \<Rightarrow> attemptRef \<Rightarrow> OperationPlan \<Rightarrow> pendingProbeKey \<Rightarrow> ObservedFirewallUpdate option
    \<Rightarrow> ('w, reconcile_error option) act" where
  "finishConvergedLocked B snapshot ref plan key observed = do {
     c \<leftarrow> get_controller;
     let state = converged_state (getState c ref);
     e \<leftarrow> persistStateWithObserved B ref state None (Some key) observed;
     (case e of
        Some err \<Rightarrow> State_Monad.return (Some err)
      | None \<Rightarrow> do {
          _ \<leftarrow> update_controller (putState ref state);
          _ \<leftarrow> confirm_plan plan snapshot;
          State_Monad.return None
        })
   }"

definition reloadSupersededTargetCompletion ::
  "'w Boundary \<Rightarrow> OperationPlan \<Rightarrow> reconcile_error \<Rightarrow> ('w, reconcile_error + bool) act" where
  "reloadSupersededTargetCompletion B plan persistErr =
     (case bd_Store B of
        None \<Rightarrow> ok False
      | Some st \<Rightarrow>
          if op_Domain plan \<noteq> DomainTarget \<or> \<not> is_error ErrReconcileStateRegression persistErr then ok False
          else do {
            c \<leftarrow> get_controller;
            l \<leftarrow> ask (ss_LoadReconcileRecovery st (ct_nodeID c));
            (case l of
               Inl e \<Rightarrow> fail (StoreFailed e)
             | Inr recovery \<Rightarrow>
                 if \<not> list_ex (\<lambda>s. prs_NodeID s = ct_nodeID c \<and> prs_Domain s = ReconcileDomainTarget
                                  \<and> prs_Target s = op_Target plan
                                  \<and> op_ExpectedTargetGeneration plan < prs_TargetGeneration s) (rrs_States recovery)
                 then ok False
                 else do {
                   c' \<leftarrow> get_controller;
                   (case replaceRecovery recovery c' of
                      Inl e \<Rightarrow> fail (HydrateFailed e)
                    | Inr c1 \<Rightarrow> do {
                        _ \<leftarrow> update_controller (\<lambda>_. c1\<lparr>ct_recoveryReloadNeeded := False\<rparr>);
                        ok True
                      })
                 })
          })"

definition commitConfirmed ::
  "'w Boundary \<Rightarrow> attemptRef \<Rightarrow> OperationPlan \<Rightarrow> Snapshot \<Rightarrow> pendingProbeKey \<Rightarrow> ('w, reconcile_error option) act" where
  "commitConfirmed B ref plan snapshot key = locked B (do {
     u \<leftarrow> observedUpdateForSnapshot B snapshot;
     (case u of
        Inl e \<Rightarrow> State_Monad.return (Some e)
      | Inr observed \<Rightarrow> do {
          c \<leftarrow> get_controller;
          if \<not> planMatchesCurrentDesired c plan then do {
            e1 \<leftarrow> persistObserved B observed;
            (case e1 of
               Some err \<Rightarrow> do { _ \<leftarrow> update_controller (put_pending key ref); State_Monad.return (Some err) }
             | None \<Rightarrow> do {
                 e2 \<leftarrow> finishStaleLocked B ref key;
                 (case e2 of
                    Some err \<Rightarrow> do { _ \<leftarrow> update_controller (put_pending key ref); State_Monad.return (Some err) }
                  | None \<Rightarrow> State_Monad.return (Some ErrStaleCompletion))
               })
          }
          else if \<not> snapshotMatchesCurrentDesired c snapshot (op_Domain plan) (op_Target plan)
          then finishFailureLocked B ref key ''postcondition_mismatch'' True False observed
          else do {
            e1 \<leftarrow> finishConvergedLocked B snapshot ref plan key observed;
            (case e1 of
               None \<Rightarrow> do { _ \<leftarrow> update_controller (delete_pending key); State_Monad.return None }
             | Some err \<Rightarrow> do {
                 r \<leftarrow> reloadSupersededTargetCompletion B plan err;
                 (case r of
                    Inl reloadErr \<Rightarrow> do {
                      _ \<leftarrow> update_controller (put_pending key ref);
                      State_Monad.return (Some (Joined err reloadErr))
                    }
                  | Inr True \<Rightarrow> State_Monad.return (Some ErrStaleCompletion)
                  | Inr False \<Rightarrow> do { _ \<leftarrow> update_controller (put_pending key ref); State_Monad.return (Some err) })
               })
          }
        })
   })"

definition markInvalidPlan :: "'w Boundary \<Rightarrow> OperationPlan \<Rightarrow> ('w, reconcile_error option) act" where
  "markInvalidPlan B plan = locked B (do {
     c \<leftarrow> get_controller;
     if \<not> ct_hasDesired c then State_Monad.return None
     else (case attemptState c plan of
             None \<Rightarrow> State_Monad.return None
           | Some ref \<Rightarrow> do {
               let state = (getState c ref)\<lparr>rs_Status := ReconcileDegraded, rs_NextAttemptAt := None,
                             rs_LastErrorCode := ''invalid_plan''\<rparr>;
               e \<leftarrow> persistStateWithObserved B ref state None None None;
               (case e of
                  Some err \<Rightarrow> State_Monad.return (Some err)
                | None \<Rightarrow> do { _ \<leftarrow> update_controller (putState ref state); State_Monad.return None })
             })
   })"

section \<open>Resolving pending probes\<close>

fun resolve_loop ::
  "'w Boundary \<Rightarrow> Snapshot \<Rightarrow> pendingProbeKey \<Rightarrow> OperationPlan \<Rightarrow> bool \<Rightarrow> (pendingProbeKey \<times> attemptRef) list
    \<Rightarrow> ('w, reconcile_error + bool) act" where
  "resolve_loop B snapshot currentKey plan recovered [] = ok recovered"
| "resolve_loop B snapshot currentKey plan recovered ((key, ref) # rest) = do {
     c \<leftarrow> get_controller;
     if \<not> pendingKeyMatchesCurrentDesired c key then
       unless_error (finishStaleLocked B ref key) (do {
         _ \<leftarrow> update_controller (delete_pending key);
         resolve_loop B snapshot currentKey plan recovered rest
       })
     else if \<not> snapshotMatchesCurrentDesired c snapshot (pk_domain key) (pk_target key)
     then resolve_loop B snapshot currentKey plan recovered rest
     else
       unless_error (if key = currentKey then finishRecoveredByProbeLocked B snapshot plan key ref
                     else finishRecoveredPendingLocked B snapshot ref key) (do {
         _ \<leftarrow> update_controller (delete_pending key);
         resolve_loop B snapshot currentKey plan (recovered \<or> key = currentKey) rest
       })
   }"

definition resolvePendingProbes ::
  "'w Boundary \<Rightarrow> Snapshot \<Rightarrow> pendingProbeKey \<Rightarrow> OperationPlan \<Rightarrow> ('w, reconcile_error + bool) act" where
  "resolvePendingProbes B snapshot currentKey plan = do {
     c \<leftarrow> get_controller;
     resolve_loop B snapshot currentKey plan False (bd_Range B (ct_pendingProbes c))
   }"

text \<open>The two ways to begin after a probe; no attempt means that the probe found the plan in place.\<close>

definition observed_section ::
  "'w Boundary \<Rightarrow> OperationPlan \<Rightarrow> Snapshot \<Rightarrow> ('w, reconcile_error + 'a) act \<Rightarrow> ('w, reconcile_error + 'a) act" where
  "observed_section B plan snapshot k = do {
     c \<leftarrow> get_controller;
     if \<not> planMatchesCurrentDesired c plan then fail ErrStalePlan
     else unless_error (targetExpirationFenceLocked B plan)
            (andThen (observedUpdateForSnapshot B snapshot) (\<lambda>observed.
               unless_error (persistObserved B observed) k))
   }"

definition beginAfterRequiredProbe ::
  "'w Boundary \<Rightarrow> OperationPlan \<Rightarrow> Snapshot \<Rightarrow> pendingProbeKey \<Rightarrow> ('w, reconcile_error + attemptRef option) act" where
  "beginAfterRequiredProbe B plan snapshot key = locked B (observed_section B plan snapshot
     (andThen (resolvePendingProbes B snapshot key plan) (\<lambda>currentRecovered.
        if currentRecovered then ok None
        else andThen (beginAttemptLocked B plan) (\<lambda>attempt. ok (Some attempt)))))"

definition startup_section ::
  "'w Boundary \<Rightarrow> OperationPlan \<Rightarrow> Snapshot \<Rightarrow> ('w, reconcile_error + attemptRef option) act" where
  "startup_section B plan snapshot = do {
     c \<leftarrow> get_controller;
     if \<not> snapshotMatchesCurrentDesired c snapshot (op_Domain plan) (op_Target plan) then
       andThen (beginAttemptLocked B plan) (\<lambda>attempt. do {
         _ \<leftarrow> update_controller (\<lambda>c. c\<lparr>ct_startupProbeRequired := False\<rparr>);
         ok (Some attempt)
       })
     else (case attemptState c plan of
             None \<Rightarrow> fail ErrInvalidPlan
           | Some ref \<Rightarrow> do {
               let state = converged_state (retry_state c ref);
               unless_error (persistStateWithObserved B ref state None None None) (do {
                 _ \<leftarrow> update_controller (putState ref state);
                 _ \<leftarrow> update_controller (\<lambda>c. c\<lparr>ct_startupProbeRequired := False\<rparr>);
                 _ \<leftarrow> confirm_plan plan snapshot;
                 ok None
               })
             })
   }"

definition beginAfterStartupProbe ::
  "'w Boundary \<Rightarrow> OperationPlan \<Rightarrow> Snapshot \<Rightarrow> ('w, reconcile_error + attemptRef option) act" where
  "beginAfterStartupProbe B plan snapshot =
     locked B (observed_section B plan snapshot (startup_section B plan snapshot))"

section \<open>Execute\<close>

record ExecutionResult =
  ex_Apply :: "ApplyResult option"
  ex_RecoveredByProbe :: bool

definition no_execution :: ExecutionResult where
  "no_execution = \<lparr> ex_Apply = None, ex_RecoveredByProbe = False \<rparr>"

definition rebased :: "'w Boundary \<Rightarrow> Snapshot \<Rightarrow> OperationPlan \<Rightarrow> OperationPlan" where
  "rebased B snapshot plan =
     (let based = plan\<lparr>op_BasisSnapshotDigest := bd_SnapshotDigest B snapshot\<rparr>
      in based\<lparr>op_Digest := bd_PlanDigest B based\<rparr>)"

definition failed_probe :: "'w Boundary \<Rightarrow> ('w, reconcile_error + 'a) act" where
  "failed_probe B = do {
     e \<leftarrow> recordAllUnknownObserved B probeFailureErrorCode;
     fail (join_errors BackendFailed e)
   }"

text \<open>The first half of \<^verbatim>\<open>Execute\<close>: the plan to apply with its attempt, or no attempt when recovered.\<close>

definition begin_execution :: "'w Boundary \<Rightarrow> OperationPlan \<Rightarrow> ('w, reconcile_error + OperationPlan \<times> attemptRef option) act" where
  "begin_execution B plan = do {
     pending \<leftarrow> locked B (do { c \<leftarrow> get_controller; State_Monad.return (ct_pendingProbes c \<noteq> []) });
     if pending then do {
       p \<leftarrow> probe B;
       (case p of
          None \<Rightarrow> failed_probe B
        | Some snapshot \<Rightarrow> do {
            let based = rebased B snapshot plan;
            andThen (beginAfterRequiredProbe B based snapshot (pendingProbeKeyForPlan plan)) (\<lambda>a. ok (based, a))
          })
     } else do {
       startup \<leftarrow> locked B (do { c \<leftarrow> get_controller; State_Monad.return (ct_startupProbeRequired c) });
       if startup then do {
         p \<leftarrow> probe B;
         (case p of
            None \<Rightarrow> failed_probe B
          | Some snapshot \<Rightarrow> do {
              let based = rebased B snapshot plan;
              andThen (beginAfterStartupProbe B based snapshot) (\<lambda>a. ok (based, a))
            })
       } else if bd_RequiresFreshBasis B then do {
         p \<leftarrow> probe B;
         (case p of
            None \<Rightarrow> failed_probe B
          | Some snapshot \<Rightarrow> do {
              let based = rebased B snapshot plan;
              andThen (beginAttempt B based) (\<lambda>a. ok (based, Some a))
            })
       } else andThen (beginAttempt B plan) (\<lambda>a. ok (plan, Some a))
     }
   }"

definition code_or :: "string \<Rightarrow> string \<Rightarrow> string" where
  "code_or code fallback = (if code = [] then fallback else code)"

text \<open>The second half: one call of \<^verbatim>\<open>Apply\<close> and its result.\<close>

definition apply_attempt ::
  "'w Boundary \<Rightarrow> OperationPlan \<Rightarrow> pendingProbeKey \<Rightarrow> attemptRef \<Rightarrow> ('w, ExecutionResult \<times> reconcile_error option) act" where
  "apply_attempt B plan probeKey attempt = do {
     fence \<leftarrow> targetExpirationFence B plan;
     (case fence of
        Some err \<Rightarrow> do {
          e \<leftarrow> finishFailure B attempt probeKey
                 (if err = ErrStalePlan then ''stale_before_apply'' else ''expired_before_apply'') False;
          State_Monad.return (no_execution, Some (case e of Some f \<Rightarrow> f | None \<Rightarrow> err))
        }
      | None \<Rightarrow> do {
          _ \<leftarrow> log_call (Applied plan);
          r \<leftarrow> ask (bd_Apply B plan);
          (case r of
             None \<Rightarrow> do {
               e \<leftarrow> finishFailureAndRequireProbeObserved B attempt probeKey ''backend_error'' False;
               State_Monad.return (no_execution, Some (join_errors BackendFailed e))
             }
           | Some result \<Rightarrow> do {
               let execution = \<lparr> ex_Apply = Some result, ex_RecoveredByProbe = False \<rparr>;
               (case ar_Kind result of
                  ResultUnknown \<Rightarrow> do {
                    e \<leftarrow> finishFailureAndRequireProbeObserved B attempt probeKey
                           (code_or (ar_ErrorCode result) ''unknown_result'') False;
                    State_Monad.return (execution, e)
                  }
                | ResultRejected \<Rightarrow> do {
                    e \<leftarrow> finishFailure B attempt probeKey (code_or (ar_ErrorCode result) ''rejected'')
                           (retryable (code_or (ar_ErrorCode result) ''rejected''));
                    State_Monad.return (execution, e)
                  }
                | ResultConfirmed \<Rightarrow> do {
                    p \<leftarrow> probe B;
                    (case p of
                       None \<Rightarrow> do {
                         e \<leftarrow> finishFailureAndRequireProbeObserved B attempt probeKey ''confirm_probe_failed'' True;
                         State_Monad.return (execution, Some (join_errors BackendFailed e))
                       }
                     | Some snapshot \<Rightarrow> do {
                         e \<leftarrow> commitConfirmed B attempt plan snapshot probeKey;
                         State_Monad.return (execution, e)
                       })
                  }
                | ResultKind_other _ \<Rightarrow> do {
                    e \<leftarrow> finishFailure B attempt probeKey ''invalid_apply_result'' False;
                    State_Monad.return (execution, Some (join_errors ApplyResultUnsupported e))
                  })
             })
        })
   }"

definition Execute :: "'w Boundary \<Rightarrow> OperationPlan \<Rightarrow> ('w, ExecutionResult \<times> reconcile_error option) act" where
  "Execute B plan = do {
     reload \<leftarrow> locked B (reloadRecoveryIfNeeded B);
     (case reload of
        Some err \<Rightarrow> State_Monad.return (no_execution, Some err)
      | None \<Rightarrow>
          if ValidatePlan (bd_PlanDigest B) plan \<noteq> None then do {
            e \<leftarrow> markInvalidPlan B plan;
            State_Monad.return
              (\<lparr> ex_Apply = Some \<lparr> ar_Kind = ResultRejected, ar_Domain = op_Domain plan, ar_Target = op_Target plan,
                                   ar_Digest = op_Digest plan, ar_ErrorCode = ''invalid_plan'' \<rparr>,
                 ex_RecoveredByProbe = False \<rparr>, Some (join_errors ErrInvalidPlan e))
          } else do {
            fence \<leftarrow> targetExpirationFence B plan;
            (case fence of
               Some err \<Rightarrow> State_Monad.return (no_execution, Some err)
             | None \<Rightarrow> do {
                 begun \<leftarrow> begin_execution B plan;
                 (case begun of
                    Inl err \<Rightarrow> State_Monad.return (no_execution, Some err)
                  | Inr (_, None) \<Rightarrow> State_Monad.return (\<lparr> ex_Apply = None, ex_RecoveredByProbe = True \<rparr>, None)
                  | Inr (based, Some attempt) \<Rightarrow> apply_attempt B based (pendingProbeKeyForPlan plan) attempt)
               })
          })
   }"

end
