(* ===== verification/Reconcile_Recovery.thy ===== *)
theory Reconcile_Recovery
  imports Reconcile_Execute Digest
begin

text \<open>
  The operations of the reconcile controller besides \<^verbatim>\<open>Execute\<close>: recovery by an observation only, at
  a healthy event and at start, the retries an administrator requests, the persistent constructor and
  the read accessors.
\<close>

section \<open>Recovery by probe\<close>

record probeRecoveryOutcome =
  pro_resolved :: nat
  pro_unresolved :: "ReconcileKey list"
  pro_backendErr :: "reconcile_error option"

definition no_outcome :: probeRecoveryOutcome where
  "no_outcome = \<lparr> pro_resolved = 0, pro_unresolved = [], pro_backendErr = None \<rparr>"

definition dispatch_key :: "pendingProbeKey \<Rightarrow> ReconcileKey" where
  "dispatch_key key = \<lparr> rk_Domain = pk_domain key, rk_Target = pk_target key \<rparr>"

definition add_unresolved :: "ReconcileKey \<Rightarrow> ReconcileKey list \<Rightarrow> ReconcileKey list" where
  "add_unresolved key keys = (if key \<in> set keys then keys else keys @ [key])"

text \<open>The loop over the pending probes, with the keys it resolved and those that drifted.\<close>

fun recovery_loop ::
  "'w Boundary \<Rightarrow> Snapshot \<Rightarrow> ReconcileKey list \<Rightarrow> ReconcileKey list \<Rightarrow> (pendingProbeKey \<times> attemptRef) list
    \<Rightarrow> ('w, reconcile_error + ReconcileKey list \<times> ReconcileKey list) act" where
  "recovery_loop B snapshot resolved unresolved [] = ok (resolved, unresolved)"
| "recovery_loop B snapshot resolved unresolved ((key, ref) # rest) = do {
     c \<leftarrow> get_controller;
     if \<not> pendingKeyMatchesCurrentDesired c key then
       unless_error (finishStaleLocked B ref key) (do {
         _ \<leftarrow> update_controller (delete_pending key);
         recovery_loop B snapshot resolved unresolved rest
       })
     else if \<not> snapshotMatchesCurrentDesired c snapshot (pk_domain key) (pk_target key)
     then recovery_loop B snapshot resolved (add_unresolved (dispatch_key key) unresolved) rest
     else
       unless_error (finishRecoveredPendingLocked B snapshot ref key) (do {
         _ \<leftarrow> update_controller (delete_pending key);
         recovery_loop B snapshot (resolved @ [dispatch_key key]) unresolved rest
       })
   }"

definition recovery_probe ::
  "'w Boundary \<Rightarrow> int \<Rightarrow> (Snapshot \<Rightarrow> ('w, reconcile_error + probeRecoveryOutcome) act)
    \<Rightarrow> ('w, reconcile_error + probeRecoveryOutcome) act" where
  "recovery_probe B probeTimeout k =
     (if probeTimeout \<le> 0 then fail ProbeTimeoutNotPositive else unless_error (locked B (reloadRecoveryIfNeeded B)) (do {
       p \<leftarrow> probe B;
       (case p of
          None \<Rightarrow> do {
            e \<leftarrow> recordAllUnknownObserved B probeFailureErrorCode;
            (case e of
               Some err \<Rightarrow> fail (Joined BackendFailed err)
             | None \<Rightarrow> ok (no_outcome\<lparr>pro_backendErr := Some BackendFailed\<rparr>))
          }
        | Some snapshot \<Rightarrow> locked B (k snapshot))
     }))"

definition probeRecovery :: "'w Boundary \<Rightarrow> int \<Rightarrow> ('w, reconcile_error + probeRecoveryOutcome) act" where
  "probeRecovery B probeTimeout = recovery_probe B probeTimeout (\<lambda>snapshot. do {
     c \<leftarrow> get_controller;
     if \<not> ct_hasDesired c then ok no_outcome
     else andThen (observedUpdateForSnapshot B snapshot) (\<lambda>observed.
       unless_error (persistObserved B observed) (do {
         c1 \<leftarrow> get_controller;
         andThen (recovery_loop B snapshot [] [] (bd_Range B (ct_pendingProbes c1))) (\<lambda>(resolved, unresolved).
           ok (no_outcome\<lparr>pro_resolved := length resolved, pro_unresolved := unresolved\<rparr>))
       }))
   })"

fun startup_keys ::
  "'w Boundary \<Rightarrow> Snapshot \<Rightarrow> ReconcileKey list \<Rightarrow> ReconcileKey list \<Rightarrow> ReconcileKey list
    \<Rightarrow> ('w, reconcile_error + ReconcileKey list) act" where
  "startup_keys B snapshot resolved unresolved [] = ok unresolved"
| "startup_keys B snapshot resolved unresolved (key # rest) =
     (if key \<in> set resolved then startup_keys B snapshot resolved unresolved rest
      else do {
        c \<leftarrow> get_controller;
        if \<not> snapshotMatchesCurrentDesired c snapshot (rk_Domain key) (rk_Target key)
        then startup_keys B snapshot resolved (add_unresolved key unresolved) rest
        else (case currentAttemptRefForKey c key of
                None \<Rightarrow> startup_keys B snapshot resolved unresolved rest
              | Some ref \<Rightarrow> do {
                  let state = converged_state (getState c ref);
                  unless_error (persistStateWithObserved B ref state None None None) (do {
                    _ \<leftarrow> update_controller (putState ref state);
                    _ \<leftarrow> (case ref of
                           RefTarget target generation _ \<Rightarrow> confirm_step (rk_Target key) generation snapshot
                         | _ \<Rightarrow> State_Monad.return ());
                    startup_keys B snapshot resolved unresolved rest
                  })
                })
      })"

definition probeStartupRecovery ::
  "'w Boundary \<Rightarrow> ReconcileKey list \<Rightarrow> int \<Rightarrow> ('w, reconcile_error + probeRecoveryOutcome) act" where
  "probeStartupRecovery B keys probeTimeout = recovery_probe B probeTimeout (\<lambda>snapshot. do {
     c \<leftarrow> get_controller;
     if \<not> ct_hasDesired c then do {
       _ \<leftarrow> update_controller (\<lambda>c. c\<lparr>ct_startupProbeRequired := False\<rparr>);
       ok no_outcome
     } else andThen (observedUpdateForSnapshot B snapshot) (\<lambda>observed.
       unless_error (persistObserved B observed) (do {
         c1 \<leftarrow> get_controller;
         andThen (recovery_loop B snapshot [] [] (bd_Range B (ct_pendingProbes c1))) (\<lambda>(resolved, drifted).
         andThen (startup_keys B snapshot resolved drifted keys) (\<lambda>unresolved. do {
           _ \<leftarrow> update_controller (\<lambda>c. c\<lparr>ct_startupProbeRequired := False\<rparr>);
           ok (no_outcome\<lparr>pro_unresolved := unresolved\<rparr>)
         }))
       }))
   })"

section \<open>Administrator retries\<close>

text \<open>The separator of the frame is a backslash followed by the letter n, as in the source.\<close>

definition domain_number :: "ReconcileDomain \<Rightarrow> nat" where
  "domain_number d =
     (case d of ReconcileDomainInfrastructure \<Rightarrow> 1 | ReconcileDomainPolicy \<Rightarrow> 2 | ReconcileDomainTarget \<Rightarrow> 3
      | ReconcileDomain_other k \<Rightarrow> unat k)"

fun frame_join :: "string list \<Rightarrow> string" where
  "frame_join [] = []"
| "frame_join [s] = s"
| "frame_join (s # t # r) = s @ [CHR 0x5C, CHR ''n''] @ frame_join (t # r)"

definition retry_frame :: "PersistedReconcileState \<Rightarrow> u64 \<Rightarrow> string" where
  "retry_frame state previous =
     frame_join
       [''guard-reconcile-retry/v1'', prs_NodeID state, Itoa (domain_number (prs_Domain state)),
        Itoa (unat (prs_InfrastructureRevision state)), Itoa (unat (prs_PolicyRevision state)),
        Prefix_String (prs_Target state), Itoa (unat (prs_TargetGeneration state)),
        Itoa (unat previous), Itoa (unat (prs_RetryEpoch state))]"

definition reconcileRetryAudit :: "PersistedReconcileState \<Rightarrow> u64 \<Rightarrow> ReconcileRetryAudit" where
  "reconcileRetryAudit state previous =
     (let hexDigest = hex_EncodeToString (Sum256 (bytes_of (retry_frame state previous))) in
      \<lparr> rra_ID = ''audit-reconcile-retry-'' @ hexDigest, rra_IdempotencyKey = ''reconcile-retry:'' @ hexDigest,
        rra_NodeID = prs_NodeID state, rra_ActorType = ''administrator'', rra_PreviousEpoch = previous,
        rra_OccurredAt = prs_UpdatedAt state \<rparr>)"

definition persistRetry :: "'w Boundary \<Rightarrow> attemptRef \<Rightarrow> RetryState \<Rightarrow> u64 \<Rightarrow> ('w, reconcile_error option) act" where
  "persistRetry B ref state previous = do {
     persisted \<leftarrow> stamped_state B ref state;
     let audit = reconcileRetryAudit persisted previous;
     (case bd_Store B of
        None \<Rightarrow> do {
          failed \<leftarrow> ask (bd_AppendCriticalAudit B
            \<lparr> cae_Action = ''reconcile_retry'', cae_Domain = ref_domain ref, cae_Target = prs_Target persisted,
              cae_PreviousEpoch = previous, cae_NewEpoch = prs_RetryEpoch persisted,
              cae_OccurredAt = rra_OccurredAt audit \<rparr>);
          State_Monad.return (if failed then Some AuditFailed else None)
        }
      | Some st \<Rightarrow> do {
          let transition = \<lparr> rrt_State = persisted, rrt_Audit = audit \<rparr>;
          r \<leftarrow> ask (ss_ApplyReconcileRetryTransition st transition);
          if r \<noteq> Some ErrReconcileCommitUnknown then State_Monad.return (map_option StoreFailed r)
          else do {
            l \<leftarrow> ask (ss_ReadReconcileRetryTransition st transition);
            (case l of
               Inl e \<Rightarrow> do {
                 _ \<leftarrow> update_controller (\<lambda>c. c\<lparr>ct_recoveryReloadNeeded := True\<rparr>);
                 State_Monad.return (Some (Joined (StoreFailed ErrReconcileCommitUnknown) (StoreFailed e)))
               }
             | Inr (recovery, applied) \<Rightarrow> do {
                 c \<leftarrow> get_controller;
                 (case replaceRecovery recovery c of
                    Inl e \<Rightarrow> do {
                      _ \<leftarrow> update_controller (\<lambda>c. c\<lparr>ct_recoveryReloadNeeded := True\<rparr>);
                      State_Monad.return (Some (Joined (StoreFailed ErrReconcileCommitUnknown) (HydrateFailed e)))
                    }
                  | Inr c1 \<Rightarrow> do {
                      _ \<leftarrow> update_controller (\<lambda>_. c1\<lparr>ct_recoveryReloadNeeded := False\<rparr>);
                      State_Monad.return (if applied then None else Some (StoreFailed ErrReconcileCommitUnknown))
                    })
               })
          }
        })
   }"

definition retry_section ::
  "'w Boundary \<Rightarrow> (Controller \<Rightarrow> reconcile_error + u64 \<times> (u64 \<Rightarrow> attemptRef)) \<Rightarrow> (u64 \<Rightarrow> Controller \<Rightarrow> Controller)
    \<Rightarrow> ('w, reconcile_error + attemptRef) act" where
  "retry_section B start publish_epoch =
     unless_error (locked B (reloadRecoveryIfNeeded B)) (locked B (do {
       c \<leftarrow> get_controller;
       (case start c of
          Inl e \<Rightarrow> fail e
        | Inr (previous, ref_at) \<Rightarrow>
            if previous + 1 = 0 then fail EpochOverflow
            else unless_error (persistRetry B (ref_at (previous + 1)) pending_retry previous) (do {
              _ \<leftarrow> update_controller (markPendingRefsSuperseded (ref_at (previous + 1)));
              _ \<leftarrow> update_controller (\<lambda>c. putState (ref_at (previous + 1)) pending_retry (publish_epoch (previous + 1) c));
              ok (ref_at (previous + 1))
            }))
     }))"

definition RetryInfrastructure :: "'w Boundary \<Rightarrow> ('w, reconcile_error + attemptRef) act" where
  "RetryInfrastructure B = retry_section B
     (\<lambda>c. if \<not> ct_hasDesired c then Inl DesiredMissing
          else Inr (ct_infrastructureEpoch c, RefInfrastructure (ds_InfrastructureRevision (ct_desired c))))
     (\<lambda>e c. c\<lparr>ct_infrastructureEpoch := e\<rparr>)"

definition RetryPolicy :: "'w Boundary \<Rightarrow> ('w, reconcile_error + attemptRef) act" where
  "RetryPolicy B = retry_section B
     (\<lambda>c. if \<not> ct_hasDesired c then Inl DesiredMissing
          else Inr (ct_policyEpoch c, RefPolicy (ds_PolicyRevision (ct_desired c))))
     (\<lambda>e c. c\<lparr>ct_policyEpoch := e\<rparr>)"

definition RetryTarget :: "'w Boundary \<Rightarrow> Prefix \<Rightarrow> ('w, reconcile_error + attemptRef) act" where
  "RetryTarget B target = retry_section B
     (\<lambda>c. case map_of (ct_desiredTargets c) target of
            None \<Rightarrow> Inl TargetNotDesired
          | Some intent \<Rightarrow> Inr (target_epoch c target, RefTarget target (int_Generation intent)))
     (\<lambda>e c. c\<lparr>ct_targetEpochs := AList.update target e (ct_targetEpochs c)\<rparr>)"

section \<open>Construction and accessors\<close>

definition observedSnapshotHasState :: "ObservedFirewallSnapshot \<Rightarrow> bool" where
  "observedSnapshotHasState s \<longleftrightarrow> ofu_Infrastructure s \<noteq> None \<or> ofu_Policy s \<noteq> None \<or> ofu_Targets s \<noteq> []"

definition seedObservedClock :: "ObservedFirewallSnapshot \<Rightarrow> Controller \<Rightarrow> Controller" where
  "seedObservedClock snapshot c =
     (let times = (case ofu_Infrastructure snapshot of None \<Rightarrow> [] | Some i \<Rightarrow> [ios_ObservedAt i])
                  @ (case ofu_Policy snapshot of None \<Rightarrow> [] | Some p \<Rightarrow> [pos_ObservedAt p])
                  @ map pto_ObservedAt (ofu_Targets snapshot)
      in c\<lparr>ct_lastObservedAt := fold (\<lambda>t last. max last (t - t mod 1000)) times (ct_lastObservedAt c)\<rparr>)"

definition NewPersistentController ::
  "string \<Rightarrow> 'w PersistentStateStore \<Rightarrow> 'w \<Rightarrow> (reconcile_error + Controller) \<times> 'w" where
  "NewPersistentController nodeID st w =
     (case ss_LoadReconcileRecovery st nodeID w of
        (Inl e, w1) \<Rightarrow> (Inl (StoreFailed e), w1)
      | (Inr recovery, w1) \<Rightarrow>
          (case hydrateRecovery recovery (NewController\<lparr>ct_nodeID := nodeID\<rparr>) of
             Inl e \<Rightarrow> (Inl (HydrateFailed e), w1)
           | Inr c \<Rightarrow>
               (case ss_LoadObservedFirewallSnapshot st nodeID w1 of
                  (Inl e, w2) \<Rightarrow> (Inl (StoreFailed e), w2)
                | (Inr observed, w2) \<Rightarrow>
                    if ofu_NodeID observed \<noteq> [] \<and> ofu_NodeID observed \<noteq> nodeID then (Inl ForeignObserved, w2)
                    else (Inr ((seedObservedClock observed c)
                            \<lparr>ct_startupProbeRequired := (rrs_States recovery \<noteq> [] \<or> rrs_ProbeRequirements recovery \<noteq> []
                                                         \<or> observedSnapshotHasState observed)\<rparr>), w2))))"

definition InfrastructureState :: "Controller \<Rightarrow> attemptRef \<times> RetryState option" where
  "InfrastructureState c =
     (let ref = RefInfrastructure (ds_InfrastructureRevision (ct_desired c)) (ct_infrastructureEpoch c)
      in (ref, stateForRef c ref))"

definition PolicyState :: "Controller \<Rightarrow> attemptRef \<times> RetryState option" where
  "PolicyState c =
     (let ref = RefPolicy (ds_PolicyRevision (ct_desired c)) (ct_policyEpoch c) in (ref, stateForRef c ref))"

definition TargetState :: "Controller \<Rightarrow> Prefix \<Rightarrow> (attemptRef \<times> RetryState option) option" where
  "TargetState c target =
     map_option (\<lambda>ref. (ref, stateForRef c ref)) (current_ref c DomainTarget target)"

definition ConfirmedTarget :: "Controller \<Rightarrow> Prefix \<Rightarrow> u64 option" where
  "ConfirmedTarget c target = map_of (ct_confirmedTargets c) target"

definition ProbeRequired :: "Controller \<Rightarrow> bool" where
  "ProbeRequired c \<longleftrightarrow> ct_pendingProbes c \<noteq> []"

end
