(* ===== verification/Reconcile_Logic.thy ===== *)
theory Reconcile_Logic
  imports Reconcile_Recovery
begin

text \<open>
  Invariants of the controller's operations. An operation keeps a predicate when it holds afterwards
  whenever it held before; the locale \<open>section_invariant\<close> derives, from what the elementary updates of a
  critical section keep, what the sections keep that neither begin an attempt nor confirm a target.
\<close>

section \<open>Keeping a predicate\<close>

definition keeps :: "('s \<Rightarrow> bool) \<Rightarrow> ('s, 'a) state \<Rightarrow> bool" where
  "keeps I m \<longleftrightarrow> (\<forall>s. I s \<longrightarrow> I (snd (run_state m s)))"

lemma run_bind: "run_state (State_Monad.bind m f) s = (case run_state m s of (a, s') \<Rightarrow> run_state (f a) s')"
  by (simp add: State_Monad.bind_def split_def)

lemma run_return [simp]: "run_state (State_Monad.return x) s = (x, s)"
  by (simp add: State_Monad.return_def)

lemma keepsI: "(\<And>s. I s \<Longrightarrow> I (snd (run_state m s))) \<Longrightarrow> keeps I m"
  by (simp add: keeps_def)

lemma keepsD: "keeps I m \<Longrightarrow> I s \<Longrightarrow> I (snd (run_state m s))"
  by (simp add: keeps_def)

lemma keeps_return [intro!, simp]: "keeps I (State_Monad.return x)"
  by (simp add: keeps_def)

lemma keeps_bind: "keeps I m \<Longrightarrow> (\<And>x. keeps I (f x)) \<Longrightarrow> keeps I (State_Monad.bind m f)"
  by (fastforce simp: keeps_def run_bind split: prod.splits)

lemma keeps_ok [intro!, simp]: "keeps I (ok x)"
  by (simp add: ok_def)

lemma keeps_fail [intro!, simp]: "keeps I (fail e)"
  by (simp add: fail_def)

lemma keeps_get [intro!, simp]: "keeps I get_controller"
  by (simp add: keeps_def get_controller_def)

lemma keeps_if: "(b \<Longrightarrow> keeps I m) \<Longrightarrow> (\<not> b \<Longrightarrow> keeps I n) \<Longrightarrow> keeps I (if b then m else n)"
  by simp

lemma keeps_option: "(x = None \<Longrightarrow> keeps I m) \<Longrightarrow> (\<And>y. x = Some y \<Longrightarrow> keeps I (f y))
    \<Longrightarrow> keeps I (case x of None \<Rightarrow> m | Some y \<Rightarrow> f y)"
  by (cases x) auto

lemma keeps_sum: "(\<And>a. x = Inl a \<Longrightarrow> keeps I (f a)) \<Longrightarrow> (\<And>b. x = Inr b \<Longrightarrow> keeps I (g b))
    \<Longrightarrow> keeps I (case x of Inl a \<Rightarrow> f a | Inr b \<Rightarrow> g b)"
  by (cases x) auto

lemma keeps_prod: "(\<And>a b. x = (a, b) \<Longrightarrow> keeps I (f a b)) \<Longrightarrow> keeps I (case x of (a, b) \<Rightarrow> f a b)"
  by (cases x) auto

lemma keeps_let: "keeps I (f x) \<Longrightarrow> keeps I (let y = x in f y)"
  by simp

lemma keeps_andThen: "keeps I m \<Longrightarrow> (\<And>x. keeps I (f x)) \<Longrightarrow> keeps I (andThen m f)"
  unfolding andThen_def by (intro keeps_bind keeps_sum) auto

lemma keeps_unless: "keeps I m \<Longrightarrow> keeps I k \<Longrightarrow> keeps I (unless_error m k)"
  unfolding unless_error_def by (intro keeps_bind keeps_option) auto

lemma keeps_update: "(\<And>s. I s \<Longrightarrow> I (s\<lparr>sys_controller := f (sys_controller s)\<rparr>)) \<Longrightarrow> keeps I (update_controller f)"
  by (simp add: keeps_def update_controller_def)

lemma keeps_at_controller:
  assumes "\<And>s. I s \<Longrightarrow> I (snd (run_state (f (sys_controller s)) s))"
  shows "keeps I (State_Monad.bind get_controller f)"
  using assms by (simp add: keeps_def run_bind get_controller_def)

lemmas keeps_rules = keeps_bind keeps_if keeps_option keeps_sum keeps_prod keeps_let keeps_andThen keeps_unless

text \<open>An operation that ends in another predicate than it started in.\<close>

definition leads :: "('s \<Rightarrow> bool) \<Rightarrow> ('s, 'a) state \<Rightarrow> ('s \<Rightarrow> bool) \<Rightarrow> bool" where
  "leads P m Q \<longleftrightarrow> (\<forall>s. P s \<longrightarrow> Q (snd (run_state m s)))"

lemma keeps_leads: "leads I m I \<Longrightarrow> keeps I m"
  by (simp add: keeps_def leads_def)

lemma leads_keeps: "keeps P m \<Longrightarrow> (\<And>s. P s \<Longrightarrow> Q s) \<Longrightarrow> leads P m Q"
  by (simp add: keeps_def leads_def)

lemma leads_pre: "keeps Q m \<Longrightarrow> (\<And>s. P s \<Longrightarrow> Q s) \<Longrightarrow> leads P m Q"
  by (simp add: keeps_def leads_def)

lemma leads_then: "leads P m Q \<Longrightarrow> (\<And>x. keeps Q (f x)) \<Longrightarrow> leads P (State_Monad.bind m f) Q"
  by (fastforce simp: keeps_def leads_def run_bind split: prod.splits)

lemma leads_after: "keeps P m \<Longrightarrow> (\<And>x. leads P (f x) Q) \<Longrightarrow> leads P (State_Monad.bind m f) Q"
  by (fastforce simp: keeps_def leads_def run_bind split: prod.splits)

lemma leads_unless: "keeps P m \<Longrightarrow> (\<And>s. P s \<Longrightarrow> Q s) \<Longrightarrow> leads P k Q \<Longrightarrow> leads P (unless_error m k) Q"
  unfolding unless_error_def by (rule leads_after) (auto simp: leads_def fail_def split: option.splits)

lemma leads_if: "(b \<Longrightarrow> leads P m Q) \<Longrightarrow> (\<not> b \<Longrightarrow> leads P n Q) \<Longrightarrow> leads P (if b then m else n) Q"
  by simp

lemma leads_fail: "(\<And>s. P s \<Longrightarrow> Q s) \<Longrightarrow> leads P (fail e) Q"
  by (simp add: leads_def fail_def)

lemma leads_let: "leads P (f x) Q \<Longrightarrow> leads P (let y = x in f y) Q"
  by simp

section \<open>Sections\<close>

definition bookkeeping :: "Controller \<Rightarrow> Controller \<Rightarrow> bool" where
  "bookkeeping c c' \<longleftrightarrow>
     (\<exists>p sy st r l. c' = c\<lparr>ct_pendingProbes := p, ct_syntheticRefs := sy, ct_startupProbeRequired := st,
                           ct_recoveryReloadNeeded := r, ct_lastObservedAt := l\<rparr>)"

lemma bookkeeping_updates [simp]:
  "bookkeeping c (put_pending key ref c)" "bookkeeping c (delete_pending key c)" "bookkeeping c (delete_synthetic ref c)"
  "bookkeeping c (c\<lparr>ct_startupProbeRequired := b\<rparr>)" "bookkeeping c (c\<lparr>ct_recoveryReloadNeeded := b\<rparr>)"
  "bookkeeping c (c\<lparr>ct_lastObservedAt := t\<rparr>)" "bookkeeping c (markPendingRefsSuperseded ref c)" "bookkeeping c c"
  unfolding bookkeeping_def put_pending_def delete_pending_def delete_synthetic_def markPendingRefsSuperseded_def
  by (cases c; auto)+

definition same_attempts :: "'w Boundary \<Rightarrow> Controller \<Rightarrow> attemptRef \<Rightarrow> RetryState \<Rightarrow> bool" where
  "same_attempts B c ref state \<longleftrightarrow>
     bd_Store B = None \<longrightarrow> rs_AttemptCount state = rs_AttemptCount (getState c ref)"

locale section_invariant =
  fixes B :: "'w Boundary" and I :: "'w system \<Rightarrow> bool"
  assumes world: "I s \<Longrightarrow> I (s\<lparr>sys_world := w\<rparr>)"
    and books: "I s \<Longrightarrow> bookkeeping (sys_controller s) c \<Longrightarrow> I (s\<lparr>sys_controller := c\<rparr>)"
    and ledger: "I s \<Longrightarrow> same_attempts B (sys_controller s) ref state
      \<Longrightarrow> I (s\<lparr>sys_controller := putState ref state (sys_controller s)\<rparr>)"
    and reload: "I s \<Longrightarrow> bd_Store B \<noteq> None \<Longrightarrow> replaceRecovery recovery (sys_controller s) = Inr c
      \<Longrightarrow> I (s\<lparr>sys_controller := c\<rparr>)"
begin

lemma keeps_ask [simp, intro!]: "keeps I (ask f)"
  using world by (auto simp: keeps_def ask_def split: prod.splits)

lemma keeps_now [simp, intro!]: "keeps I (now B)"
  by (simp add: now_def)

lemma keeps_books: "(\<And>c. bookkeeping c (f c)) \<Longrightarrow> keeps I (update_controller f)"
  using books by (intro keeps_update) blast

lemma keeps_replace:
  assumes "bd_Store B \<noteq> None" and "\<And>e. keeps I (f e)" and "\<And>x. keeps I (g x)"
  shows "keeps I (State_Monad.bind get_controller (\<lambda>c. case replaceRecovery recovery c of
      Inl e \<Rightarrow> f e | Inr c1 \<Rightarrow> State_Monad.bind (update_controller (\<lambda>_. c1\<lparr>ct_recoveryReloadNeeded := b\<rparr>)) g))"
proof (rule keeps_at_controller)
  fix s assume s: "I s"
  show "I (snd (run_state (case replaceRecovery recovery (sys_controller s) of
      Inl e \<Rightarrow> f e | Inr c1 \<Rightarrow> State_Monad.bind (update_controller (\<lambda>_. c1\<lparr>ct_recoveryReloadNeeded := b\<rparr>)) g) s))"
  proof (cases "replaceRecovery recovery (sys_controller s)")
    case (Inl e)
    then show ?thesis using assms(2) s by (simp add: keepsD)
  next
    case (Inr c1)
    have "I (s\<lparr>sys_controller := c1\<rparr>)" using reload [OF s assms(1) Inr] .
    then have "I (s\<lparr>sys_controller := c1\<lparr>ct_recoveryReloadNeeded := b\<rparr>\<rparr>)"
      using books [of "s\<lparr>sys_controller := c1\<rparr>"] by simp
    then show ?thesis using Inr assms(3) by (simp add: run_bind update_controller_def keepsD)
  qed
qed

lemma keeps_stamped [simp, intro!]:
  "keeps I (stamped_state B ref state)" "keeps I (stamped_probe B key ref n)" "keeps I (optional_probe B k ref n)"
  unfolding stamped_state_def stamped_probe_def optional_probe_def by (intro keeps_rules; simp)+

lemma keeps_flag [simp, intro!]:
  "keeps I (update_controller (\<lambda>c. c\<lparr>ct_recoveryReloadNeeded := b\<rparr>))"
  "keeps I (update_controller (\<lambda>c. c\<lparr>ct_startupProbeRequired := b\<rparr>))"
  "keeps I (update_controller (\<lambda>c. c\<lparr>ct_lastObservedAt := t\<rparr>))"
  "keeps I (update_controller (put_pending key ref))" "keeps I (update_controller (delete_pending key))"
  by (rule keeps_books, simp)+

lemma keeps_applyTransition [simp, intro!]: "bd_Store B \<noteq> None \<Longrightarrow> keeps I (applyTransition B st transition)"
  unfolding applyTransition_def
  by (intro keeps_bind keeps_if keeps_sum keeps_option keeps_replace) auto

lemma keeps_persist [simp, intro!]:
  "keeps I (persistApplyingState B ref state key previous)"
  "keeps I (persistStateWithObserved B ref state up del observed)"
  "keeps I (persistStateAndClearProbe B ref state key pending)"
  "keeps I (clearProbe B key pending)"
  unfolding persistApplyingState_def persistStateWithObserved_def persistStateAndClearProbe_def clearProbe_def
  by (intro keeps_rules; simp)+

lemma keeps_reload [simp, intro!]: "keeps I (reloadRecoveryIfNeeded B)"
  unfolding reloadRecoveryIfNeeded_def by (intro keeps_bind keeps_if keeps_sum keeps_option keeps_replace) auto

lemma keeps_observed [simp, intro!]:
  "keeps I (nextObservedAt B)" "keeps I (validated_update u)" "keeps I (observedUpdateForSnapshot B snapshot)"
  "keeps I (unknownObservedUpdate B domain target code)" "keeps I (allUnknownObservedUpdate B code)"
  "keeps I (persistObserved B update)"
proof -
  show n: "keeps I (nextObservedAt B)" unfolding nextObservedAt_def by (intro keeps_rules; simp)
  show v: "keeps I (validated_update u)" for u unfolding validated_update_def by (intro keeps_rules; simp)
  show "keeps I (observedUpdateForSnapshot B snapshot)" "keeps I (unknownObservedUpdate B domain target code)"
    "keeps I (allUnknownObservedUpdate B code)"
    unfolding observedUpdateForSnapshot_def unknownObservedUpdate_def allUnknownObservedUpdate_def
    by (intro keeps_rules; simp add: n v)+
  show "keeps I (persistObserved B update)"
    unfolding persistObserved_def by (intro keeps_rules; simp)
qed

lemma keeps_fence [simp, intro!]: "keeps I (targetExpirationFenceLocked B plan)"
  unfolding targetExpirationFenceLocked_def by (intro keeps_rules; simp)

text \<open>
  A ledger write after a section persisted it: without a store the section left the controller as it
  was read, so that the attempts of the written state are those of the ledger.
\<close>

lemma keeps_ledger:
  assumes "\<And>s. I s \<Longrightarrow> bd_Store B = None \<Longrightarrow> rs_AttemptCount state = rs_AttemptCount (getState (sys_controller s) ref)"
  shows "keeps I (update_controller (putState ref state))"
  using assms by (intro keeps_update ledger) (simp_all add: same_attempts_def)

end

section \<open>Attempts of one ledger entry\<close>

text \<open>Without a store, a section that keeps \<open>I\<close> also keeps the attempts of every ledger entry.\<close>

definition counted :: "'w Boundary \<Rightarrow> ('w system \<Rightarrow> bool) \<Rightarrow> attemptRef \<Rightarrow> nat \<Rightarrow> 'w system \<Rightarrow> bool" where
  "counted B I ref n s \<longleftrightarrow>
     I s \<and> (bd_Store B = None \<longrightarrow> rs_AttemptCount (getState (sys_controller s) ref) = n)"

lemma getState_putState: "getState (putState ref state c) ref' = (if ref' = ref then state else getState c ref')"
  by (simp add: getState_def stateForRef_def putState_def update_conv')

lemma getState_books: "bookkeeping c c' \<Longrightarrow> getState c' ref = getState c ref"
  by (auto simp: bookkeeping_def getState_def stateForRef_def)

context section_invariant
begin

lemma counted_section: "section_invariant B (counted B I ref n)"
proof
  fix s w assume "counted B I ref n s"
  then show "counted B I ref n (s\<lparr>sys_world := w\<rparr>)" using world by (simp add: counted_def)
next
  fix s c assume "counted B I ref n s" "bookkeeping (sys_controller s) c"
  then show "counted B I ref n (s\<lparr>sys_controller := c\<rparr>)" using books by (simp add: counted_def getState_books)
next
  fix s ref' state assume "counted B I ref n s" "same_attempts B (sys_controller s) ref' state"
  then show "counted B I ref n (s\<lparr>sys_controller := putState ref' state (sys_controller s)\<rparr>)"
    using ledger by (auto simp: counted_def getState_putState same_attempts_def)
next
  fix s recovery c
  assume "counted B I ref n s" "bd_Store B \<noteq> None" "replaceRecovery recovery (sys_controller s) = Inr c"
  then show "counted B I ref n (s\<lparr>sys_controller := c\<rparr>)" using reload by (auto simp: counted_def)
qed

lemmas counted_rules = section_invariant.keeps_persist [OF counted_section] section_invariant.keeps_now [OF counted_section]
  section_invariant.keeps_flag [OF counted_section] section_invariant.keeps_books [OF counted_section]

lemma keeps_write: "rs_AttemptCount state = n \<Longrightarrow> keeps (counted B I ref n) (update_controller (putState ref state))"
  by (rule section_invariant.keeps_ledger [OF counted_section]) (simp add: counted_def)

lemma keeps_counted:
  assumes "\<And>c. keeps (counted B I (ref c) (rs_AttemptCount (getState c (ref c)))) (f c)"
  shows "keeps I (State_Monad.bind get_controller f)"
proof (rule keeps_at_controller)
  fix s assume "I s"
  then have "counted B I (ref (sys_controller s)) (rs_AttemptCount (getState (sys_controller s) (ref (sys_controller s)))) s"
    by (simp add: counted_def)
  then show "I (snd (run_state (f (sys_controller s)) s))"
    using keepsD [OF assms] by (auto simp: counted_def)
qed

lemma failed_state_attempts: "failed_state code b t s = Some s' \<Longrightarrow> rs_AttemptCount s' = rs_AttemptCount s"
  by (auto simp: failed_state_def split: if_splits)

lemma keeps_finishFailureLocked [simp, intro!]:
  "keeps I (finishFailureLocked B ref key code canRetry requireProbe observed)"
  unfolding finishFailureLocked_def
  by (rule keeps_counted [where ref = "\<lambda>_. ref"])
    (intro keeps_rules keeps_write; auto simp: counted_rules failed_state_attempts)

lemma keeps_finishStaleLocked [simp, intro!]: "keeps I (finishStaleLocked B ref key)"
  unfolding finishStaleLocked_def
  by (rule keeps_counted [where ref = "\<lambda>_. ref"])
    (intro keeps_rules keeps_write; auto simp: counted_rules)

end

section \<open>Confirmations\<close>

text \<open>A snapshot confirms a generation of a target when it shows the desired intent of that generation.\<close>

definition confirms :: "(Prefix \<times> NormalizedTargetEnforcementIntent) list \<Rightarrow> Prefix \<Rightarrow> u64 \<Rightarrow> Snapshot \<Rightarrow> bool" where
  "confirms desired target generation snapshot \<longleftrightarrow>
     (\<exists>intent. map_of desired target = Some intent \<and> int_Generation intent = generation
        \<and> physicalTargetMatches (sn_Targets snapshot) intent)"

text \<open>The ledger keys that a retry opens, with the controller that has their epoch as the current one.\<close>

inductive next_epoch :: "Controller \<Rightarrow> attemptRef \<Rightarrow> Controller \<Rightarrow> bool" where
  infrastructure: "ct_infrastructureEpoch c + 1 \<noteq> 0 \<Longrightarrow>
    next_epoch c (RefInfrastructure (ds_InfrastructureRevision (ct_desired c)) (ct_infrastructureEpoch c + 1))
      (c\<lparr>ct_infrastructureEpoch := ct_infrastructureEpoch c + 1\<rparr>)"
| policy: "ct_policyEpoch c + 1 \<noteq> 0 \<Longrightarrow>
    next_epoch c (RefPolicy (ds_PolicyRevision (ct_desired c)) (ct_policyEpoch c + 1))
      (c\<lparr>ct_policyEpoch := ct_policyEpoch c + 1\<rparr>)"
| target: "map_of (ct_desiredTargets c) target = Some intent \<Longrightarrow> target_epoch c target + 1 \<noteq> 0 \<Longrightarrow>
    next_epoch c (RefTarget target (int_Generation intent) (target_epoch c target + 1))
      (c\<lparr>ct_targetEpochs := AList.update target (target_epoch c target + 1) (ct_targetEpochs c)\<rparr>)"

definition same_desired :: "Controller \<Rightarrow> Controller \<Rightarrow> bool" where
  "same_desired c c' \<longleftrightarrow>
     ct_hasDesired c' = ct_hasDesired c \<and> ct_desired c' = ct_desired c \<and> ct_desiredTargets c' = ct_desiredTargets c
     \<and> ct_infrastructureEpoch c' = ct_infrastructureEpoch c \<and> ct_policyEpoch c' = ct_policyEpoch c
     \<and> ct_targetEpochs c' = ct_targetEpochs c"

text \<open>
  An invariant of the attempts: besides the updates of a section it survives the calls of the backend,
  the begin of an attempt on the current key within the budget, and the confirmation of a target by a
  probed snapshot that shows its desired intent.
\<close>

locale attempt_invariant = section_invariant +
  assumes probed: "I s \<Longrightarrow> I (s\<lparr>sys_log := sys_log s @ [Probed r]\<rparr>)"
    and applied: "I s \<Longrightarrow> I (s\<lparr>sys_log := sys_log s @ [Applied plan]\<rparr>)"
    and begun: "I s \<Longrightarrow> same_attempts B (sys_controller s) ref state \<Longrightarrow> rs_AttemptCount state < maxMutationAttempts
      \<Longrightarrow> (bd_Store B = None \<Longrightarrow> attemptState (sys_controller s) plan = Some ref)
      \<Longrightarrow> I (s\<lparr>sys_controller := putState ref (begun_state t state) (sys_controller s),
               sys_log := sys_log s @ [Begun ref (Suc (rs_AttemptCount state))]\<rparr>)"
    and confirmed: "I s \<Longrightarrow> confirms (ct_desiredTargets (sys_controller s)) target generation snapshot
      \<Longrightarrow> Probed (Some snapshot) \<in> set (sys_log s)
      \<Longrightarrow> I (s\<lparr>sys_controller := confirm_target target generation (sys_controller s),
               sys_log := sys_log s @ [Confirmed target generation (map_of (ct_desiredTargets (sys_controller s)) target) snapshot]\<rparr>)"

locale controller_invariant = attempt_invariant +
  assumes published: "I s \<Longrightarrow> I (s\<lparr>sys_controller := snd (SetDesiredSnapshot snapshot (sys_controller s))\<rparr>)"
    and retried: "I s \<Longrightarrow> ct_desiredTargets c = ct_desiredTargets (sys_controller s)
      \<Longrightarrow> ct_hasDesired c = ct_hasDesired (sys_controller s) \<Longrightarrow> ct_desired c = ct_desired (sys_controller s)
      \<Longrightarrow> ct_confirmedTargets c = ct_confirmedTargets (sys_controller s)
      \<Longrightarrow> (bd_Store B = None \<Longrightarrow> next_epoch (sys_controller s) ref c)
      \<Longrightarrow> I (s\<lparr>sys_controller := putState ref pending_retry c\<rparr>)"

definition pinned :: "'w Boundary \<Rightarrow> ('w system \<Rightarrow> bool) \<Rightarrow> Controller \<Rightarrow> 'w system \<Rightarrow> bool" where
  "pinned B I c s \<longleftrightarrow>
     I s \<and> ct_desiredTargets (sys_controller s) = ct_desiredTargets c
     \<and> (bd_Store B = None \<longrightarrow> same_desired c (sys_controller s))"

definition seen :: "('w system \<Rightarrow> bool) \<Rightarrow> Snapshot \<Rightarrow> 'w system \<Rightarrow> bool" where
  "seen I snapshot s \<longleftrightarrow> I s \<and> Probed (Some snapshot) \<in> set (sys_log s)"

lemma same_desired_updates:
  "same_desired c c"
  "same_desired c c' \<Longrightarrow> same_desired c (putState ref state c')"
  "same_desired c c' \<Longrightarrow> same_desired c (confirm_target t g c')"
  "same_desired c c' \<Longrightarrow> bookkeeping c' c'' \<Longrightarrow> same_desired c c''"
  by (auto simp: same_desired_def putState_def confirm_target_def bookkeeping_def)

lemma attemptState_same_desired: "same_desired c c' \<Longrightarrow> attemptState c' plan = attemptState c plan"
  by (simp add: same_desired_def attemptState_def target_epoch_def split: Domain.splits)

lemma bookkeeping_desired: "bookkeeping c c' \<Longrightarrow> ct_desiredTargets c' = ct_desiredTargets c"
  by (auto simp: bookkeeping_def)

lemma putState_desired [simp]: "ct_desiredTargets (putState ref state c) = ct_desiredTargets c"
  by (simp add: putState_def)

lemma confirm_target_desired [simp]: "ct_desiredTargets (confirm_target t g c) = ct_desiredTargets c"
  by (simp add: confirm_target_def)

lemma confirm_target_state [simp]: "getState (confirm_target t g c) ref = getState c ref"
  by (simp add: confirm_target_def getState_def stateForRef_def)

lemma replaceRecovery_desired: "replaceRecovery r c = Inr c' \<Longrightarrow> ct_desiredTargets c' = ct_desiredTargets c"
  by (auto simp: replaceRecovery_def Let_def activateHydratedState_def)

lemma snapshot_confirms:
  "snapshotMatchesCurrentDesired c snapshot DomainTarget target \<Longrightarrow>
   map_of (ct_desiredTargets c) target = Some intent \<Longrightarrow>
   confirms (ct_desiredTargets c) target (int_Generation intent) snapshot"
  by (auto simp: snapshotMatchesCurrentDesired_def confirms_def split: option.splits)

lemma key_confirms:
  "pendingKeyMatchesCurrentDesired c key \<Longrightarrow> snapshotMatchesCurrentDesired c snapshot (pk_domain key) (pk_target key)
    \<Longrightarrow> pk_domain key = DomainTarget \<Longrightarrow> confirms (ct_desiredTargets c) (pk_target key) (pk_targetGeneration key) snapshot"
  by (auto simp: pendingKeyMatchesCurrentDesired_def intro: snapshot_confirms split: option.splits)

lemma plan_confirms:
  "planMatchesCurrentDesired c plan \<Longrightarrow> snapshotMatchesCurrentDesired c snapshot (op_Domain plan) (op_Target plan)
    \<Longrightarrow> op_Domain plan = DomainTarget \<Longrightarrow> confirms (ct_desiredTargets c) (op_Target plan) (op_ExpectedTargetGeneration plan) snapshot"
  by (auto simp: planMatchesCurrentDesired_def intro: snapshot_confirms split: option.splits)

context attempt_invariant
begin

lemma pinned_attempt: "attempt_invariant B (pinned B I c0)"
proof
  fix s w assume "pinned B I c0 s"
  then show "pinned B I c0 (s\<lparr>sys_world := w\<rparr>)" using world by (simp add: pinned_def)
next
  fix s c assume "pinned B I c0 s" "bookkeeping (sys_controller s) c"
  then show "pinned B I c0 (s\<lparr>sys_controller := c\<rparr>)"
    using books by (auto simp: pinned_def bookkeeping_desired intro: same_desired_updates)
next
  fix s ref state assume "pinned B I c0 s" "same_attempts B (sys_controller s) ref state"
  then show "pinned B I c0 (s\<lparr>sys_controller := putState ref state (sys_controller s)\<rparr>)"
    using ledger by (auto simp: pinned_def intro: same_desired_updates)
next
  fix s recovery c
  assume "pinned B I c0 s" "bd_Store B \<noteq> None" "replaceRecovery recovery (sys_controller s) = Inr c"
  then show "pinned B I c0 (s\<lparr>sys_controller := c\<rparr>)"
    using reload by (auto simp: pinned_def dest: replaceRecovery_desired)
next
  fix s r assume "pinned B I c0 s"
  then show "pinned B I c0 (s\<lparr>sys_log := sys_log s @ [Probed r]\<rparr>)" using probed by (simp add: pinned_def)
next
  fix s plan assume "pinned B I c0 s"
  then show "pinned B I c0 (s\<lparr>sys_log := sys_log s @ [Applied plan]\<rparr>)" using applied by (simp add: pinned_def)
next
  fix s ref state plan t
  assume "pinned B I c0 s" "same_attempts B (sys_controller s) ref state" "rs_AttemptCount state < maxMutationAttempts"
    "bd_Store B = None \<Longrightarrow> attemptState (sys_controller s) plan = Some ref"
  then show "pinned B I c0 (s\<lparr>sys_controller := putState ref (begun_state t state) (sys_controller s),
      sys_log := sys_log s @ [Begun ref (Suc (rs_AttemptCount state))]\<rparr>)"
    using begun [of s ref state plan t] by (auto simp: pinned_def intro: same_desired_updates)
next
  fix s target generation snapshot
  assume "pinned B I c0 s" "confirms (ct_desiredTargets (sys_controller s)) target generation snapshot"
    "Probed (Some snapshot) \<in> set (sys_log s)"
  then show "pinned B I c0 (s\<lparr>sys_controller := confirm_target target generation (sys_controller s),
      sys_log := sys_log s @ [Confirmed target generation (map_of (ct_desiredTargets (sys_controller s)) target) snapshot]\<rparr>)"
    using confirmed [of s target generation snapshot] by (auto simp: pinned_def intro: same_desired_updates)
qed

lemma seen_attempt: "attempt_invariant B (seen I snapshot)"
proof
  fix s ref state plan t
  assume "seen I snapshot s" "same_attempts B (sys_controller s) ref state" "rs_AttemptCount state < maxMutationAttempts"
    "bd_Store B = None \<Longrightarrow> attemptState (sys_controller s) plan = Some ref"
  then show "seen I snapshot (s\<lparr>sys_controller := putState ref (begun_state t state) (sys_controller s),
      sys_log := sys_log s @ [Begun ref (Suc (rs_AttemptCount state))]\<rparr>)"
    using begun [of s ref state plan t] by (auto simp: seen_def)
qed (auto simp: seen_def intro: world books ledger reload probed applied confirmed)

end

end
