(* ===== verification/Reconcile_Attempts.thy ===== *)
theory Reconcile_Attempts
  imports Reconcile_Logic
begin

text \<open>
  What the operations of the controller keep: every invariant of the attempts survives the operations that
  begin, finish and recover an attempt, and every invariant of the controller survives all its operations.
\<close>

definition shows_probe :: "('w system \<Rightarrow> bool) \<Rightarrow> Snapshot \<Rightarrow> bool" where
  "shows_probe I snapshot \<longleftrightarrow> (\<forall>s. I s \<longrightarrow> Probed (Some snapshot) \<in> set (sys_log s))"

lemma retry_state_attempts [simp]: "rs_AttemptCount (retry_state c ref) = rs_AttemptCount (getState c ref)"
  by (simp add: retry_state_def getState_def zero_retry_def pending_retry_def split: option.splits)

lemma converged_state_attempts [simp]: "rs_AttemptCount (converged_state s) = rs_AttemptCount s"
  by (simp add: converged_state_def)

lemma pinnedD: "pinned B I c s \<Longrightarrow> I s"
  by (simp add: pinned_def)

lemma pinned_desired: "pinned B I c s \<Longrightarrow> ct_desiredTargets (sys_controller s) = ct_desiredTargets c"
  by (simp add: pinned_def)

lemma countedD: "counted B I ref n s \<Longrightarrow> I s"
  by (simp add: counted_def)

lemma at_holds: "counted B (pinned B I c) ref n s \<Longrightarrow> I s"
  by (simp add: counted_def pinned_def)

lemma shows_probe_weaken: "shows_probe I snapshot \<Longrightarrow> (\<And>s. J s \<Longrightarrow> I s) \<Longrightarrow> shows_probe J snapshot"
  by (simp add: shows_probe_def)

lemma shows_probe_seen [simp]: "shows_probe (seen I snapshot) snapshot"
  by (simp add: shows_probe_def seen_def)

lemma shows_probe_pinned: "shows_probe I snapshot \<Longrightarrow> shows_probe (pinned B I c) snapshot"
  by (erule shows_probe_weaken) (rule pinnedD)

text \<open>Plans and keys that match the desired state are confirmed by a snapshot that shows it.\<close>

definition plan_desired :: "Controller \<Rightarrow> OperationPlan \<Rightarrow> bool" where
  "plan_desired c plan \<longleftrightarrow> op_Domain plan = DomainTarget \<longrightarrow>
     (\<exists>intent. map_of (ct_desiredTargets c) (op_Target plan) = Some intent
        \<and> int_Generation intent = op_ExpectedTargetGeneration plan)"

lemma plan_desired_matches: "planMatchesCurrentDesired c plan \<Longrightarrow> plan_desired c plan"
  by (auto simp: plan_desired_def planMatchesCurrentDesired_def split: option.splits)

lemma plan_desired_confirms:
  "plan_desired c plan \<Longrightarrow> snapshotMatchesCurrentDesired c snapshot (op_Domain plan) (op_Target plan)
    \<Longrightarrow> op_Domain plan = DomainTarget \<Longrightarrow> confirms (ct_desiredTargets c) (op_Target plan) (op_ExpectedTargetGeneration plan) snapshot"
  by (auto simp: plan_desired_def dest: snapshot_confirms)

lemma key_plan_confirms:
  "pendingKeyMatchesCurrentDesired c (pendingProbeKeyForPlan plan)
    \<Longrightarrow> snapshotMatchesCurrentDesired c snapshot (pk_domain (pendingProbeKeyForPlan plan)) (pk_target (pendingProbeKeyForPlan plan))
    \<Longrightarrow> op_Domain plan = DomainTarget \<Longrightarrow> confirms (ct_desiredTargets c) (op_Target plan) (op_ExpectedTargetGeneration plan) snapshot"
  using key_confirms [of c "pendingProbeKeyForPlan plan" snapshot] by (simp add: pendingProbeKeyForPlan_def)

section \<open>Operations within a section\<close>

context attempt_invariant
begin

lemmas pinned_section = attempt_invariant.axioms(1) [OF pinned_attempt]

lemmas section_at = section_invariant.counted_section [OF pinned_section]

lemmas at_rules = section_invariant.keeps_persist [OF section_at] section_invariant.keeps_now [OF section_at]
  section_invariant.keeps_flag [OF section_at]

lemmas at_write = section_invariant.keeps_write [OF pinned_section]

lemma keeps_delete_synthetic: "keeps I (update_controller (delete_synthetic ref))"
  by (rule keeps_books) simp

lemmas at_synthetic = section_invariant.keeps_books [OF section_at, of "delete_synthetic r" for r]

lemma keeps_here:
  assumes "\<And>s. I s \<Longrightarrow> leads (counted B (pinned B I (sys_controller s)) (ref (sys_controller s))
      (rs_AttemptCount (getState (sys_controller s) (ref (sys_controller s))))) (f (sys_controller s)) I"
  shows "keeps I (State_Monad.bind get_controller f)"
proof (rule keeps_at_controller)
  fix s assume s: "I s"
  then have "counted B (pinned B I (sys_controller s)) (ref (sys_controller s))
      (rs_AttemptCount (getState (sys_controller s) (ref (sys_controller s)))) s"
    by (simp add: counted_def pinned_def same_desired_updates)
  then show "I (snd (run_state (f (sys_controller s)) s))"
    using assms [OF s] by (simp add: leads_def)
qed

lemma keeps_here_keeps:
  assumes "\<And>s. I s \<Longrightarrow> keeps (counted B (pinned B I (sys_controller s)) (ref (sys_controller s))
      (rs_AttemptCount (getState (sys_controller s) (ref (sys_controller s))))) (f (sys_controller s))"
  shows "keeps I (State_Monad.bind get_controller f)"
  by (rule keeps_here [where ref = ref]) (auto intro: leads_keeps [OF assms] dest: countedD pinnedD)

lemma keeps_pin:
  assumes "\<And>s. I s \<Longrightarrow> leads (pinned B I (sys_controller s)) (f (sys_controller s)) I"
  shows "keeps I (State_Monad.bind get_controller f)"
proof (rule keeps_at_controller)
  fix s assume s: "I s"
  then have "pinned B I (sys_controller s) s" by (simp add: pinned_def same_desired_updates)
  then show "I (snd (run_state (f (sys_controller s)) s))" using assms [OF s] by (simp add: leads_def)
qed

lemma keeps_confirm_step:
  assumes "confirms (ct_desiredTargets c) target generation snapshot" and "shows_probe I snapshot"
  shows "keeps (counted B (pinned B I c) ref n) (confirm_step target generation snapshot)"
proof (rule keepsI)
  fix s assume "counted B (pinned B I c) ref n s"
  then show "counted B (pinned B I c) ref n (snd (run_state (confirm_step target generation snapshot) s))"
    using assms confirmed [of s target generation snapshot]
    by (auto simp: counted_def pinned_def shows_probe_def confirm_step_def log_confirmed_def log_call_def run_bind
        update_controller_def get_controller_def intro: same_desired_updates)
qed

lemma leads_put_begun:
  assumes "rs_AttemptCount state = n" "n < maxMutationAttempts" "attemptState c plan = Some ref"
  shows "leads (counted B (pinned B I c) ref n) (put_begun ref (begun_state t state)) I"
  unfolding leads_def
proof (intro allI impI)
  fix s assume "counted B (pinned B I c) ref n s"
  then show "I (snd (run_state (put_begun ref (begun_state t state)) s))"
    using assms begun [of s ref state plan t] attemptState_same_desired [of c "sys_controller s" plan]
    by (auto simp: counted_def pinned_def same_attempts_def put_begun_def log_call_def run_bind
        update_controller_def begun_state_def)
qed

lemma keeps_beginAttemptLocked [simp, intro!]: "keeps I (beginAttemptLocked B plan)"
  unfolding beginAttemptLocked_def
proof (rule keeps_unless [OF keeps_fence], rule keeps_here [where ref = "\<lambda>c. the (attemptState c plan)"], goal_cases)
  case (1 s)
  show ?case
  proof (cases "attemptState (sys_controller s) plan")
    case None
    then show ?thesis by (auto intro!: leads_fail intro: at_holds)
  next
    case (Some ref)
    have rest: "keeps I (State_Monad.bind (update_controller (put_pending key ref)) (\<lambda>_.
        State_Monad.bind (update_controller (\<lambda>c. case previous of None \<Rightarrow> c | Some p \<Rightarrow> delete_synthetic p c)) (\<lambda>_. ok r)))"
      for key previous and r :: attemptRef
      by (auto intro!: keeps_bind keeps_books split: option.splits)
    show ?thesis
      using Some
      by (auto simp: Let_def not_le intro!: leads_after [OF at_rules(5)] leads_if leads_fail leads_unless
          leads_then [OF leads_put_begun] at_rules rest intro: at_holds)
  qed
qed

text \<open>The sections that finish an attempt with a confirmation.\<close>

lemma keeps_finishRecoveredPendingLocked:
  assumes "\<And>s. I s \<Longrightarrow> pk_domain key = DomainTarget
      \<Longrightarrow> confirms (ct_desiredTargets (sys_controller s)) (pk_target key) (pk_targetGeneration key) snapshot"
    and "shows_probe I snapshot"
  shows "keeps I (finishRecoveredPendingLocked B snapshot ref key)"
  unfolding finishRecoveredPendingLocked_def
proof (rule keeps_here_keeps [where ref = "\<lambda>c. case currentStateForPendingKey c key of Some p \<Rightarrow> fst p | None \<Rightarrow> ref"], goal_cases)
  case (1 s)
  have "rs_AttemptCount found = rs_AttemptCount (getState (sys_controller s) r)"
    if "currentStateForPendingKey (sys_controller s) key = Some (r, found)" for r found
    using that by (auto simp: currentStateForPendingKey_def getState_def split: option.splits)
  then show ?case
    using assms(1) [OF 1] assms(2)
    by (auto simp: confirm_key_def intro!: keeps_rules keeps_confirm_step at_rules at_write at_synthetic split: option.splits)
qed

lemma keeps_confirm_plan:
  assumes "op_Domain plan = DomainTarget \<Longrightarrow>
      confirms (ct_desiredTargets c) (op_Target plan) (op_ExpectedTargetGeneration plan) snapshot"
    and "shows_probe I snapshot"
  shows "keeps (counted B (pinned B I c) ref n) (confirm_plan plan snapshot)"
  using assms unfolding confirm_plan_def by (intro keeps_if keeps_confirm_step) auto

lemma keeps_finishRecoveredByProbeLocked:
  assumes "\<And>s. I s \<Longrightarrow> op_Domain plan = DomainTarget
      \<Longrightarrow> confirms (ct_desiredTargets (sys_controller s)) (op_Target plan) (op_ExpectedTargetGeneration plan) snapshot"
    and "shows_probe I snapshot"
  shows "keeps I (finishRecoveredByProbeLocked B snapshot plan key pendingRef)"
  unfolding finishRecoveredByProbeLocked_def
  by (rule keeps_here_keeps [where ref = "\<lambda>c. the (attemptState c plan)"])
    (auto intro!: keeps_rules keeps_confirm_plan assms at_rules at_write at_synthetic)

lemma keeps_finishConvergedLocked:
  assumes "\<And>s. I s \<Longrightarrow> op_Domain plan = DomainTarget
      \<Longrightarrow> confirms (ct_desiredTargets (sys_controller s)) (op_Target plan) (op_ExpectedTargetGeneration plan) snapshot"
    and "shows_probe I snapshot"
  shows "keeps I (finishConvergedLocked B snapshot ref plan key observed)"
  unfolding finishConvergedLocked_def
  by (rule keeps_here_keeps [where ref = "\<lambda>_. ref"])
    (auto intro!: keeps_rules keeps_confirm_plan assms at_rules at_write)

lemma keeps_reloadSuperseded [simp, intro!]: "keeps I (reloadSupersededTargetCompletion B plan err)"
  unfolding reloadSupersededTargetCompletion_def
  by (intro keeps_bind keeps_if keeps_sum keeps_option keeps_replace) auto

lemma leads_confirmed:
  assumes "plan_desired c plan" and "snapshotMatchesCurrentDesired c snapshot (op_Domain plan) (op_Target plan)"
    and "shows_probe I snapshot"
  shows "leads (pinned B I c) (finishConvergedLocked B snapshot ref plan key observed) I"
  using assms
  by (intro leads_keeps [OF attempt_invariant.keeps_finishConvergedLocked [OF pinned_attempt]])
    (auto simp: pinned_desired intro: plan_desired_confirms shows_probe_pinned pinnedD)

lemma keeps_commit_section:
  assumes "shows_probe I snapshot" and "keeps I stale" "keeps I mismatch" "\<And>e. keeps I (finish e)"
  shows "keeps I (State_Monad.bind get_controller (\<lambda>c.
    if \<not> planMatchesCurrentDesired c plan then stale
    else if \<not> snapshotMatchesCurrentDesired c snapshot (op_Domain plan) (op_Target plan) then mismatch
    else State_Monad.bind (finishConvergedLocked B snapshot ref plan key observed) finish))"
proof (rule keeps_pin, intro leads_if, goal_cases)
  case (1 s)
  then show ?case using assms(2) by (auto intro: leads_pre pinnedD)
next
  case (2 s)
  then show ?case using assms(3) by (auto intro: leads_pre pinnedD)
next
  case (3 s)
  then show ?case using assms by (auto intro!: leads_then [OF leads_confirmed] plan_desired_matches)
qed

lemma keeps_recover_step:
  assumes "shows_probe I snapshot"
    and "pendingKeyMatchesCurrentDesired c key" "snapshotMatchesCurrentDesired c snapshot (pk_domain key) (pk_target key)"
    and rest: "keeps I rest"
  shows "leads (pinned B I c) (unless_error (finishRecoveredPendingLocked B snapshot ref key) rest) I"
    and "key = pendingProbeKeyForPlan plan \<Longrightarrow>
      leads (pinned B I c) (unless_error (finishRecoveredByProbeLocked B snapshot plan key ref) rest) I"
proof -
  have p: "shows_probe (pinned B I c) snapshot" using assms(1) by (rule shows_probe_pinned)
  show "leads (pinned B I c) (unless_error (finishRecoveredPendingLocked B snapshot ref key) rest) I"
    using assms p
    by (intro leads_unless attempt_invariant.keeps_finishRecoveredPendingLocked [OF pinned_attempt])
      (auto simp: pinned_desired intro: key_confirms leads_pre pinnedD)
  show "leads (pinned B I c) (unless_error (finishRecoveredByProbeLocked B snapshot plan key ref) rest) I"
    if "key = pendingProbeKeyForPlan plan"
    using assms p that
    by (intro leads_unless attempt_invariant.keeps_finishRecoveredByProbeLocked [OF pinned_attempt])
      (auto simp: pinned_desired intro: key_plan_confirms leads_pre pinnedD)
qed

lemma keeps_resolve_loop:
  assumes "shows_probe I snapshot"
  shows "keeps I (resolve_loop B snapshot (pendingProbeKeyForPlan plan) plan recovered keys)"
proof (induction keys arbitrary: recovered)
  case (Cons k keys)
  obtain key ref where k: "k = (key, ref)" by force
  show ?case
    unfolding k resolve_loop.simps
  proof (rule keeps_pin, intro leads_if, goal_cases)
    case (1 s)
    then show ?case by (auto intro!: leads_pre keeps_rules Cons.IH intro: pinnedD)
  next
    case (2 s)
    then show ?case by (auto intro!: leads_pre Cons.IH intro: pinnedD)
  next
    case (3 s)
    then show ?case by (auto intro!: keeps_recover_step keeps_bind assms Cons.IH)
  qed
qed simp

lemma keeps_recovery_loop:
  assumes "shows_probe I snapshot"
  shows "keeps I (recovery_loop B snapshot resolved unresolved keys)"
proof (induction keys arbitrary: resolved unresolved)
  case (Cons k keys)
  obtain key ref where k: "k = (key, ref)" by force
  show ?case
    unfolding k recovery_loop.simps
  proof (rule keeps_pin, intro leads_if, goal_cases)
    case (1 s)
    then show ?case by (auto intro!: leads_pre keeps_rules Cons.IH intro: pinnedD)
  next
    case (2 s)
    then show ?case by (auto intro!: leads_pre Cons.IH intro: pinnedD)
  next
    case (3 s)
    then show ?case by (auto intro!: keeps_recover_step keeps_bind assms Cons.IH)
  qed
qed simp

lemma keeps_observed_section:
  assumes "\<And>c. plan_desired c plan \<Longrightarrow> keeps (pinned B I c) k"
  shows "keeps I (observed_section B plan snapshot k)"
  unfolding observed_section_def
proof (rule keeps_pin, intro leads_if, goal_cases)
  case (1 s)
  then show ?case by (auto intro: leads_fail pinnedD)
next
  case (2 s)
  then have "keeps (pinned B I (sys_controller s)) k" by (intro assms plan_desired_matches) simp
  then show ?case
    by (intro leads_keeps [OF keeps_unless] keeps_andThen keeps_unless)
      (auto intro: pinnedD section_invariant.keeps_fence [OF pinned_section] section_invariant.keeps_observed [OF pinned_section])
qed

lemma keeps_startup_begin:
  assumes "shows_probe I snapshot" and "\<And>s. I s \<Longrightarrow> plan_desired (sys_controller s) plan"
  shows "keeps I (startup_section B plan snapshot)"
  unfolding startup_section_def
proof (rule keeps_here [where ref = "\<lambda>c. the (attemptState c plan)"], intro leads_if, goal_cases)
  case (1 s)
  then show ?case by (auto intro!: leads_pre keeps_rules intro: at_holds)
next
  case (2 s)
  then have "op_Domain plan = DomainTarget \<Longrightarrow>
      confirms (ct_desiredTargets (sys_controller s)) (op_Target plan) (op_ExpectedTargetGeneration plan) snapshot"
    using assms(2) by (intro plan_desired_confirms) auto
  then show ?case
    using assms(1)
    by (intro leads_keeps) (auto intro!: keeps_rules keeps_confirm_plan at_rules at_write intro: at_holds)
qed

lemma keeps_startup_keys:
  assumes "shows_probe I snapshot"
  shows "keeps I (startup_keys B snapshot resolved unresolved keys)"
proof (induction keys arbitrary: unresolved)
  case (Cons key keys)
  show ?case
    unfolding startup_keys.simps
  proof (rule keeps_if [OF Cons.IH], rule keeps_here [where ref = "\<lambda>c. the (currentAttemptRefForKey c key)"],
      intro leads_if, goal_cases)
    case (1 s)
    then show ?case by (auto intro!: leads_pre Cons.IH intro: at_holds)
  next
    case (2 s)
    have c: "confirms (ct_desiredTargets (sys_controller s)) (rk_Target key) g snapshot"
      if "currentAttemptRefForKey (sys_controller s) key = Some (RefTarget t g e)" for t g e
      using that 2 by (auto simp: currentAttemptRefForKey_def current_ref_def dest: snapshot_confirms split: Domain.splits)
    show ?case
    proof (cases "currentAttemptRefForKey (sys_controller s) key")
      case None
      then show ?thesis by (auto intro!: leads_pre Cons.IH intro: at_holds)
    next
      case (Some ref)
      then show ?thesis
        using assms c Cons.IH
        by (auto simp: Let_def intro!: leads_unless leads_after at_rules at_write keeps_confirm_step
            leads_pre [OF Cons.IH] split: attemptRef.split intro: at_holds)
    qed
  qed
qed simp

end

section \<open>The operations\<close>

lemma same_desired_epoch: "same_desired c c' \<Longrightarrow> target_epoch c' target = target_epoch c target"
  by (simp add: same_desired_def target_epoch_def)

context controller_invariant
begin

lemma keeps_publish [simp, intro!]: "keeps I (publish B)"
proof -
  have "I s \<Longrightarrow> I (s\<lparr>sys_controller := fold (\<lambda>snapshot c. snd (SetDesiredSnapshot snapshot c)) snapshots (sys_controller s)\<rparr>)"
    for s snapshots
  proof (induction snapshots arbitrary: s)
    case (Cons a snapshots)
    from Cons.IH [OF published [OF Cons.prems]] show ?case by simp
  qed simp
  then show ?thesis unfolding publish_def by (intro keeps_bind keeps_update keeps_ask) auto
qed

lemma keeps_locked: "keeps I m \<Longrightarrow> keeps I (locked B m)"
  unfolding locked_def by (intro keeps_bind) auto

lemma keeps_log [simp, intro!]: "keeps I (log_call (Applied plan))"
  using applied by (simp add: keeps_def log_call_def)

lemma seen_controller: "controller_invariant B (seen I snapshot)"
proof (intro controller_invariant.intro seen_attempt controller_invariant_axioms.intro)
  show "seen I snapshot (s\<lparr>sys_controller := snd (SetDesiredSnapshot sn (sys_controller s))\<rparr>)"
    if "seen I snapshot s" for s sn
    using that published by (simp add: seen_def)
  show "seen I snapshot (s\<lparr>sys_controller := putState ref pending_retry c\<rparr>)"
    if "seen I snapshot s" "ct_desiredTargets c = ct_desiredTargets (sys_controller s)"
      "ct_hasDesired c = ct_hasDesired (sys_controller s)" "ct_desired c = ct_desired (sys_controller s)"
      "ct_confirmedTargets c = ct_confirmedTargets (sys_controller s)"
      "bd_Store B = None \<Longrightarrow> next_epoch (sys_controller s) ref c" for s ref c
    using that retried by (simp add: seen_def)
qed

lemma keeps_probe:
  assumes "keeps I m" and "\<And>snapshot. keeps (seen I snapshot) (f snapshot)"
  shows "keeps I (State_Monad.bind (probe B) (\<lambda>p. case p of None \<Rightarrow> m | Some snapshot \<Rightarrow> f snapshot))"
proof (rule keepsI)
  fix s assume s: "I s"
  obtain r w where r: "bd_Probe B (sys_world s) = (r, w)" by force
  let ?s = "s\<lparr>sys_world := w, sys_log := sys_log s @ [Probed r]\<rparr>"
  have i: "I ?s" using probed [OF world [OF s, of w], of r] by simp
  have "run_state (probe B) s = (r, ?s)" by (simp add: probe_def run_bind ask_def log_call_def r)
  moreover have "I (snd (run_state (case r of None \<Rightarrow> m | Some snapshot \<Rightarrow> f snapshot) ?s))"
  proof (cases r)
    case None
    then show ?thesis using keepsD [OF assms(1) i] by simp
  next
    case (Some snapshot)
    then have "seen I snapshot ?s" using i by (simp add: seen_def)
    from keepsD [OF assms(2) this] show ?thesis using Some by (simp add: seen_def)
  qed
  ultimately show "I (snd (run_state (State_Monad.bind (probe B) (\<lambda>p. case p of None \<Rightarrow> m | Some snapshot \<Rightarrow> f snapshot)) s))"
    by (simp add: run_bind)
qed

lemma keeps_targetExpirationFence [simp, intro!]: "keeps I (targetExpirationFence B plan)"
  unfolding targetExpirationFence_def by (intro keeps_locked) simp

lemma keeps_finishFailure [simp, intro!]:
  "keeps I (finishFailure B ref key code canRetry)"
  "keeps I (finishFailureAndRequireProbeObserved B ref key code allDomains)"
  unfolding finishFailure_def finishFailureAndRequireProbeObserved_def
  by (auto intro!: keeps_locked keeps_rules)

lemma keeps_beginAttempt [simp, intro!]: "keeps I (beginAttempt B plan)"
  unfolding beginAttempt_def by (auto intro!: keeps_locked keeps_rules)

lemma keeps_recordAllUnknownObserved [simp, intro!]: "keeps I (recordAllUnknownObserved B code)"
  unfolding recordAllUnknownObserved_def by (auto intro!: keeps_locked keeps_rules)

lemma keeps_failed_probe [simp, intro!]: "keeps I (failed_probe B)"
  unfolding failed_probe_def by (auto intro!: keeps_rules)

lemma keeps_commitConfirmed:
  assumes "shows_probe I snapshot"
  shows "keeps I (commitConfirmed B ref plan snapshot key)"
  unfolding commitConfirmed_def
  by (intro keeps_locked keeps_bind keeps_sum keeps_commit_section assms)
    (auto intro!: keeps_rules split: bool.splits)

lemma keeps_markInvalidPlan [simp, intro!]: "keeps I (markInvalidPlan B plan)"
  unfolding markInvalidPlan_def
  by (rule keeps_locked, rule keeps_here_keeps [where ref = "\<lambda>c. the (attemptState c plan)"])
    (auto intro!: keeps_rules at_rules at_write)

lemma keeps_beginAfterRequiredProbe:
  assumes "shows_probe I snapshot"
  shows "keeps I (beginAfterRequiredProbe B plan snapshot (pendingProbeKeyForPlan plan))"
  unfolding beginAfterRequiredProbe_def resolvePendingProbes_def
  by (intro keeps_locked keeps_observed_section keeps_andThen keeps_bind keeps_if)
    (auto intro: attempt_invariant.keeps_resolve_loop [OF pinned_attempt] shows_probe_pinned assms
      attempt_invariant.keeps_beginAttemptLocked [OF pinned_attempt])

lemma keeps_beginAfterStartupProbe:
  assumes "shows_probe I snapshot"
  shows "keeps I (beginAfterStartupProbe B plan snapshot)"
  unfolding beginAfterStartupProbe_def
  by (intro keeps_locked keeps_observed_section attempt_invariant.keeps_startup_begin [OF pinned_attempt] shows_probe_pinned assms)
    (auto simp: plan_desired_def pinned_desired)

lemma rebased_key [simp]: "pendingProbeKeyForPlan (rebased B snapshot plan) = pendingProbeKeyForPlan plan"
  by (simp add: rebased_def pendingProbeKeyForPlan_def Let_def)

lemma keeps_begin_execution [simp, intro!]: "keeps I (begin_execution B plan)"
proof -
  have required: "keeps (seen I snapshot) (beginAfterRequiredProbe B (rebased B snapshot plan) snapshot (pendingProbeKeyForPlan plan))"
    for snapshot
    using controller_invariant.keeps_beginAfterRequiredProbe [OF seen_controller, of snapshot snapshot "rebased B snapshot plan"]
    by simp
  show ?thesis
    unfolding begin_execution_def Let_def
    by (intro keeps_bind keeps_locked keeps_if keeps_probe keeps_andThen)
      (auto intro: required controller_invariant.keeps_beginAfterStartupProbe [OF seen_controller]
        controller_invariant.keeps_beginAttempt [OF seen_controller])
qed

lemma keeps_apply_attempt [simp, intro!]: "keeps I (apply_attempt B plan key attempt)"
proof -
  have confirm: "keeps I (State_Monad.bind (probe B) (\<lambda>p. case p of
      None \<Rightarrow> State_Monad.bind (finishFailureAndRequireProbeObserved B attempt key code True) fail_with
    | Some snapshot \<Rightarrow> State_Monad.bind (commitConfirmed B attempt plan snapshot key) finish))"
    if "\<And>e. keeps I (fail_with e)" "\<And>e J. keeps J (finish e)" for code fail_with finish
    using that by (intro keeps_probe keeps_bind)
      (auto intro: controller_invariant.keeps_commitConfirmed [OF seen_controller])
  show ?thesis
    unfolding apply_attempt_def Let_def
    by (intro keeps_bind keeps_option keeps_log) (auto split: ResultKind.split intro: confirm keeps_bind)
qed

lemma keeps_Execute: "keeps I (Execute B plan)"
  unfolding Execute_def by (auto intro!: keeps_rules keeps_locked split: sum.split option.split)

lemma keeps_recovery_probe:
  assumes "\<And>snapshot. keeps (seen I snapshot) (k snapshot)"
  shows "keeps I (recovery_probe B probeTimeout k)"
  unfolding recovery_probe_def
  by (intro keeps_if keeps_fail keeps_unless keeps_locked keeps_probe controller_invariant.keeps_locked [OF seen_controller] assms)
    (auto intro!: keeps_rules)

lemmas seen_observed = section_invariant.keeps_observed [OF attempt_invariant.axioms(1) [OF seen_attempt]]

lemmas seen_flag = section_invariant.keeps_flag [OF attempt_invariant.axioms(1) [OF seen_attempt]]

lemma keeps_probeRecovery: "keeps I (probeRecovery B probeTimeout)"
  unfolding probeRecovery_def
  by (rule keeps_recovery_probe)
    (auto intro!: keeps_rules attempt_invariant.keeps_recovery_loop [OF seen_attempt] seen_observed)

lemma keeps_probeStartupRecovery: "keeps I (probeStartupRecovery B keys probeTimeout)"
  unfolding probeStartupRecovery_def
  by (rule keeps_recovery_probe)
    (auto intro!: keeps_rules attempt_invariant.keeps_recovery_loop [OF seen_attempt] seen_observed seen_flag
      attempt_invariant.keeps_startup_keys [OF seen_attempt])

lemma keeps_persistRetry [simp, intro!]: "keeps I (persistRetry B ref state previous)"
  unfolding persistRetry_def
  by (intro keeps_bind keeps_let keeps_if keeps_sum keeps_option keeps_prod keeps_replace) auto

lemma keeps_retry_section:
  assumes "\<And>e c. ct_desiredTargets (publish_epoch e c) = ct_desiredTargets c \<and> ct_hasDesired (publish_epoch e c) = ct_hasDesired c
      \<and> ct_desired (publish_epoch e c) = ct_desired c \<and> ct_confirmedTargets (publish_epoch e c) = ct_confirmedTargets c"
    and "\<And>c c' previous ref_at. start c = Inr (previous, ref_at) \<Longrightarrow> previous + 1 \<noteq> 0 \<Longrightarrow> same_desired c c'
      \<Longrightarrow> next_epoch c' (ref_at (previous + 1)) (publish_epoch (previous + 1) c')"
  shows "keeps I (retry_section B start publish_epoch)"
proof -
  have final: "leads (pinned B I c) (update_controller (\<lambda>c. putState (ref_at (previous + 1)) pending_retry (publish_epoch (previous + 1) c))) I"
    if "start c = Inr (previous, ref_at)" "previous + 1 \<noteq> 0" for c previous ref_at
    using that assms by (auto simp: leads_def update_controller_def pinned_def intro!: retried)
  show ?thesis
    unfolding retry_section_def
  proof (intro keeps_unless keeps_locked keeps_reload, rule keeps_pin, goal_cases)
    case (1 s)
    have persist: "keeps (pinned B I (sys_controller s)) (persistRetry B ref state previous)" for ref state previous
      unfolding persistRetry_def
      by (intro keeps_bind keeps_let keeps_if keeps_sum keeps_option keeps_prod section_invariant.keeps_replace [OF pinned_section])
        (auto intro: section_invariant.keeps_ask [OF pinned_section] section_invariant.keeps_stamped [OF pinned_section]
          section_invariant.keeps_flag [OF pinned_section])
    have mark: "keeps (pinned B I (sys_controller s)) (update_controller (markPendingRefsSuperseded ref))" for ref
      by (rule section_invariant.keeps_books [OF pinned_section]) simp
    show ?case
      by (auto split: sum.split prod.split intro!: leads_fail leads_unless persist leads_after [OF mark]
          leads_then [OF final] intro: pinnedD)
  qed
qed

lemma keeps_RetryInfrastructure: "keeps I (RetryInfrastructure B)"
  unfolding RetryInfrastructure_def
proof (rule keeps_retry_section, goal_cases)
  case (2 c c' previous ref_at)
  then show ?case using next_epoch.infrastructure [of c'] by (auto simp: same_desired_def split: if_splits)
qed simp

lemma keeps_RetryPolicy: "keeps I (RetryPolicy B)"
  unfolding RetryPolicy_def
proof (rule keeps_retry_section, goal_cases)
  case (2 c c' previous ref_at)
  then show ?case using next_epoch.policy [of c'] by (auto simp: same_desired_def split: if_splits)
qed simp

lemma keeps_RetryTarget: "keeps I (RetryTarget B target)"
  unfolding RetryTarget_def
proof (rule keeps_retry_section, goal_cases)
  case (2 c c' previous ref_at)
  then obtain intent where i: "map_of (ct_desiredTargets c) target = Some intent"
    and r: "previous = target_epoch c target" "ref_at = RefTarget target (int_Generation intent)"
    by (auto split: option.splits)
  show ?case
    using next_epoch.target [of c' target intent] 2(2) same_desired_epoch [OF 2(3), of target] i 2(3)
    by (simp add: r same_desired_def)
qed simp

end

end
