(* ===== verification/Reconcile_Runs.thy ===== *)
theory Reconcile_Runs
  imports Reconcile_Attempts
begin

text \<open>
  Runs of the controller: any sequence of its operations, with any snapshots published in between and
  any answers of the clock, the backend, the audit writer and the store. Two invariants are established
  for them, the attempt budget of a ledger key and the soundness of the confirmations.
\<close>

section \<open>Runs\<close>

datatype operation =
    OpSetDesired DesiredFirewallSnapshot
  | OpExecute OperationPlan
  | OpProbeRecovery int
  | OpProbeStartupRecovery "ReconcileKey list" int
  | OpRetryInfrastructure
  | OpRetryPolicy
  | OpRetryTarget Prefix

primrec perform :: "'w Boundary \<Rightarrow> operation \<Rightarrow> 'w system \<Rightarrow> 'w system" where
  "perform B (OpSetDesired snapshot) s = s\<lparr>sys_controller := snd (SetDesiredSnapshot snapshot (sys_controller s))\<rparr>"
| "perform B (OpExecute plan) s = snd (run_state (Execute B plan) s)"
| "perform B (OpProbeRecovery probeTimeout) s = snd (run_state (probeRecovery B probeTimeout) s)"
| "perform B (OpProbeStartupRecovery keys probeTimeout) s = snd (run_state (probeStartupRecovery B keys probeTimeout) s)"
| "perform B OpRetryInfrastructure s = snd (run_state (RetryInfrastructure B) s)"
| "perform B OpRetryPolicy s = snd (run_state (RetryPolicy B) s)"
| "perform B (OpRetryTarget target) s = snd (run_state (RetryTarget B target) s)"

definition new_system :: "Controller \<Rightarrow> 'w \<Rightarrow> 'w system" where
  "new_system c w = \<lparr> sys_controller = c, sys_world = w, sys_log = [] \<rparr>"

definition run_memory :: "'w Boundary \<Rightarrow> 'w \<Rightarrow> operation list \<Rightarrow> 'w system" where
  "run_memory B w ops = fold (perform B) ops (new_system NewController w)"

definition run_persistent ::
  "'w Boundary \<Rightarrow> string \<Rightarrow> 'w PersistentStateStore \<Rightarrow> 'w \<Rightarrow> operation list \<Rightarrow> 'w system option" where
  "run_persistent B nodeID st w ops =
     (case NewPersistentController nodeID st w of
        (Inl _, _) \<Rightarrow> None
      | (Inr c, w') \<Rightarrow> Some (fold (perform (B\<lparr>bd_Store := Some st\<rparr>)) ops (new_system c w')))"

context controller_invariant
begin

lemma keeps_perform: "I s \<Longrightarrow> I (perform B op s)"
  by (cases op) (simp_all add: published keepsD [OF keeps_Execute] keepsD [OF keeps_probeRecovery]
      keepsD [OF keeps_probeStartupRecovery] keepsD [OF keeps_RetryInfrastructure] keepsD [OF keeps_RetryPolicy]
      keepsD [OF keeps_RetryTarget])

lemma keeps_run: "I s \<Longrightarrow> I (fold (perform B) ops s)"
  by (induction ops arbitrary: s) (simp_all add: keeps_perform)

end

section \<open>The attempt budget\<close>

definition begun_numbers :: "attemptRef \<Rightarrow> call list \<Rightarrow> nat list" where
  "begun_numbers ref log = concat (map (\<lambda>x. case x of Begun r n \<Rightarrow> if r = ref then [n] else [] | _ \<Rightarrow> []) log)"

fun within_epoch :: "Controller \<Rightarrow> attemptRef \<Rightarrow> bool" where
  "within_epoch c (RefInfrastructure r e) = (r = ds_InfrastructureRevision (ct_desired c) \<longrightarrow> e \<le> ct_infrastructureEpoch c)"
| "within_epoch c (RefPolicy r e) = (r = ds_PolicyRevision (ct_desired c) \<longrightarrow> e \<le> ct_policyEpoch c)"
| "within_epoch c (RefTarget t g e) =
     (map_option int_Generation (map_of (ct_desiredTargets c) t) = Some g \<longrightarrow> e \<le> target_epoch c t)"

definition attempts :: "'w system \<Rightarrow> attemptRef \<Rightarrow> nat" where
  "attempts s ref = rs_AttemptCount (getState (sys_controller s) ref)"

definition budgeted :: "'w Boundary \<Rightarrow> 'w system \<Rightarrow> bool" where
  "budgeted B s \<longleftrightarrow> bd_Store B = None \<longrightarrow>
     (\<forall>ref. begun_numbers ref (sys_log s) = [1..<Suc (attempts s ref)] \<and> attempts s ref \<le> maxMutationAttempts
        \<and> (attempts s ref \<noteq> 0 \<longrightarrow> within_epoch (sys_controller s) ref))"

lemma begun_numbers_append [simp]: "begun_numbers ref (a @ b) = begun_numbers ref a @ begun_numbers ref b"
  by (simp add: begun_numbers_def)

lemma begun_numbers_calls [simp]:
  "begun_numbers ref [] = []" "begun_numbers ref [Probed r] = []" "begun_numbers ref [Applied p] = []"
  "begun_numbers ref [Confirmed t g i sn] = []" "begun_numbers ref [Begun ref' n] = (if ref' = ref then [n] else [])"
  by (simp_all add: begun_numbers_def)

lemma within_epoch_same: "same_desired c c' \<Longrightarrow> within_epoch c' ref = within_epoch c ref"
  by (cases ref) (simp_all add: same_desired_def target_epoch_def)

lemma within_epoch_attempt: "attemptState c plan = Some ref \<Longrightarrow> within_epoch c ref"
  by (auto simp: attemptState_def split: Domain.splits)

lemma budgeted_same:
  "budgeted B s \<Longrightarrow> sys_log s' = sys_log s \<Longrightarrow> same_desired (sys_controller s) (sys_controller s')
    \<Longrightarrow> (\<And>ref. bd_Store B = None \<Longrightarrow> attempts s' ref = attempts s ref) \<Longrightarrow> budgeted B s'"
  by (simp add: budgeted_def within_epoch_same)

lemma fold_max_epoch:
  fixes xs :: "(attemptRef \<times> RetryState) list"
  shows "(\<forall>x\<in>set xs. p (fst x) \<longrightarrow> retryEpoch (fst x) \<le> fold (\<lambda>(ref, _) epoch. if p ref \<and> epoch < retryEpoch ref then retryEpoch ref else epoch) xs m)
     \<and> m \<le> fold (\<lambda>(ref, _) epoch. if p ref \<and> epoch < retryEpoch ref then retryEpoch ref else epoch) xs m"
  by (induction xs arbitrary: m) (auto, (meson linorder_not_less order_trans order_less_imp_le)+)

lemma max_epoch_upper:
  assumes "rs_AttemptCount (getState c ref) \<noteq> 0" "p ref"
  shows "retryEpoch ref \<le> max_epoch p c"
proof -
  have "\<exists>s. (ref, s) \<in> set (ct_states c)"
    using assms(1) by (auto simp: getState_def stateForRef_def zero_retry_def split: option.splits dest: map_of_SomeD)
  then show ?thesis using fold_max_epoch [of "ct_states c" p 0] assms(2) by (auto simp: max_epoch_def)
qed

lemma epochs_of_targets:
  fixes c :: Controller
  assumes "distinct (map fst ts)" "map_of ts t = Some intent"
  shows "map_of (fold (\<lambda>(target, intent). AList.update target (max_epoch (ref_of_target target (int_Generation intent)) c)) ts es) t
     = Some (max_epoch (ref_of_target t (int_Generation intent)) c)"
  using assms
proof (induction ts arbitrary: es)
  case (Cons x ts)
  have keep: "t \<notin> fst ` set xs \<Longrightarrow>
    map_of (fold (\<lambda>(target, intent). AList.update target (max_epoch (ref_of_target target (int_Generation intent)) c)) xs es) t = map_of es t"
    for xs es
    by (induction xs arbitrary: es) (auto simp: update_conv')
  show ?case using Cons by (cases x) (auto simp: update_conv' keep split: if_splits)
qed simp

lemma within_epoch_activated:
  assumes "distinct (map fst (ct_desiredTargets c))" "rs_AttemptCount (getState c ref) \<noteq> 0"
  shows "within_epoch (activateHydratedState c) ref"
proof (cases ref)
  case (RefTarget t g e)
  then show ?thesis
    using assms max_epoch_upper [OF assms(2), of "ref_of_target t g"] epochs_of_targets [OF assms(1), of t]
    by (auto simp: activateHydratedState_def target_epoch_def)
qed (use max_epoch_upper [OF assms(2)] in \<open>fastforce simp: activateHydratedState_def\<close>)+

lemma prepareDesired_distinct: "prepareDesired snapshot = Inr (prepared, targets) \<Longrightarrow> distinct (map fst targets)"
  by (auto simp: prepareDesired_def comp_def split: sum.splits if_splits)

lemma budgeted_published:
  assumes "budgeted B s"
  shows "budgeted B (s\<lparr>sys_controller := snd (SetDesiredSnapshot snapshot (sys_controller s))\<rparr>)"
proof (cases "snd (SetDesiredSnapshot snapshot (sys_controller s)) = sys_controller s")
  case False
  then obtain prepared targets where p: "prepareDesired snapshot = Inr (prepared, targets)"
    and c: "snd (SetDesiredSnapshot snapshot (sys_controller s)) =
      activateHydratedState (sys_controller s\<lparr>ct_desired := prepared, ct_desiredTargets := targets, ct_hasDesired := True\<rparr>)"
    by (auto simp: SetDesiredSnapshot_def split: sum.splits option.splits if_splits)
  have g: "getState (activateHydratedState (c\<lparr>ct_desired := d, ct_desiredTargets := ts, ct_hasDesired := b\<rparr>)) ref = getState c ref"
    "getState (c\<lparr>ct_desired := d, ct_desiredTargets := ts, ct_hasDesired := b\<rparr>) ref = getState c ref" for c d ts b ref
    by (simp_all add: activateHydratedState_def getState_def stateForRef_def)
  show ?thesis
    using assms c within_epoch_activated prepareDesired_distinct [OF p] by (auto simp: budgeted_def attempts_def g)
qed (use assms in simp)

lemma next_epoch_order:
  fixes e :: u64
  assumes "e + 1 \<noteq> 0"
  shows "\<not> e + 1 \<le> e" and "a \<le> e \<Longrightarrow> a \<le> e + 1"
  using assms unatSuc [of e] by (simp_all add: word_le_nat_alt add.commute)

lemma target_epoch_update [simp]:
  "target_epoch (c\<lparr>ct_targetEpochs := AList.update t e (ct_targetEpochs c)\<rparr>) t' = (if t' = t then e else target_epoch c t')"
  by (simp add: target_epoch_def update_conv')

lemma next_epoch_fresh:
  assumes "next_epoch c ref c'"
  shows "\<not> within_epoch c ref" and "within_epoch c ref' \<Longrightarrow> within_epoch c' ref'"
    and "getState c' ref' = getState c ref'"
proof -
  have t: "target_epoch (c\<lparr>ct_infrastructureEpoch := x\<rparr>) t = target_epoch c t" "target_epoch (c\<lparr>ct_policyEpoch := x\<rparr>) t = target_epoch c t"
    for c x t by (simp_all add: target_epoch_def)
  show "\<not> within_epoch c ref" using assms by cases (simp_all add: next_epoch_order)
  show "getState c' ref' = getState c ref'" using assms by cases (simp_all add: getState_def stateForRef_def)
  show "within_epoch c' ref'" if "within_epoch c ref'"
    using assms
  proof cases
    case infrastructure
    from next_epoch_order(2) [OF this(3)] that show ?thesis unfolding infrastructure(2) by (cases ref') (auto simp: t)
  next
    case policy
    from next_epoch_order(2) [OF this(3)] that show ?thesis unfolding policy(2) by (cases ref') (auto simp: t)
  next
    case (target target)
    from next_epoch_order(2) [OF this(4)] that show ?thesis unfolding target(2) by (cases ref') auto
  qed
qed

lemma budgeted_retried:
  assumes "budgeted B s" and "bd_Store B = None \<Longrightarrow> next_epoch (sys_controller s) ref c"
  shows "budgeted B (s\<lparr>sys_controller := putState ref pending_retry c\<rparr>)"
proof (cases "bd_Store B = None")
  case True
  note n = next_epoch_fresh [OF assms(2) [OF True]]
  have zero: "attempts s ref = 0" using assms(1) n(1) True by (auto simp: budgeted_def)
  have w: "within_epoch (putState ref pending_retry c) ref' = within_epoch c ref'" for ref'
    by (rule within_epoch_same) (rule same_desired_updates(2) [OF same_desired_updates(1)])
  have a: "attempts (s\<lparr>sys_controller := putState ref pending_retry c\<rparr>) ref' = attempts s ref'" for ref'
    using zero n(3) by (simp add: attempts_def getState_putState pending_retry_def zero_retry_def)
  show ?thesis using assms(1) n(2) unfolding budgeted_def a by (simp add: w)
qed (auto simp: budgeted_def)

lemma budgeted_begun:
  assumes "budgeted B s" and "same_attempts B (sys_controller s) ref state" and "rs_AttemptCount state < maxMutationAttempts"
    and "bd_Store B = None \<Longrightarrow> attemptState (sys_controller s) plan = Some ref"
  shows "budgeted B (s\<lparr>sys_controller := putState ref (begun_state t state) (sys_controller s),
           sys_log := sys_log s @ [Begun ref (Suc (rs_AttemptCount state))]\<rparr>)" (is "budgeted B ?s")
proof (cases "bd_Store B = None")
  case True
  have a: "attempts ?s r = (if r = ref then Suc (attempts s ref) else attempts s r)" for r
    using assms(2) True by (simp add: attempts_def getState_putState begun_state_def same_attempts_def)
  have w: "within_epoch (sys_controller ?s) r = within_epoch (sys_controller s) r" for r
    using within_epoch_same [OF same_desired_updates(2) [OF same_desired_updates(1)]] by simp
  have n: "rs_AttemptCount state = attempts s ref" using assms(2) True by (simp add: attempts_def same_attempts_def)
  have b: "begun_numbers r (sys_log ?s) = begun_numbers r (sys_log s) @ (if ref = r then [Suc (attempts s ref)] else [])" for r
    by (simp add: n)
  have e: "within_epoch (sys_controller s) ref" using within_epoch_attempt [OF assms(4) [OF True]] .
  have f: "begun_numbers r (sys_log s) = [1..<Suc (attempts s r)]" "attempts s r \<le> maxMutationAttempts"
    "attempts s r \<noteq> 0 \<Longrightarrow> within_epoch (sys_controller s) r" for r
    using assms(1) True unfolding budgeted_def by blast+
  have m: "Suc (attempts s ref) \<le> maxMutationAttempts" using assms(3) n by simp
  show ?thesis
    unfolding budgeted_def a b w f(1) using e f(2,3) m by (intro impI allI) (simp add: upt_rec [of 1])
qed (auto simp: budgeted_def)

lemma budgeted_section:
  assumes "budgeted B s"
  shows "budgeted B (s\<lparr>sys_world := w\<rparr>)"
    and "bookkeeping (sys_controller s) c \<Longrightarrow> budgeted B (s\<lparr>sys_controller := c\<rparr>)"
    and "same_attempts B (sys_controller s) ref state \<Longrightarrow> budgeted B (s\<lparr>sys_controller := putState ref state (sys_controller s)\<rparr>)"
    and "bd_Store B \<noteq> None \<Longrightarrow> budgeted B (s\<lparr>sys_controller := c\<rparr>)"
proof -
  show "budgeted B (s\<lparr>sys_world := w\<rparr>)" using assms by (simp add: budgeted_def attempts_def)
  show "budgeted B (s\<lparr>sys_controller := c\<rparr>)" if "bookkeeping (sys_controller s) c"
    using that by (intro budgeted_same [OF assms])
      (auto simp: attempts_def getState_books intro: same_desired_updates(1) same_desired_updates(4))
  show "budgeted B (s\<lparr>sys_controller := putState ref state (sys_controller s)\<rparr>)"
    if "same_attempts B (sys_controller s) ref state"
    using that by (intro budgeted_same [OF assms])
      (auto simp: attempts_def getState_putState same_attempts_def intro: same_desired_updates(1,2))
  show "budgeted B (s\<lparr>sys_controller := c\<rparr>)" if "bd_Store B \<noteq> None"
    using that by (auto simp: budgeted_def)
qed

lemma budgeted_calls:
  assumes "budgeted B s"
  shows "budgeted B (s\<lparr>sys_log := sys_log s @ [Probed r]\<rparr>)" and "budgeted B (s\<lparr>sys_log := sys_log s @ [Applied plan]\<rparr>)"
    and "budgeted B (s\<lparr>sys_controller := confirm_target target generation (sys_controller s),
           sys_log := sys_log s @ [Confirmed target generation i snapshot]\<rparr>)"
  using assms within_epoch_same [OF same_desired_updates(3) [OF same_desired_updates(1)]]
  by (simp_all add: budgeted_def attempts_def)

interpretation attempt_budget: controller_invariant B "budgeted B" for B :: "'w Boundary"
  by (intro controller_invariant.intro attempt_invariant.intro section_invariant.intro
      attempt_invariant_axioms.intro controller_invariant_axioms.intro budgeted_section budgeted_calls
      budgeted_begun budgeted_published budgeted_retried)

end
