(* ===== verification/Reconcile_Claims.thy ===== *)
theory Reconcile_Claims
  imports Reconcile_Runs
begin

text \<open>
  What every run of the controller guarantees: the order of the desired states, the soundness of the
  confirmations and the attempt budget of the controller without a store.
\<close>

section \<open>The desired state only moves forward\<close>

definition intent_extends :: "NormalizedTargetEnforcementIntent \<Rightarrow> NormalizedTargetEnforcementIntent \<Rightarrow> bool" where
  "intent_extends old new \<longleftrightarrow>
     int_Generation old \<le> int_Generation new \<and> (int_Generation old = int_Generation new \<longrightarrow> Equivalent old new)"

definition targets_extend ::
  "(Prefix \<times> NormalizedTargetEnforcementIntent) list \<Rightarrow> (Prefix \<times> NormalizedTargetEnforcementIntent) list \<Rightarrow> bool" where
  "targets_extend olds news \<longleftrightarrow>
     list_all (\<lambda>(target, _). case (map_of olds target, map_of news target) of
        (Some old, Some new) \<Rightarrow> intent_extends old new | _ \<Rightarrow> False) olds"

definition desired_extends :: "Controller \<Rightarrow> Controller \<Rightarrow> bool" where
  "desired_extends c c' \<longleftrightarrow> ct_hasDesired c \<longrightarrow>
     ct_hasDesired c' \<and> ds_SnapshotRevision (ct_desired c) \<le> ds_SnapshotRevision (ct_desired c')
     \<and> ds_InfrastructureRevision (ct_desired c) \<le> ds_InfrastructureRevision (ct_desired c')
     \<and> ds_PolicyRevision (ct_desired c) \<le> ds_PolicyRevision (ct_desired c')
     \<and> targets_extend (ct_desiredTargets c) (ct_desiredTargets c')"

lemma Equivalent_trans: "Equivalent a b \<Longrightarrow> Equivalent b c \<Longrightarrow> Equivalent a c"
  by (auto simp: Equivalent_def equalTime_def split: option.splits)

lemma intent_extends_trans: "intent_extends a b \<Longrightarrow> intent_extends b c \<Longrightarrow> intent_extends a c"
  unfolding intent_extends_def by (auto dest: Equivalent_trans)

lemma targets_extend_iff:
  "targets_extend olds news \<longleftrightarrow>
     (\<forall>t old. map_of olds t = Some old \<longrightarrow> (\<exists>new. map_of news t = Some new \<and> intent_extends old new))"
proof
  assume a: "targets_extend olds news"
  show "\<forall>t old. map_of olds t = Some old \<longrightarrow> (\<exists>new. map_of news t = Some new \<and> intent_extends old new)"
  proof (intro allI impI)
    fix t old assume o: "map_of olds t = Some old"
    then have "(t, old) \<in> set olds" by (rule map_of_SomeD)
    with a o show "\<exists>new. map_of news t = Some new \<and> intent_extends old new"
      by (fastforce simp: targets_extend_def list_all_iff split: option.splits)
  qed
next
  assume a: "\<forall>t old. map_of olds t = Some old \<longrightarrow> (\<exists>new. map_of news t = Some new \<and> intent_extends old new)"
  show "targets_extend olds news"
    unfolding targets_extend_def list_all_iff
  proof
    fix x assume x: "x \<in> set olds"
    obtain t i where t: "x = (t, i)" by force
    with x obtain old where o: "map_of olds t = Some old" by (metis weak_map_of_SomeI)
    with a obtain new where "map_of news t = Some new" "intent_extends old new" by blast
    with o t show "case x of (target, _) \<Rightarrow> (case (map_of olds target, map_of news target) of
        (Some old, Some new) \<Rightarrow> intent_extends old new | _ \<Rightarrow> False)" by simp
  qed
qed

lemma targets_extend_refl: "targets_extend c c"
  by (simp add: targets_extend_iff intent_extends_def Equivalent_refl)

lemma targets_extend_trans: "targets_extend a b \<Longrightarrow> targets_extend b c \<Longrightarrow> targets_extend a c"
  unfolding targets_extend_iff by (metis intent_extends_trans)

lemma desired_extends_refl: "desired_extends c c"
  by (simp add: desired_extends_def targets_extend_refl)

lemma desired_extends_trans: "desired_extends c c' \<Longrightarrow> desired_extends c' c'' \<Longrightarrow> desired_extends c c''"
  unfolding desired_extends_def by (meson order_trans targets_extend_trans)

lemma desired_extends_same:
  "desired_extends c c' \<Longrightarrow> ct_hasDesired c'' = ct_hasDesired c' \<Longrightarrow> ct_desired c'' = ct_desired c'
    \<Longrightarrow> ct_desiredTargets c'' = ct_desiredTargets c' \<Longrightarrow> desired_extends c c''"
  by (simp add: desired_extends_def)

lemma transition_targets_extends:
  "transition_targets news olds = Inr changed \<Longrightarrow> (t, old) \<in> set olds \<Longrightarrow>
   \<exists>new. map_of news t = Some new \<and> intent_extends old new"
proof (induction olds arbitrary: changed)
  case (Cons p olds)
  then show ?case
    by (cases p) (auto simp: intent_extends_def bind_result_def not_le split: option.splits if_splits sum.splits)
qed simp

lemma validateDesiredTransition_extends:
  assumes "validateDesiredTransition previous olds next news = None"
  shows "ds_SnapshotRevision previous \<le> ds_SnapshotRevision next" "ds_InfrastructureRevision previous \<le> ds_InfrastructureRevision next"
    "ds_PolicyRevision previous \<le> ds_PolicyRevision next" "targets_extend olds news"
proof -
  show "ds_SnapshotRevision previous \<le> ds_SnapshotRevision next" "ds_InfrastructureRevision previous \<le> ds_InfrastructureRevision next"
    "ds_PolicyRevision previous \<le> ds_PolicyRevision next"
    using assms by (auto simp: validateDesiredTransition_def not_less split: if_splits)
  obtain changed where "transition_targets news olds = Inr changed"
    using assms by (auto simp: validateDesiredTransition_def Let_def split: if_splits sum.splits)
  from transition_targets_extends [OF this] show "targets_extend olds news"
    unfolding targets_extend_iff by (blast dest: map_of_SomeD)
qed

lemma SetDesiredSnapshot_extends: "desired_extends c (snd (SetDesiredSnapshot snapshot c))"
proof (cases "snd (SetDesiredSnapshot snapshot c) = c")
  case False
  then obtain prepared targets where c: "snd (SetDesiredSnapshot snapshot c) =
      activateHydratedState (c\<lparr>ct_desired := prepared, ct_desiredTargets := targets, ct_hasDesired := True\<rparr>)"
    and v: "ct_hasDesired c \<Longrightarrow> validateDesiredTransition (ct_desired c) (ct_desiredTargets c) prepared targets = None"
    by (auto simp: SetDesiredSnapshot_def split: sum.splits option.splits if_splits)
  show ?thesis
    using validateDesiredTransition_extends [OF v] by (simp add: c desired_extends_def activateHydratedState_def)
qed (simp add: desired_extends_refl)

lemma replaceRecovery_keeps_desired:
  "replaceRecovery r c = Inr c' \<Longrightarrow> ct_hasDesired c' = ct_hasDesired c \<and> ct_desired c' = ct_desired c"
  by (auto simp: replaceRecovery_def Let_def activateHydratedState_def split: if_splits)

lemma desired_extends_steps [simp]:
  "desired_extends c0 (putState ref state c) = desired_extends c0 c"
  "desired_extends c0 (confirm_target t g c) = desired_extends c0 c"
  by (simp_all add: desired_extends_def putState_def confirm_target_def)

lemma desired_extends_published:
  "desired_extends c0 c \<Longrightarrow> desired_extends c0 (snd (SetDesiredSnapshot snapshot c))"
  by (rule desired_extends_trans [OF _ SetDesiredSnapshot_extends])

interpretation desired_order: controller_invariant B "\<lambda>s. desired_extends c0 (sys_controller s)" for B :: "'w Boundary" and c0
proof
  fix s c assume "desired_extends c0 (sys_controller s)" "bookkeeping (sys_controller s) c"
  then show "desired_extends c0 (sys_controller (s\<lparr>sys_controller := c\<rparr>))"
    by (auto simp: bookkeeping_def desired_extends_def)
next
  fix s recovery c assume d: "desired_extends c0 (sys_controller s)" and r: "replaceRecovery recovery (sys_controller s) = Inr c"
  show "desired_extends c0 (sys_controller (s\<lparr>sys_controller := c\<rparr>))"
    using d replaceRecovery_keeps_desired [OF r] replaceRecovery_desired [OF r] by (simp add: desired_extends_def)
next
  fix s :: "'w system" and c :: Controller and ref
  assume "desired_extends c0 (sys_controller s)" "ct_desiredTargets c = ct_desiredTargets (sys_controller s)"
    "ct_hasDesired c = ct_hasDesired (sys_controller s)" "ct_desired c = ct_desired (sys_controller s)"
  then show "desired_extends c0 (sys_controller (s\<lparr>sys_controller := putState ref pending_retry c\<rparr>))"
    by (simp add: desired_extends_def putState_def)
qed (simp_all add: desired_extends_published)

section \<open>Confirmations are sound\<close>

primrec sound_call :: "call list \<Rightarrow> call \<Rightarrow> bool" where
  "sound_call earlier (Confirmed target generation desired snapshot) \<longleftrightarrow>
     Probed (Some snapshot) \<in> set earlier
     \<and> (case desired of None \<Rightarrow> False
        | Some intent \<Rightarrow> int_Generation intent = generation \<and> physicalTargetMatches (sn_Targets snapshot) intent)"
| "sound_call earlier (Probed r) \<longleftrightarrow> True"
| "sound_call earlier (Begun ref n) \<longleftrightarrow> True"
| "sound_call earlier (Applied plan) \<longleftrightarrow> True"

definition sound_log :: "call list \<Rightarrow> bool" where
  "sound_log log \<longleftrightarrow> list_all (\<lambda>k. sound_call (take k log) (log ! k)) [0..<length log]"

definition logged_confirmation :: "call list \<Rightarrow> Prefix \<times> u64 \<Rightarrow> bool" where
  "logged_confirmation log entry \<longleftrightarrow>
     list_ex (\<lambda>x. case x of Confirmed target generation _ _ \<Rightarrow> (target, generation) = entry | _ \<Rightarrow> False) log"

definition soundly_confirmed :: "'w system \<Rightarrow> bool" where
  "soundly_confirmed s \<longleftrightarrow>
     sound_log (sys_log s) \<and> list_all (logged_confirmation (sys_log s)) (ct_confirmedTargets (sys_controller s))"

lemma sound_log_append [simp]: "sound_log (log @ [x]) \<longleftrightarrow> sound_log log \<and> sound_call log x"
proof -
  have "(\<forall>k<length log. sound_call (take k (log @ [x])) ((log @ [x]) ! k)) \<longleftrightarrow> (\<forall>k<length log. sound_call (take k log) (log ! k))"
    by (simp add: nth_append)
  then show ?thesis by (simp add: sound_log_def list_all_iff less_Suc_eq all_conj_distrib atLeast0LessThan Ball_def)
      (auto simp: nth_append)
qed

lemma logged_confirmation_append:
  "logged_confirmation log e \<Longrightarrow> logged_confirmation (log @ [x]) e" "logged_confirmation (log @ [Confirmed t g i sn]) (t, g)"
  by (simp_all add: logged_confirmation_def)

lemma confirmed_append: "list_all (logged_confirmation log) es \<Longrightarrow> list_all (logged_confirmation (log @ [x])) es"
  by (auto simp: list_all_iff logged_confirmation_append)

lemma replaceRecovery_confirmed:
  "replaceRecovery r c = Inr c' \<Longrightarrow> ct_confirmedTargets c' = ct_confirmedTargets c \<or> ct_confirmedTargets c' = []"
  by (auto simp: replaceRecovery_def Let_def activateHydratedState_def)

lemma SetDesiredSnapshot_confirmed:
  "ct_confirmedTargets (snd (SetDesiredSnapshot snapshot c)) = ct_confirmedTargets c \<or> ct_confirmedTargets (snd (SetDesiredSnapshot snapshot c)) = []"
  by (auto simp: SetDesiredSnapshot_def activateHydratedState_def split: sum.splits option.splits)

lemma soundly_confirmed_same:
  "soundly_confirmed s \<Longrightarrow> sys_log s' = sys_log s
    \<Longrightarrow> ct_confirmedTargets (sys_controller s') = ct_confirmedTargets (sys_controller s) \<or> ct_confirmedTargets (sys_controller s') = []
    \<Longrightarrow> soundly_confirmed s'"
  by (auto simp: soundly_confirmed_def)

lemma soundly_confirmed_confirm:
  assumes "soundly_confirmed s" and "confirms (ct_desiredTargets (sys_controller s)) target generation snapshot"
    and "Probed (Some snapshot) \<in> set (sys_log s)"
  shows "soundly_confirmed (s\<lparr>sys_controller := confirm_target target generation (sys_controller s),
      sys_log := sys_log s @ [Confirmed target generation (map_of (ct_desiredTargets (sys_controller s)) target) snapshot]\<rparr>)"
proof -
  have "list_all (logged_confirmation (log @ [Confirmed target generation i snapshot])) (AList.update target generation es)"
    if "list_all (logged_confirmation log) es" for log i es
    using that by (induction es) (auto simp: logged_confirmation_append confirmed_append)
  then show ?thesis using assms by (auto simp: soundly_confirmed_def confirm_target_def confirms_def)
qed

interpretation confirmations: controller_invariant B soundly_confirmed for B :: "'w Boundary"
proof
  fix s :: "'w system" and c assume "soundly_confirmed s" "bookkeeping (sys_controller s) c"
  then show "soundly_confirmed (s\<lparr>sys_controller := c\<rparr>)"
    by (elim soundly_confirmed_same) (auto simp: bookkeeping_def)
next
  fix s :: "'w system" and recovery c assume "soundly_confirmed s" "replaceRecovery recovery (sys_controller s) = Inr c"
  then show "soundly_confirmed (s\<lparr>sys_controller := c\<rparr>)"
    by (elim soundly_confirmed_same) (simp_all add: replaceRecovery_confirmed)
next
  fix s :: "'w system" and snapshot assume "soundly_confirmed s"
  then show "soundly_confirmed (s\<lparr>sys_controller := snd (SetDesiredSnapshot snapshot (sys_controller s))\<rparr>)"
    by (rule soundly_confirmed_same) (simp_all add: SetDesiredSnapshot_confirmed)
next
  fix s :: "'w system" and target generation snapshot
  assume "soundly_confirmed s" "confirms (ct_desiredTargets (sys_controller s)) target generation snapshot"
    "Probed (Some snapshot) \<in> set (sys_log s)"
  then show "soundly_confirmed (s\<lparr>sys_controller := confirm_target target generation (sys_controller s),
      sys_log := sys_log s @ [Confirmed target generation (map_of (ct_desiredTargets (sys_controller s)) target) snapshot]\<rparr>)"
    by (rule soundly_confirmed_confirm)
qed (simp_all add: soundly_confirmed_def putState_def confirmed_append)

section \<open>The properties\<close>

lemma hydrate_states_confirmed: "hydrate_states ps c = Inr c' \<Longrightarrow> ct_confirmedTargets c' = ct_confirmedTargets c"
  by (induction ps arbitrary: c) (auto simp: putState_def split: if_splits option.splits)

lemma hydrate_probes_confirmed: "hydrate_probes rs c = Inr c' \<Longrightarrow> ct_confirmedTargets c' = ct_confirmedTargets c"
  by (induction rs arbitrary: c) (auto simp: putState_def put_pending_def Let_def split: if_splits option.splits)

lemma hydrateRecovery_confirmed: "hydrateRecovery r c = Inr c' \<Longrightarrow> ct_confirmedTargets c' = ct_confirmedTargets c"
  by (auto simp: hydrateRecovery_def hydrate_states_confirmed hydrate_probes_confirmed split: if_splits)

lemma NewPersistentController_confirmed: "NewPersistentController nodeID st w = (Inr c, w') \<Longrightarrow> ct_confirmedTargets c = []"
  by (auto simp: NewPersistentController_def seedObservedClock_def NewController_def Let_def dest!: hydrateRecovery_confirmed
      split: prod.splits sum.splits if_splits)

lemma soundly_confirmed_new: "ct_confirmedTargets c = [] \<Longrightarrow> soundly_confirmed (new_system c w)"
  by (simp add: soundly_confirmed_def new_system_def sound_log_def)

lemma budgeted_new: "bd_Store B = None \<Longrightarrow> budgeted B (new_system NewController w)"
  by (simp add: budgeted_def attempts_def new_system_def NewController_def getState_def stateForRef_def zero_retry_def)

text \<open>
  Claim C34. In every run of a controller without a store, whatever the backend, the clock and the
  concurrent publications do, the attempts that began on one ledger key (a revision or target generation
  with its retry epoch) are numbered one, two, three and so on up to the count in its ledger entry, and
  there are never more than the budget of six.
\<close>

theorem attempts_within_budget:
  "begun_numbers ref (sys_log (run_memory (B\<lparr>bd_Store := None\<rparr>) w ops))
     = [1..<Suc (attempts (run_memory (B\<lparr>bd_Store := None\<rparr>) w ops) ref)]
   \<and> attempts (run_memory (B\<lparr>bd_Store := None\<rparr>) w ops) ref \<le> maxMutationAttempts"
proof -
  let ?B = "B\<lparr>bd_Store := None\<rparr>"
  have "budgeted ?B (run_memory ?B w ops)"
    unfolding run_memory_def by (rule attempt_budget.keeps_run [OF budgeted_new]) simp
  then show ?thesis by (simp add: budgeted_def del: upt_Suc)
qed

text \<open>
  Claim C35. In every run of a persistent controller, through unknown commits, reloads, recoveries and
  concurrent publications, a target counts as confirmed only with a confirmation in the log, and every
  confirmation in the log follows a successful probe whose snapshot shows the intent that was desired for
  the target at that moment, in the confirmed generation.
\<close>

theorem persistent_confirmations_sound:
  "pred_option soundly_confirmed (run_persistent B nodeID st w ops)"
proof (cases "NewPersistentController nodeID st w")
  case (Pair r w')
  show ?thesis
  proof (cases r)
    case (Inr c)
    then have "soundly_confirmed (new_system c w')"
      using Pair by (intro soundly_confirmed_new NewPersistentController_confirmed) simp
    then show ?thesis using Pair Inr confirmations.keeps_run by (simp add: run_persistent_def)
  qed (simp add: run_persistent_def Pair)
qed

text \<open>
  Claim C36. Whatever operations run, the desired state only moves forward: no revision decreases, no
  target disappears, no generation of a target decreases, and an unchanged generation stands for an
  equivalent intent.
\<close>

theorem desired_state_moves_forward:
  "desired_extends (sys_controller s) (sys_controller (fold (perform B) ops s))"
  by (rule desired_order.keeps_run) (rule desired_extends_refl)

end
