(* ===== verification/Reconcile_Progress.thy ===== *)
theory Reconcile_Progress
  imports Reconcile_Claims
begin

text \<open>
  The successful path of \<^verbatim>\<open>Execute\<close>, with or without a store and with or without a fresh basis: what an
  attempt leaves behind when the store takes the writes, the backend confirms the plan and the confirming
  probe shows the desired state.
\<close>

section \<open>Symbolic runs\<close>

lemma run_ask: "run_state (ask f) s = (fst (f (sys_world s)), s\<lparr>sys_world := snd (f (sys_world s))\<rparr>)"
  by (simp add: ask_def split: prod.split)

lemma run_basic:
  "run_state get_controller s = (sys_controller s, s)"
  "run_state (update_controller f) s = ((), s\<lparr>sys_controller := f (sys_controller s)\<rparr>)"
  "run_state (log_call x) s = ((), s\<lparr>sys_log := sys_log s @ [x]\<rparr>)"
  by (simp_all add: get_controller_def update_controller_def log_call_def)

lemma run_results: "run_state (ok y) s = (Inr y, s)" "run_state (fail e) s = (Inl e, s)"
  by (simp_all add: ok_def fail_def)

lemma run_unless:
  "run_state (unless_error m k) s = (case run_state m s of (None, s') \<Rightarrow> run_state k s' | (Some e, s') \<Rightarrow> (Inl e, s'))"
  by (simp add: unless_error_def run_bind run_results split: prod.split option.split)

lemma run_andThen:
  "run_state (andThen m f) s = (case run_state m s of (Inr x, s') \<Rightarrow> run_state (f x) s' | (Inl e, s') \<Rightarrow> (Inl e, s'))"
  by (simp add: andThen_def run_bind run_results split: prod.split sum.split)

lemmas run_rules = run_basic run_results run_bind run_unless run_andThen run_return

section \<open>Writes that succeed\<close>

definition accepts_writes :: "'w Boundary \<Rightarrow> bool" where
  "accepts_writes B \<longleftrightarrow>
     (case bd_Store B of
        None \<Rightarrow> True
      | Some st \<Rightarrow> (\<forall>transition w. fst (ss_ApplyReconcileTransition st transition w) = None)
                  \<and> (\<forall>update w. fst (ss_ApplyObservedFirewallUpdate st update w) = None))"

lemma run_now: "run_state (now B) s = (fst (bd_Now B (sys_world s)), s\<lparr>sys_world := snd (bd_Now B (sys_world s))\<rparr>)"
  by (simp add: now_def run_ask)

lemma run_transition:
  "accepts_writes B \<Longrightarrow> bd_Store B = Some st \<Longrightarrow>
   run_state (applyTransition B st transition) s =
     (None, s\<lparr>sys_world := snd (ss_ApplyReconcileTransition st transition (sys_world s))\<rparr>)"
  by (simp add: accepts_writes_def applyTransition_def run_ask run_rules)

lemma run_optional_probe: "\<exists>p w. run_state (optional_probe B k ref n) s = (p, s\<lparr>sys_world := w\<rparr>)"
proof (cases k)
  case None
  then have "run_state (optional_probe B k ref n) s = (None, s\<lparr>sys_world := sys_world s\<rparr>)" by (simp add: optional_probe_def)
  then show ?thesis by blast
qed (auto simp: optional_probe_def stamped_probe_def run_now run_rules)

lemma run_persistApplying:
  assumes "accepts_writes B"
  shows "\<exists>s'. run_state (persistApplyingState B ref state key None) s = (None, s') \<and> sys_controller s' = sys_controller s"
proof (cases "bd_Store B")
  case (Some st)
  then show ?thesis
    by (simp add: persistApplyingState_def stamped_state_def stamped_probe_def run_now run_transition [OF assms Some] run_rules)
qed (simp add: persistApplyingState_def)

lemma run_persistState:
  assumes "accepts_writes B"
  shows "\<exists>s'. run_state (persistStateWithObserved B ref state up del observed) s = (None, s') \<and> sys_controller s' = sys_controller s"
proof (cases "bd_Store B")
  case (Some st)
  let ?s = "s\<lparr>sys_world := snd (bd_Now B (sys_world s))\<rparr>"
  obtain p w where p: "run_state (optional_probe B up ref (rs_AttemptCount state)) ?s = (p, ?s\<lparr>sys_world := w\<rparr>)"
    using run_optional_probe [of B up ref "rs_AttemptCount state" ?s] by blast
  obtain q v where q: "run_state (optional_probe B del ref (rs_AttemptCount state)) (?s\<lparr>sys_world := w\<rparr>) = (q, ?s\<lparr>sys_world := w\<rparr>\<lparr>sys_world := v\<rparr>)"
    using run_optional_probe [of B del ref "rs_AttemptCount state" "?s\<lparr>sys_world := w\<rparr>"] by blast
  show ?thesis
    using p q Some by (simp add: persistStateWithObserved_def stamped_state_def run_now run_transition [OF assms Some] run_rules)
qed (simp add: persistStateWithObserved_def)

definition next_observed :: "Controller \<Rightarrow> time \<Rightarrow> time" where
  "next_observed c t = (if ct_lastObservedAt c < t - t mod 1000 then t - t mod 1000 else ct_lastObservedAt c + 1000)"

lemma run_next_observed:
  assumes "ObservedFirewallUpdate_Validate (snapshot_update c (next_observed (sys_controller s) (fst (bd_Now B (sys_world s)))) snapshot) = None"
  shows "\<exists>u l s'. run_state (State_Monad.bind (nextObservedAt B) (\<lambda>at. validated_update (snapshot_update c at snapshot))) s = (Inr u, s')
    \<and> sys_controller s' = (sys_controller s)\<lparr>ct_lastObservedAt := l\<rparr>"
  using assms by (auto simp: nextObservedAt_def validated_update_def run_now run_rules Let_def simp flip: next_observed_def)

lemma run_observed:
  assumes "ObservedFirewallUpdate_Validate (snapshot_update (sys_controller s) (next_observed (sys_controller s) (fst (bd_Now B (sys_world s)))) snapshot) = None"
  shows "\<exists>u l s'. run_state (observedUpdateForSnapshot B snapshot) s = (Inr u, s') \<and> sys_controller s' = (sys_controller s)\<lparr>ct_lastObservedAt := l\<rparr>"
proof (cases "bd_Store B = None \<or> \<not> ct_hasDesired (sys_controller s)")
  case True
  then have "run_state (observedUpdateForSnapshot B snapshot) s = (Inr None, s)"
    by (simp add: observedUpdateForSnapshot_def run_rules)
  moreover have "sys_controller s = (sys_controller s)\<lparr>ct_lastObservedAt := ct_lastObservedAt (sys_controller s)\<rparr>" by simp
  ultimately show ?thesis by (intro exI conjI)
next
  case False
  then show ?thesis
    using run_next_observed [OF assms] by (auto simp: observedUpdateForSnapshot_def run_basic run_bind)
qed

section \<open>A cooperative environment\<close>

definition unexpired :: "time \<Rightarrow> OperationPlan \<Rightarrow> bool" where
  "unexpired t plan \<longleftrightarrow> (case int_EffectiveUntil (op_DesiredTarget plan) of None \<Rightarrow> True | Some u \<Rightarrow> t < u)"

definition may_begin :: "time \<Rightarrow> Controller \<Rightarrow> attemptRef \<Rightarrow> bool" where
  "may_begin t c ref \<longleftrightarrow>
     rs_Status (retry_state c ref) \<noteq> ReconcileDegraded \<and> rs_AttemptCount (retry_state c ref) < maxMutationAttempts
     \<and> \<not> not_ready t (retry_state c ref)"

text \<open>
  The environment of a successful attempt: nobody publishes another desired snapshot meanwhile, the store,
  if there is one, takes the writes, every reading of the clock is before the expiry of the plan, every probe
  answers, every call of \<^verbatim>\<open>Apply\<close> gives the result, and the probe right after it shows the desired state in a form
  that the observation records.
\<close>

definition shows_desired :: "'w Boundary \<Rightarrow> Controller \<Rightarrow> OperationPlan \<Rightarrow> Snapshot \<Rightarrow> bool" where
  "shows_desired B c plan snapshot \<longleftrightarrow>
     snapshotMatchesCurrentDesired c snapshot (op_Domain plan) (op_Target plan)
     \<and> (\<forall>w. ObservedFirewallUpdate_Validate (snapshot_update c (next_observed c (fst (bd_Now B w))) snapshot) = None)"

definition cooperative :: "'w Boundary \<Rightarrow> Controller \<Rightarrow> OperationPlan \<Rightarrow> ApplyResult \<Rightarrow> bool" where
  "cooperative B c plan result \<longleftrightarrow>
     accepts_writes B \<and> (\<forall>w. fst (bd_Publish B w) = [] \<and> unexpired (fst (bd_Now B w)) plan \<and> fst (bd_Probe B w) \<noteq> None)
     \<and> (\<forall>p w. fst (bd_Apply B p w) = Some result
          \<and> (case fst (bd_Probe B (snd (bd_Apply B p w))) of None \<Rightarrow> False | Some snapshot \<Rightarrow> shows_desired B c plan snapshot))"

lemma cooperative_locked:
  "cooperative B c plan result \<Longrightarrow> run_state (locked B m) s = run_state m (s\<lparr>sys_world := snd (bd_Publish B (sys_world s))\<rparr>)"
  by (simp add: cooperative_def locked_def publish_def run_ask run_rules)

text \<open>A plan on a fresh basis has the fences and the payload of the plan.\<close>

definition same_fences :: "OperationPlan \<Rightarrow> OperationPlan \<Rightarrow> bool" where
  "same_fences p q \<longleftrightarrow> (\<exists>basis digest. q = p\<lparr>op_BasisSnapshotDigest := basis, op_Digest := digest\<rparr>)"

lemma same_fences_rebased: "same_fences plan (rebased B snapshot plan)"
  by (auto simp: same_fences_def rebased_def Let_def)

lemma same_fences_refl: "same_fences plan plan"
  unfolding same_fences_def
  by (rule exI [of _ "op_BasisSnapshotDigest plan"], rule exI [of _ "op_Digest plan"]) (cases plan, simp)

lemma same_fences_simps:
  assumes "same_fences p q"
  shows "planMatchesCurrentDesired c q = planMatchesCurrentDesired c p" "attemptState c q = attemptState c p"
    "unexpired t q = unexpired t p" "pendingProbeKeyForPlan q = pendingProbeKeyForPlan p" "op_Domain q = op_Domain p"
    "op_Target q = op_Target p" "op_ExpectedTargetGeneration q = op_ExpectedTargetGeneration p"
proof -
  obtain basis digest where q: "q = p\<lparr>op_BasisSnapshotDigest := basis, op_Digest := digest\<rparr>"
    using assms by (auto simp: same_fences_def)
  show "planMatchesCurrentDesired c q = planMatchesCurrentDesired c p" "attemptState c q = attemptState c p"
    "unexpired t q = unexpired t p" "pendingProbeKeyForPlan q = pendingProbeKeyForPlan p" "op_Domain q = op_Domain p"
    "op_Target q = op_Target p" "op_ExpectedTargetGeneration q = op_ExpectedTargetGeneration p"
    by (simp_all add: q planMatchesCurrentDesired_def attemptState_def unexpired_def pendingProbeKeyForPlan_def
        split: Domain.split option.split)
qed

lemma cooperative_fence:
  assumes "cooperative B c plan result" and "same_fences plan p"
  shows "\<exists>s'. run_state (targetExpirationFenceLocked B p) s = (None, s') \<and> sys_controller s' = sys_controller s"
    and "\<exists>s'. run_state (targetExpirationFence B p) s = (None, s') \<and> sys_controller s' = sys_controller s"
proof -
  have u: "unexpired (fst (bd_Now B w)) p" for w using assms by (simp add: cooperative_def same_fences_simps(3) [OF assms(2)])
  have *: "\<exists>s'. run_state (targetExpirationFenceLocked B p) s = (None, s') \<and> sys_controller s' = sys_controller s" for s
    using u [of "sys_world s"]
    by (auto simp: targetExpirationFenceLocked_def unexpired_def run_now run_rules split: option.splits)
  then show "\<exists>s'. run_state (targetExpirationFenceLocked B p) s = (None, s') \<and> sys_controller s' = sys_controller s" .
  show "\<exists>s'. run_state (targetExpirationFence B p) s = (None, s') \<and> sys_controller s' = sys_controller s"
    using * [of "s\<lparr>sys_world := snd (bd_Publish B (sys_world s))\<rparr>"]
    by (simp add: targetExpirationFence_def cooperative_locked [OF assms(1)])
qed

definition begun_controller :: "time \<Rightarrow> OperationPlan \<Rightarrow> attemptRef \<Rightarrow> Controller \<Rightarrow> Controller" where
  "begun_controller t plan ref c =
     put_pending (pendingProbeKeyForPlan plan) ref (putState ref (begun_state t (retry_state c ref)) c)"

definition confirmed_controller :: "OperationPlan \<Rightarrow> attemptRef \<Rightarrow> Controller \<Rightarrow> Controller" where
  "confirmed_controller plan ref c =
     delete_pending (pendingProbeKeyForPlan plan)
       ((if op_Domain plan = DomainTarget then confirm_target (op_Target plan) (op_ExpectedTargetGeneration plan) else id)
         (putState ref (converged_state (getState c ref)) c))"

lemma same_desired_begun: "same_desired c (begun_controller t plan ref c)"
  by (simp add: begun_controller_def same_desired_def put_pending_def putState_def)

lemma matches_same_desired:
  "same_desired c c' \<Longrightarrow> planMatchesCurrentDesired c' plan = planMatchesCurrentDesired c plan"
  "same_desired c c' \<Longrightarrow> snapshotMatchesCurrentDesired c' snapshot d target = snapshotMatchesCurrentDesired c snapshot d target"
  by (simp_all add: same_desired_def planMatchesCurrentDesired_def snapshotMatchesCurrentDesired_def split: Domain.split option.split)

lemma snapshot_update_same:
  assumes "same_desired c c'" and "ct_nodeID c' = ct_nodeID c"
  shows "snapshot_update c' at snapshot = snapshot_update c at snapshot"
  using assms matches_same_desired(2) [OF assms(1)]
  by (simp add: same_desired_def snapshot_update_def infrastructure_observed_def policy_observed_def target_observed_def
      sorted_targets_def cong: option.case_cong)

section \<open>The attempt\<close>

lemma cooperative_begin:
  assumes "cooperative B c plan result" and "same_fences plan p" and "sys_controller s = c"
    and "attemptState c plan = Some ref" "\<And>w. may_begin (fst (bd_Now B w)) c ref"
    and "ct_pendingProbes c = []" "planMatchesCurrentDesired c plan"
  shows "\<exists>s' w. run_state (beginAttempt B p) s = (Inr ref, s')
    \<and> sys_controller s' = begun_controller (fst (bd_Now B w)) plan ref c"
proof -
  note f = same_fences_simps [OF assms(2)]
  obtain s1 where s1: "run_state (targetExpirationFenceLocked B p) (s\<lparr>sys_world := snd (bd_Publish B (sys_world s))\<rparr>) = (None, s1)"
      "sys_controller s1 = c"
    using cooperative_fence(1) [OF assms(1,2), of "s\<lparr>sys_world := snd (bd_Publish B (sys_world s))\<rparr>"] assms(3) by auto
  let ?t = "fst (bd_Now B (sys_world s1))"
  let ?s1 = "s1\<lparr>sys_world := snd (bd_Now B (sys_world s1))\<rparr>"
  have "accepts_writes B" using assms(1) by (simp add: cooperative_def)
  from run_persistApplying [OF this, of ref "begun_state ?t (retry_state c ref)" "pendingProbeKeyForPlan plan" ?s1]
  obtain s2 where s2: "run_state (persistApplyingState B ref (begun_state ?t (retry_state c ref)) (pendingProbeKeyForPlan plan) None) ?s1 = (None, s2)"
      "sys_controller s2 = c"
    using s1(2) by auto
  have "may_begin ?t c ref" by (rule assms(5))
  then have "\<exists>s'. run_state (beginAttempt B p) s = (Inr ref, s') \<and> sys_controller s' = begun_controller ?t plan ref c"
    using assms(3,4,6,7) s1 s2
    by (simp add: beginAttempt_def beginAttemptLocked_def cooperative_locked [OF assms(1)] run_now run_rules Let_def
        may_begin_def put_begun_def begun_controller_def f)
  then show ?thesis by blast
qed

lemma cooperative_begin_execution:
  assumes "cooperative B c plan result" and "sys_controller s = c"
    and "attemptState c plan = Some ref" "\<And>w. may_begin (fst (bd_Now B w)) c ref"
    and "ct_pendingProbes c = []" "\<not> ct_startupProbeRequired c" "planMatchesCurrentDesired c plan"
  shows "\<exists>p s' w. run_state (begin_execution B plan) s = (Inr (p, Some ref), s') \<and> same_fences plan p
    \<and> sys_controller s' = begun_controller (fst (bd_Now B w)) plan ref c"
proof -
  let ?p = "\<lambda>s. s\<lparr>sys_world := snd (bd_Publish B (sys_world s))\<rparr>"
  note r = cooperative_locked [OF assms(1)] and starts = cooperative_begin [OF assms(1) _ _ assms(3,4,5,7)]
  show ?thesis
  proof (cases "bd_RequiresFreshBasis B")
    case True
    let ?s = "?p (?p s)"
    obtain snapshot where sn: "fst (bd_Probe B (sys_world ?s)) = Some snapshot"
      using assms(1) unfolding cooperative_def by blast
    let ?t = "?s\<lparr>sys_world := snd (bd_Probe B (sys_world ?s)), sys_log := sys_log s @ [Probed (Some snapshot)]\<rparr>"
    have pr: "run_state (probe B) ?s = (Some snapshot, ?t)" using sn by (simp add: probe_def run_ask run_rules)
    have "sys_controller ?t = c" using assms(2) by simp
    from starts [OF same_fences_rebased this] obtain s' w where
      "run_state (beginAttempt B (rebased B snapshot plan)) ?t = (Inr ref, s')"
      "sys_controller s' = begun_controller (fst (bd_Now B w)) plan ref c" by blast
    then have "run_state (begin_execution B plan) s = (Inr (rebased B snapshot plan, Some ref), s')"
      using True assms(2,5,6) pr by (simp add: begin_execution_def r run_rules Let_def)
    then show ?thesis using same_fences_rebased \<open>sys_controller s' = _\<close> by blast
  next
    case False
    from starts [OF same_fences_refl, of "?p (?p s)"] assms(2) obtain s' w where
      "run_state (beginAttempt B plan) (?p (?p s)) = (Inr ref, s')"
      "sys_controller s' = begun_controller (fst (bd_Now B w)) plan ref c" by auto
    then have "run_state (begin_execution B plan) s = (Inr (plan, Some ref), s')"
      using False assms(2,5,6) by (simp add: begin_execution_def r run_rules)
    then show ?thesis using same_fences_refl \<open>sys_controller s' = _\<close> by blast
  qed
qed

lemma cooperative_commit:
  assumes "cooperative B c plan result" and "same_fences plan p" and "shows_desired B c plan snapshot"
    and "same_desired c (sys_controller s)" "ct_nodeID (sys_controller s) = ct_nodeID c"
    "ct_lastObservedAt (sys_controller s) = ct_lastObservedAt c" "planMatchesCurrentDesired c plan"
  shows "\<exists>l s'. run_state (commitConfirmed B ref p snapshot (pendingProbeKeyForPlan plan)) s = (None, s')
    \<and> sys_controller s' = confirmed_controller plan ref ((sys_controller s)\<lparr>ct_lastObservedAt := l\<rparr>)"
proof -
  note f = same_fences_simps [OF assms(2)]
  let ?s = "s\<lparr>sys_world := snd (bd_Publish B (sys_world s))\<rparr>"
  have "next_observed (sys_controller s) t = next_observed c t" for t by (simp add: next_observed_def assms(6))
  then have "ObservedFirewallUpdate_Validate (snapshot_update (sys_controller ?s) (next_observed (sys_controller ?s) (fst (bd_Now B w))) snapshot) = None" for w
    using assms(3) snapshot_update_same [OF assms(4,5)] by (simp add: shows_desired_def)
  from run_observed [OF this] obtain u l s1 where s1: "run_state (observedUpdateForSnapshot B snapshot) ?s = (Inr u, s1)"
      "sys_controller s1 = (sys_controller s)\<lparr>ct_lastObservedAt := l\<rparr>" by auto
  have d: "same_desired c (sys_controller s1)" using assms(4) by (simp add: s1(2) same_desired_def)
  have "accepts_writes B" using assms(1) by (simp add: cooperative_def)
  from run_persistState [OF this, of ref "converged_state (getState (sys_controller s1) ref)" None "Some (pendingProbeKeyForPlan plan)" u s1]
  obtain s2 where s2: "run_state (persistStateWithObserved B ref (converged_state (getState (sys_controller s1) ref)) None
      (Some (pendingProbeKeyForPlan plan)) u) s1 = (None, s2)" "sys_controller s2 = sys_controller s1" by blast
  have "\<exists>s'. run_state (commitConfirmed B ref p snapshot (pendingProbeKeyForPlan plan)) s = (None, s')
      \<and> sys_controller s' = confirmed_controller plan ref (sys_controller s1)"
    using assms(3,7) s1(1) s2
    by (simp add: commitConfirmed_def finishConvergedLocked_def confirm_plan_def confirm_step_def log_confirmed_def shows_desired_def
        cooperative_locked [OF assms(1)] run_rules Let_def confirmed_controller_def f matches_same_desired [OF d])
  then show ?thesis using s1(2) by auto
qed

lemma cooperative_apply:
  assumes "cooperative B c plan result" and "same_fences plan p" and "ar_Kind result = ResultConfirmed"
    and "same_desired c (sys_controller s)" "ct_nodeID (sys_controller s) = ct_nodeID c"
    "ct_lastObservedAt (sys_controller s) = ct_lastObservedAt c" "planMatchesCurrentDesired c plan"
  shows "\<exists>l s'. run_state (apply_attempt B p (pendingProbeKeyForPlan plan) ref) s
      = ((\<lparr> ex_Apply = Some result, ex_RecoveredByProbe = False \<rparr>, None), s')
    \<and> sys_controller s' = confirmed_controller plan ref ((sys_controller s)\<lparr>ct_lastObservedAt := l\<rparr>)"
proof -
  obtain s1 where s1: "run_state (targetExpirationFence B p) s = (None, s1)" "sys_controller s1 = sys_controller s"
    using cooperative_fence(2) [OF assms(1,2)] by blast
  let ?w = "snd (bd_Apply B p (sys_world s1))"
  have applied: "fst (bd_Apply B p (sys_world s1)) = Some result" using assms(1) by (simp add: cooperative_def)
  obtain snapshot where sn: "fst (bd_Probe B ?w) = Some snapshot" "shows_desired B c plan snapshot"
    using assms(1) unfolding cooperative_def by (metis (no_types, lifting) option.case_eq_if option.collapse)
  let ?s2 = "s1\<lparr>sys_world := snd (bd_Probe B ?w), sys_log := sys_log s1 @ [Applied p, Probed (Some snapshot)]\<rparr>"
  obtain l s3 where s3: "run_state (commitConfirmed B ref p snapshot (pendingProbeKeyForPlan plan)) ?s2 = (None, s3)"
      "sys_controller s3 = confirmed_controller plan ref ((sys_controller s)\<lparr>ct_lastObservedAt := l\<rparr>)"
    using cooperative_commit [OF assms(1,2) sn(2), of ?s2 ref] assms(4-7) s1(2) by auto
  have "run_state (apply_attempt B p (pendingProbeKeyForPlan plan) ref) s
      = ((\<lparr> ex_Apply = Some result, ex_RecoveredByProbe = False \<rparr>, None), s3)"
    using assms(3) s1(1) applied sn(1) s3(1) by (simp add: apply_attempt_def probe_def run_ask run_rules Let_def)
  then show ?thesis using s3(2) by blast
qed

lemma confirmed_begun:
  assumes "ct_pendingProbes c = []"
  shows "stateForRef (confirmed_controller plan ref ((begun_controller t plan ref c)\<lparr>ct_lastObservedAt := l\<rparr>)) ref
      = Some (converged_state (begun_state t (retry_state c ref)))"
    and "\<not> ProbeRequired (confirmed_controller plan ref ((begun_controller t plan ref c)\<lparr>ct_lastObservedAt := l\<rparr>))"
    and "op_Domain plan = DomainTarget \<Longrightarrow>
      ConfirmedTarget (confirmed_controller plan ref ((begun_controller t plan ref c)\<lparr>ct_lastObservedAt := l\<rparr>)) (op_Target plan)
        = Some (op_ExpectedTargetGeneration plan)"
  using assms
  by (simp_all add: confirmed_controller_def begun_controller_def stateForRef_def getState_def putState_def put_pending_def
      delete_pending_def confirm_target_def ProbeRequired_def ConfirmedTarget_def update_conv')

text \<open>
  Claim C39. With or without a store and a fresh basis: \<^verbatim>\<open>Execute\<close> of a valid plan that matches the desired state, in
  a controller whose ledger entry for it has budget left and no back-off running, with no probe pending or
  required and no reload outstanding, ends without an error if, meanwhile, no other desired snapshot is
  published, the store takes the writes, the expiry of the plan is not reached, the probes answer, the backend
  confirms the plan and the probe after it shows the desired state with a valid observation. The ledger entry is then converged with one attempt more, no probe is pending and, for a target, its
  generation is confirmed.
\<close>

theorem Execute_confirms:
  assumes "cooperative B c plan result" and "ar_Kind result = ResultConfirmed" and "sys_controller s = c"
    and "ValidatePlan (bd_PlanDigest B) plan = None" and "planMatchesCurrentDesired c plan"
    and "attemptState c plan = Some ref" and "\<And>w. may_begin (fst (bd_Now B w)) c ref"
    and "ct_pendingProbes c = []" and "\<not> ct_startupProbeRequired c" and "\<not> ct_recoveryReloadNeeded c"
  shows "\<exists>s' w. run_state (Execute B plan) s = ((\<lparr> ex_Apply = Some result, ex_RecoveredByProbe = False \<rparr>, None), s')
    \<and> stateForRef (sys_controller s') ref = Some \<lparr> rs_Status = ReconcileConverged,
         rs_AttemptCount = Suc (rs_AttemptCount (getState c ref)), rs_LastAttemptAt = Some (fst (bd_Now B w)),
         rs_NextAttemptAt = None, rs_LastErrorCode = [] \<rparr>
    \<and> \<not> ProbeRequired (sys_controller s')
    \<and> (op_Domain plan = DomainTarget \<longrightarrow>
         ConfirmedTarget (sys_controller s') (op_Target plan) = Some (op_ExpectedTargetGeneration plan))"
proof -
  let ?p = "\<lambda>s. s\<lparr>sys_world := snd (bd_Publish B (sys_world s))\<rparr>"
  have reload: "run_state (reloadRecoveryIfNeeded B) (?p s) = (None, ?p s)"
    using assms(3,10) by (simp add: reloadRecoveryIfNeeded_def run_rules split: option.split)
  obtain s1 where s1: "run_state (targetExpirationFence B plan) (?p s) = (None, s1)" "sys_controller s1 = c"
    using cooperative_fence(2) [OF assms(1) same_fences_refl, of "?p s"] assms(3) by auto
  obtain p s2 w where s2: "run_state (begin_execution B plan) s1 = (Inr (p, Some ref), s2)" "same_fences plan p"
      "sys_controller s2 = begun_controller (fst (bd_Now B w)) plan ref c"
    using cooperative_begin_execution [OF assms(1) s1(2) assms(6-9,5)] by blast
  have b: "same_desired c (sys_controller s2)" "ct_nodeID (sys_controller s2) = ct_nodeID c"
    "ct_lastObservedAt (sys_controller s2) = ct_lastObservedAt c"
    using same_desired_begun by (simp_all add: s2(3) begun_controller_def put_pending_def putState_def)
  obtain l s3 where s3: "run_state (apply_attempt B p (pendingProbeKeyForPlan plan) ref) s2
      = ((\<lparr> ex_Apply = Some result, ex_RecoveredByProbe = False \<rparr>, None), s3)"
      "sys_controller s3 = confirmed_controller plan ref ((sys_controller s2)\<lparr>ct_lastObservedAt := l\<rparr>)"
    using cooperative_apply [OF assms(1) s2(2) assms(2) b assms(5)] by blast
  have "run_state (Execute B plan) s = ((\<lparr> ex_Apply = Some result, ex_RecoveredByProbe = False \<rparr>, None), s3)"
    using assms(4) reload s1(1) s2(1) s3(1) by (simp add: Execute_def cooperative_locked [OF assms(1)] run_rules)
  moreover note confirmed_begun [OF assms(8), where plan = plan and ref = ref and t = "fst (bd_Now B w)" and l = l]
  ultimately show ?thesis by (intro exI [of _ s3] exI [of _ w]) (simp add: s3(2) s2(3) converged_state_def begun_state_def)
qed

section \<open>A successful attempt\<close>

text \<open>
  A controller that wants one ban until 2030, a store that takes every write and a backend that needs a fresh
  basis and installs the ban. The clock shows one second after the Unix epoch.
\<close>

definition ban_projection :: DesiredBanProjection where
  "ban_projection = sample_projection\<lparr>proj_EffectiveUntil := Some 64029052800000000000\<rparr>"

definition sample_intent :: NormalizedTargetEnforcementIntent where
  "sample_intent = assemble_intent ban_projection (sample_policy PolicyCoverageNone) 4"

definition sample_controller :: Controller where
  "sample_controller = NewController\<lparr>ct_nodeID := replicate 32 CHR ''0'', ct_hasDesired := True,
     ct_desiredTargets := [(int_CanonicalTarget sample_intent, sample_intent)]\<rparr>"

definition sample_plan :: OperationPlan where
  "sample_plan = \<lparr> op_Domain = DomainTarget, op_Target = int_CanonicalTarget sample_intent, op_DesiredTarget = sample_intent,
     op_DesiredInfrastructure = ds_Infrastructure zero_desired, op_DesiredPolicy = ds_Policy zero_desired,
     op_ExpectedInfrastructureRevision = 0, op_ExpectedPolicyRevision = 0, op_ExpectedTargetGeneration = 4,
     op_ExpectedSnapshotRevision = 0, op_FenceSnapshotRevision = False, op_BasisSnapshotDigest = [], op_Digest = ''d'' \<rparr>"

definition sample_snapshot :: Snapshot where
  "sample_snapshot = \<lparr> sn_BasisDigest = [], sn_Infrastructure = None, sn_Policy = None,
     sn_Targets = [(int_CanonicalTarget sample_intent,
       (blank_target (int_CanonicalTarget sample_intent) ObservedMembershipPresent)
         \<lparr>pto_Evidence := TargetObservationEvidenceManagedSnapshot, pto_TimeoutMode := int_TimeoutMode sample_intent,
          pto_NativeExpiry := NativeExpiryForIntent sample_intent, pto_Scopes := int_Scopes sample_intent,
          pto_AddressFamily := int_AddressFamily sample_intent\<rparr>)] \<rparr>"

definition sample_result :: ApplyResult where
  "sample_result = \<lparr> ar_Kind = ResultConfirmed, ar_Domain = DomainTarget, ar_Target = int_CanonicalTarget sample_intent,
     ar_Digest = ''d'', ar_ErrorCode = [] \<rparr>"

definition accepting_store :: "unit PersistentStateStore" where
  "accepting_store = \<lparr> ss_LoadReconcileRecovery = (\<lambda>_. Pair (Inl StoreUnavailable)), ss_ApplyReconcileTransition = (\<lambda>_. Pair None),
     ss_ApplyReconcileRetryTransition = (\<lambda>_. Pair None), ss_ReadReconcileRetryTransition = (\<lambda>_. Pair (Inl StoreUnavailable)),
     ss_LoadObservedFirewallSnapshot = (\<lambda>_. Pair (Inl StoreUnavailable)), ss_ApplyObservedFirewallUpdate = (\<lambda>_. Pair None) \<rparr>"

definition sample_boundary :: "unit Boundary" where
  "sample_boundary = \<lparr> bd_Now = Pair 62135596801000000000, bd_Probe = Pair (Some sample_snapshot),
     bd_Apply = (\<lambda>_. Pair (Some sample_result)), bd_RequiresFreshBasis = True, bd_AppendCriticalAudit = (\<lambda>_. Pair False),
     bd_Store = Some accepting_store, bd_Publish = Pair [],
     bd_Range = id, bd_PlanDigest = (\<lambda>_. ''d''), bd_SnapshotDigest = (\<lambda>_. ''s'') \<rparr>"

definition sample_ref :: attemptRef where
  "sample_ref = RefTarget (int_CanonicalTarget sample_intent) 4 0"

lemma sample_conditions:
  "ValidatePlan (bd_PlanDigest sample_boundary) sample_plan = None" "planMatchesCurrentDesired sample_controller sample_plan"
  "attemptState sample_controller sample_plan = Some sample_ref" "may_begin 62135596801000000000 sample_controller sample_ref"
  "unexpired 62135596801000000000 sample_plan"
  "snapshotMatchesCurrentDesired sample_controller sample_snapshot (op_Domain sample_plan) (op_Target sample_plan)"
  "ObservedFirewallUpdate_Validate
     (snapshot_update sample_controller (next_observed sample_controller 62135596801000000000) sample_snapshot) = None"
  by code_simp+

lemma sample_cooperative: "cooperative sample_boundary sample_controller sample_plan sample_result"
  by (simp add: cooperative_def shows_desired_def accepts_writes_def accepting_store_def sample_boundary_def sample_conditions)

theorem Execute_confirms_witness:
  "\<exists>s'. run_state (Execute sample_boundary sample_plan) (new_system sample_controller ())
      = ((\<lparr> ex_Apply = Some sample_result, ex_RecoveredByProbe = False \<rparr>, None), s')
    \<and> ConfirmedTarget (sys_controller s') (op_Target sample_plan) = Some 4"
proof -
  have begins: "may_begin (fst (bd_Now sample_boundary w)) sample_controller sample_ref" for w
    using sample_conditions(4) by (simp add: sample_boundary_def)
  from Execute_confirms [OF sample_cooperative _ _ sample_conditions(1-3) begins, of "new_system sample_controller ()"]
  show ?thesis
    by (auto simp: sample_result_def new_system_def sample_controller_def NewController_def sample_plan_def)
qed

end
