(* ===== verification/Reconcile_Stale.thy ===== *)
theory Reconcile_Stale
  imports Reconcile_Progress
begin

text \<open>
  The stale path of \<^verbatim>\<open>commitConfirmed\<close> with a store that takes every write: the durable probe requirement
  is deleted, while the probe stays pending in the controller.
\<close>

section \<open>Clearing the durable probe\<close>

text \<open>The state right after the store has deleted the requirement of a pending probe.\<close>

definition cleared_durably :: "'w PersistentStateStore \<Rightarrow> pendingProbeKey \<Rightarrow> attemptRef \<Rightarrow> nat \<Rightarrow> 'w system \<Rightarrow> bool" where
  "cleared_durably st key ref tries s \<longleftrightarrow>
     (\<exists>transition t w. sys_world s = snd (ss_ApplyReconcileTransition st transition w)
        \<and> rst_DeleteProbe transition = Some (persistedProbe (ct_nodeID (sys_controller s)) t key ref tries))"

lemma cleared_durablyI:
  "sys_world s = snd (ss_ApplyReconcileTransition st transition w) \<Longrightarrow>
   rst_DeleteProbe transition = Some (persistedProbe (ct_nodeID (sys_controller s)) t key ref tries) \<Longrightarrow>
   cleared_durably st key ref tries s"
  unfolding cleared_durably_def by blast

lemma clear_runs:
  assumes "accepts_writes B" "bd_Store B = Some st" and "stateForRef (sys_controller s) ref = Some pending"
  shows "\<exists>s'. run_state (clearProbe B key ref) s = (None, s') \<and> sys_controller s' = sys_controller s
      \<and> cleared_durably st key ref (rs_AttemptCount pending) s'"
    and "\<exists>s'. run_state (persistStateAndClearProbe B stateRef state key ref) s = (None, s') \<and> sys_controller s' = sys_controller s
      \<and> cleared_durably st key ref (rs_AttemptCount pending) s'"
  using assms(2,3)
  by (simp_all add: clearProbe_def persistStateAndClearProbe_def stamped_state_def stamped_probe_def run_now
      run_transition [OF assms(1,2)] run_rules) (rule cleared_durablyI, simp, simp)+

lemma stale_runs:
  assumes "accepts_writes B" "bd_Store B = Some st" and "stateForRef (sys_controller s) ref = Some pending"
  shows "\<exists>s'. run_state (finishStaleLocked B ref key) s = (None, s')
    \<and> ct_pendingProbes (sys_controller s') = ct_pendingProbes (sys_controller s)
    \<and> cleared_durably st key ref (rs_AttemptCount pending) s'"
proof -
  let ?state = "(getState (sys_controller s) ref)\<lparr>rs_Status := ReconcilePending, rs_NextAttemptAt := None,
                   rs_LastErrorCode := ''stale_completion''\<rparr>"
  obtain stateRef persisted where p: "(case currentStateForPendingKey (sys_controller s) key of
          Some (currentRef, currentState) \<Rightarrow> if currentRef \<noteq> ref then (currentRef, currentState) else (ref, ?state)
        | None \<Rightarrow> (ref, ?state)) = (stateRef, persisted)"
    by fastforce
  let ?c = "(ref \<in> set (ct_syntheticRefs (sys_controller s)) \<and> stateRef = ref) \<or> \<not> sameAttemptPhysicalKey ref stateRef"
  let ?clear = "if ?c then clearProbe B key ref else persistStateAndClearProbe B stateRef persisted key ref"
  obtain s' where s': "run_state ?clear s = (None, s')" "sys_controller s' = sys_controller s"
      "cleared_durably st key ref (rs_AttemptCount pending) s'"
    using clear_runs(1) [OF assms, of key] clear_runs(2) [OF assms, of stateRef persisted key] by (cases ?c) auto
  have "run_state (finishStaleLocked B ref key) s =
      (None, s'\<lparr>sys_controller := delete_synthetic ref (putState ref ?state (sys_controller s'))\<rparr>)"
    unfolding finishStaleLocked_def run_bind run_basic prod.case Let_def p s'(1) by (simp add: run_bind run_basic)
  then show ?thesis using s'(3) by (simp add: s'(2) delete_synthetic_def putState_def cleared_durably_def)
qed

section \<open>The stale completion\<close>

lemma run_persistObserved:
  assumes "accepts_writes B"
  shows "\<exists>s'. run_state (persistObserved B u) s = (None, s') \<and> sys_controller s' = sys_controller s"
  using assms by (cases "bd_Store B"; cases u) (simp_all add: persistObserved_def accepts_writes_def run_ask run_rules)

text \<open>
  Claim C40. A confirmed plan that is stale by the time of the commit: with a store that takes the writes,
  \<^verbatim>\<open>commitConfirmed\<close> reports \<^verbatim>\<open>ErrStaleCompletion\<close> and its last call of the store deletes the durable probe
  requirement of the attempt, but the probe stays pending in the controller. The controller that the commit
  sees, after the snapshots published meanwhile, has an entry for the attempt and its probe pending, no longer
  matches the plan, and records the snapshot at the clock's reading as a valid observation.
\<close>

theorem stale_completion_keeps_pending_probe:
  assumes "accepts_writes B" and "bd_Store B = Some st" and "run_state (publish B) s = ((), s0)"
    and "\<not> planMatchesCurrentDesired (sys_controller s0) plan"
    and "ObservedFirewallUpdate_Validate (snapshot_update (sys_controller s0)
      (next_observed (sys_controller s0) (fst (bd_Now B (sys_world s0)))) snapshot) = None"
    and "stateForRef (sys_controller s0) ref = Some state" and "map_of (ct_pendingProbes (sys_controller s0)) key = Some ref"
  shows "\<exists>s'. run_state (commitConfirmed B ref plan snapshot key) s = (Some ErrStaleCompletion, s')
    \<and> cleared_durably st key ref (rs_AttemptCount state) s'
    \<and> map_of (ct_pendingProbes (sys_controller s')) key = Some ref"
proof -
  obtain u l s1 where s1: "run_state (observedUpdateForSnapshot B snapshot) s0 = (Inr u, s1)"
      "sys_controller s1 = (sys_controller s0)\<lparr>ct_lastObservedAt := l\<rparr>"
    using run_observed [OF assms(5)] by blast
  have m: "\<not> planMatchesCurrentDesired (sys_controller s1) plan"
    using assms(4) matches_same_desired(1) [of "sys_controller s0" "sys_controller s1" plan] by (simp add: same_desired_def s1(2))
  obtain s2 where s2: "run_state (persistObserved B u) s1 = (None, s2)" "sys_controller s2 = sys_controller s1"
    using run_persistObserved [OF assms(1)] by blast
  have "stateForRef (sys_controller s2) ref = Some state" using assms(6) by (simp add: s2(2) s1(2) stateForRef_def)
  from stale_runs [OF assms(1,2) this, of key] obtain s3 where
    s3: "run_state (finishStaleLocked B ref key) s2 = (None, s3)" "ct_pendingProbes (sys_controller s3) = ct_pendingProbes (sys_controller s0)"
      "cleared_durably st key ref (rs_AttemptCount state) s3"
    by (auto simp: s2(2) s1(2))
  have "run_state (commitConfirmed B ref plan snapshot key) s = (Some ErrStaleCompletion, s3)"
    unfolding commitConfirmed_def locked_def by (simp add: run_bind run_basic assms(3) s1(1) s2(1) s3(1) m)
  then show ?thesis using s3(2,3) assms(7) by simp
qed

text \<open>
  A controller that moves to the next generation of its target while the plan of the previous one is applied:
  the new snapshot is published just before the commit.
\<close>

definition applying_controller :: Controller where
  "applying_controller = sample_controller\<lparr>ct_states := [(sample_ref, begun_state 5 pending_retry)],
     ct_pendingProbes := [(pendingProbeKeyForPlan sample_plan, sample_ref)]\<rparr>"

definition next_desired :: DesiredFirewallSnapshot where
  "next_desired = Core_Policy.sample_snapshot [sample_intent\<lparr>int_Scopes := 1, int_Generation := 5\<rparr>]"

definition stale_controller :: Controller where
  "stale_controller = snd (SetDesiredSnapshot next_desired applying_controller)"

definition stale_boundary :: "unit Boundary" where
  "stale_boundary = sample_boundary\<lparr>bd_Publish := Pair [next_desired]\<rparr>"

lemma stale_conditions:
  "fst (SetDesiredSnapshot next_desired applying_controller) = None" "\<not> planMatchesCurrentDesired stale_controller sample_plan"
  "ObservedFirewallUpdate_Validate
     (snapshot_update stale_controller (next_observed stale_controller 62135596801000000000) Reconcile_Progress.sample_snapshot) = None"
  "stateForRef stale_controller sample_ref = Some (begun_state 5 pending_retry)"
  "map_of (ct_pendingProbes stale_controller) (pendingProbeKeyForPlan sample_plan) = Some sample_ref"
  by code_simp+

lemma stale_store: "accepts_writes stale_boundary" "bd_Store stale_boundary = Some accepting_store"
  by (simp_all add: accepts_writes_def stale_boundary_def sample_boundary_def accepting_store_def)

theorem stale_completion_keeps_pending_probe_witness:
  "\<exists>s'. run_state (commitConfirmed stale_boundary sample_ref sample_plan Reconcile_Progress.sample_snapshot
          (pendingProbeKeyForPlan sample_plan)) (new_system applying_controller ()) = (Some ErrStaleCompletion, s')
    \<and> map_of (ct_pendingProbes (sys_controller s')) (pendingProbeKeyForPlan sample_plan) = Some sample_ref"
proof -
  have "run_state (publish stale_boundary) (new_system applying_controller ()) = ((), new_system stale_controller ())"
    by (simp add: publish_def run_ask run_rules new_system_def stale_boundary_def sample_boundary_def stale_controller_def)
  from stale_completion_keeps_pending_probe [OF stale_store this, of sample_plan Reconcile_Progress.sample_snapshot sample_ref
      "begun_state 5 pending_retry" "pendingProbeKeyForPlan sample_plan"]
  show ?thesis
    using stale_conditions by (auto simp: new_system_def stale_boundary_def sample_boundary_def)
qed

end
