(* ===== verification/Delivery_Queue.thy ===== *)
theory Delivery_Queue
  imports Prelude "HOL-Library.Multiset"
begin

text \<open>
  The bounded hand-over between the readers and the processor (\<^verbatim>\<open>internal/source/queue.go\<close>). Every
  critical section and every channel operation of \<^verbatim>\<open>Enqueue\<close>, \<^verbatim>\<open>Dequeue\<close> and \<^verbatim>\<open>Seal\<close> is one definition;
  concurrent calls are a step relation over them, in which the calls in progress are held by what
  they do next. The two histories record what was accepted and what was handed out.
\<close>

section \<open>The queue\<close>

datatype queue_error = CapacityNotPositive | ErrDeliveryQueueSealed | ContextDone

text \<open>
  The channel \<^verbatim>\<open>slots\<close> is the number of tokens in it, \<^verbatim>\<open>items\<close> its buffered deliveries with a flag
  for \<^verbatim>\<open>close\<close>; \<^verbatim>\<open>seal\<close> and \<^verbatim>\<open>sealDone\<close> carry no values and are flags.
\<close>

record 'd DeliveryQueue =
  dq_capacity :: nat
  dq_items :: "'d list"
  dq_itemsClosed :: bool
  dq_slots :: nat
  dq_seal :: bool
  dq_sealDone :: bool
  dq_sealed :: bool
  dq_admissions :: nat
  dq_acceptedAt :: "time list"
  dq_backpressureDuration :: u64
  dq_rejectedTotal :: u64

record QueueStats =
  qs_Capacity :: nat
  qs_Depth :: nat
  qs_BackpressureDuration :: u64
  qs_RejectedTotal :: u64
  qs_OldestItemAge :: int

definition NewDeliveryQueue :: "int \<Rightarrow> queue_error + 'd DeliveryQueue" where
  "NewDeliveryQueue capacity =
     (if capacity \<le> 0 then Inl CapacityNotPositive
      else Inr \<lparr> dq_capacity = nat capacity, dq_items = [], dq_itemsClosed = False, dq_slots = nat capacity,
                 dq_seal = False, dq_sealDone = False, dq_sealed = False, dq_admissions = 0,
                 dq_acceptedAt = [], dq_backpressureDuration = 0, dq_rejectedTotal = 0 \<rparr>)"

text \<open>The section of \<^verbatim>\<open>Enqueue\<close> under the mutex.\<close>

definition Enqueue_admit :: "bool \<Rightarrow> 'd DeliveryQueue \<Rightarrow> queue_error + 'd DeliveryQueue" where
  "Enqueue_admit cancelled q =
     (if dq_sealed q then Inl ErrDeliveryQueueSealed
      else if cancelled then Inl ContextDone
      else Inr (q\<lparr>dq_admissions := Suc (dq_admissions q)\<rparr>))"

text \<open>The receive from \<^verbatim>\<open>slots\<close>: no value while it would block.\<close>

definition take_slot :: "'d DeliveryQueue \<Rightarrow> 'd DeliveryQueue option" where
  "take_slot q = (if dq_slots q = 0 then None else Some (q\<lparr>dq_slots := dq_slots q - 1\<rparr>))"

text \<open>
  A send on a channel blocks when its buffer is full and panics when it is closed.
\<close>

datatype 'a send = Blocked | Panicked | Sent 'a

definition recordAccepted :: "'d \<Rightarrow> time \<Rightarrow> int \<Rightarrow> 'd DeliveryQueue \<Rightarrow> 'd DeliveryQueue send" where
  "recordAccepted delivery now wait q =
     (if dq_itemsClosed q then Panicked
      else if dq_capacity q \<le> length (dq_items q) then Blocked
      else Sent (q\<lparr>dq_items := dq_items q @ [delivery], dq_acceptedAt := dq_acceptedAt q @ [now],
                   dq_backpressureDuration := dq_backpressureDuration q + word_of_int wait\<rparr>))"

definition recordRejected :: "'d DeliveryQueue \<Rightarrow> 'd DeliveryQueue" where
  "recordRejected q = q\<lparr>dq_rejectedTotal := dq_rejectedTotal q + 1\<rparr>"

definition admission_done :: "'d DeliveryQueue \<Rightarrow> 'd DeliveryQueue" where
  "admission_done q = q\<lparr>dq_admissions := dq_admissions q - 1\<rparr>"

text \<open>The receive in \<^verbatim>\<open>Dequeue\<close>: it blocks on an empty open channel and fails on an empty closed one.\<close>

definition Dequeue_receive :: "'d DeliveryQueue \<Rightarrow> (queue_error + 'd \<times> 'd DeliveryQueue) option" where
  "Dequeue_receive q =
     (case dq_items q of
        [] \<Rightarrow> if dq_itemsClosed q then Some (Inl ErrDeliveryQueueSealed) else None
      | d # ds \<Rightarrow> Some (Inr (d, q\<lparr>dq_items := ds\<rparr>)))"

definition recordDequeued :: "'d DeliveryQueue \<Rightarrow> 'd DeliveryQueue" where
  "recordDequeued q = (if dq_acceptedAt q = [] then q else q\<lparr>dq_acceptedAt := tl (dq_acceptedAt q)\<rparr>)"

definition return_slot :: "'d DeliveryQueue \<Rightarrow> 'd DeliveryQueue send" where
  "return_slot q = (if dq_capacity q \<le> dq_slots q then Blocked else Sent (q\<lparr>dq_slots := Suc (dq_slots q)\<rparr>))"

text \<open>\<^verbatim>\<open>Seal\<close>: the section under the mutex (true when this call seals), and the two closings after the wait.\<close>

definition Seal_begin :: "'d DeliveryQueue \<Rightarrow> bool \<times> 'd DeliveryQueue" where
  "Seal_begin q = (if dq_sealed q then (False, q) else (True, q\<lparr>dq_sealed := True, dq_seal := True\<rparr>))"

definition Seal_close_items :: "'d DeliveryQueue \<Rightarrow> 'd DeliveryQueue option" where
  "Seal_close_items q = (if dq_admissions q \<noteq> 0 then None else Some (q\<lparr>dq_itemsClosed := True\<rparr>))"

definition Seal_close_done :: "'d DeliveryQueue \<Rightarrow> 'd DeliveryQueue" where
  "Seal_close_done q = q\<lparr>dq_sealDone := True\<rparr>"

definition Len :: "'d DeliveryQueue \<Rightarrow> nat" where "Len q = length (dq_items q)"

definition Capacity :: "'d DeliveryQueue \<Rightarrow> nat" where "Capacity q = dq_capacity q"

definition Stats :: "time \<Rightarrow> 'd DeliveryQueue \<Rightarrow> QueueStats" where
  "Stats now q =
     (let oldest = (case dq_acceptedAt q of [] \<Rightarrow> 0 | t # _ \<Rightarrow> t) in
      \<lparr> qs_Capacity = dq_capacity q, qs_Depth = length (dq_acceptedAt q),
        qs_BackpressureDuration = dq_backpressureDuration q, qs_RejectedTotal = dq_rejectedTotal q,
        qs_OldestItemAge = (if IsZero oldest then 0 else if now - oldest < 0 then 0 else now - oldest) \<rparr>)"

section \<open>Concurrent calls\<close>

text \<open>
  The calls in progress by what they do next. \<open>sy_rejecting\<close> counts refused calls before they count
  themselves; \<open>sy_waiting\<close> holds the deliveries of admitted calls in the \<^verbatim>\<open>select\<close>, \<open>sy_slotted\<close> those that
  took a slot; \<open>sy_abandoning\<close> counts admitted calls that lost, \<open>sy_leaving\<close> those that only have to sign off;
  \<open>sy_received\<close> and \<open>sy_returning\<close> hold deliveries received before and after their bookkeeping; \<open>sy_sealer\<close> is
  where the first \<^verbatim>\<open>Seal\<close> is: it waits for the admissions, is between the two closings, or has returned.
\<close>

datatype seal_phase = NotSealing | AwaitsAdmissions | ClosesDone | SealReturned

record 'd queue_system =
  sy_queue :: "'d DeliveryQueue"
  sy_rejecting :: nat
  sy_waiting :: "'d multiset"
  sy_slotted :: "'d multiset"
  sy_abandoning :: nat
  sy_leaving :: nat
  sy_received :: "'d multiset"
  sy_returning :: "'d multiset"
  sy_sealer :: seal_phase
  sy_accepted :: "'d list"
  sy_handed :: "'d list"

definition start_system :: "'d DeliveryQueue \<Rightarrow> 'd queue_system" where
  "start_system q = \<lparr> sy_queue = q, sy_rejecting = 0, sy_waiting = {#}, sy_slotted = {#}, sy_abandoning = 0,
     sy_leaving = 0, sy_received = {#}, sy_returning = {#}, sy_sealer = NotSealing, sy_accepted = [], sy_handed = [] \<rparr>"

datatype queue_action =
    Refuse | CountRefusal | Admit | TakeSlot | SealedOut | Cancel | CountRejection | Accept | SignOff
  | Receive | Book | GiveBack | BeginSeal | CloseItems | CloseDone

inductive queue_step :: "queue_action \<Rightarrow> 'd queue_system \<Rightarrow> 'd queue_system \<Rightarrow> bool" where
  refuse: "Enqueue_admit cancelled (sy_queue s) = Inl e
    \<Longrightarrow> queue_step Refuse s (s\<lparr>sy_rejecting := Suc (sy_rejecting s)\<rparr>)"
| count_refusal: "0 < sy_rejecting s
    \<Longrightarrow> queue_step CountRefusal s (s\<lparr>sy_queue := recordRejected (sy_queue s), sy_rejecting := sy_rejecting s - 1\<rparr>)"
| admit: "Enqueue_admit cancelled (sy_queue s) = Inr q
    \<Longrightarrow> queue_step Admit s (s\<lparr>sy_queue := q, sy_waiting := add_mset d (sy_waiting s)\<rparr>)"
| slot: "d \<in># sy_waiting s \<Longrightarrow> take_slot (sy_queue s) = Some q
    \<Longrightarrow> queue_step TakeSlot s (s\<lparr>sy_queue := q, sy_waiting := sy_waiting s - {#d#}, sy_slotted := add_mset d (sy_slotted s)\<rparr>)"
| sealed_out: "d \<in># sy_waiting s \<Longrightarrow> dq_seal (sy_queue s)
    \<Longrightarrow> queue_step SealedOut s (s\<lparr>sy_waiting := sy_waiting s - {#d#}, sy_abandoning := Suc (sy_abandoning s)\<rparr>)"
| cancel: "d \<in># sy_waiting s
    \<Longrightarrow> queue_step Cancel s (s\<lparr>sy_waiting := sy_waiting s - {#d#}, sy_abandoning := Suc (sy_abandoning s)\<rparr>)"
| count_rejection: "0 < sy_abandoning s
    \<Longrightarrow> queue_step CountRejection s (s\<lparr>sy_queue := recordRejected (sy_queue s), sy_abandoning := sy_abandoning s - 1,
                                     sy_leaving := Suc (sy_leaving s)\<rparr>)"
| accept: "d \<in># sy_slotted s \<Longrightarrow> recordAccepted d now wait (sy_queue s) = Sent q
    \<Longrightarrow> queue_step Accept s (s\<lparr>sy_queue := q, sy_slotted := sy_slotted s - {#d#}, sy_leaving := Suc (sy_leaving s),
                             sy_accepted := sy_accepted s @ [d]\<rparr>)"
| sign_off: "0 < sy_leaving s
    \<Longrightarrow> queue_step SignOff s (s\<lparr>sy_queue := admission_done (sy_queue s), sy_leaving := sy_leaving s - 1\<rparr>)"
| receive: "Dequeue_receive (sy_queue s) = Some (Inr (d, q))
    \<Longrightarrow> queue_step Receive s (s\<lparr>sy_queue := q, sy_received := add_mset d (sy_received s), sy_handed := sy_handed s @ [d]\<rparr>)"
| book: "d \<in># sy_received s
    \<Longrightarrow> queue_step Book s (s\<lparr>sy_queue := recordDequeued (sy_queue s), sy_received := sy_received s - {#d#},
                           sy_returning := add_mset d (sy_returning s)\<rparr>)"
| give_back: "d \<in># sy_returning s \<Longrightarrow> return_slot (sy_queue s) = Sent q
    \<Longrightarrow> queue_step GiveBack s (s\<lparr>sy_queue := q, sy_returning := sy_returning s - {#d#}\<rparr>)"
| begin_seal: "Seal_begin (sy_queue s) = (True, q)
    \<Longrightarrow> queue_step BeginSeal s (s\<lparr>sy_queue := q, sy_sealer := AwaitsAdmissions\<rparr>)"
| close_items: "sy_sealer s = AwaitsAdmissions \<Longrightarrow> Seal_close_items (sy_queue s) = Some q
    \<Longrightarrow> queue_step CloseItems s (s\<lparr>sy_queue := q, sy_sealer := ClosesDone\<rparr>)"
| close_done: "sy_sealer s = ClosesDone
    \<Longrightarrow> queue_step CloseDone s (s\<lparr>sy_queue := Seal_close_done (sy_queue s), sy_sealer := SealReturned\<rparr>)"

inductive_cases queue_stepE: "queue_step a s s'"

inductive queue_reachable :: "int \<Rightarrow> 'd queue_system \<Rightarrow> bool" for capacity where
  start: "NewDeliveryQueue capacity = Inr q \<Longrightarrow> queue_reachable capacity (start_system q)"
| step: "queue_reachable capacity s \<Longrightarrow> queue_step a s s' \<Longrightarrow> queue_reachable capacity s'"

section \<open>The invariant\<close>

definition seal_flags :: "seal_phase \<Rightarrow> 'd DeliveryQueue \<Rightarrow> bool" where
  "seal_flags phase q \<longleftrightarrow>
     dq_seal q = dq_sealed q \<and> dq_sealed q = (phase \<noteq> NotSealing)
     \<and> dq_itemsClosed q = (phase = ClosesDone \<or> phase = SealReturned) \<and> dq_sealDone q = (phase = SealReturned)"

definition queue_invariant :: "nat \<Rightarrow> 'd queue_system \<Rightarrow> bool" where
  "queue_invariant capacity s \<longleftrightarrow>
     (let q = sy_queue s in
      dq_capacity q = capacity
      \<and> dq_slots q + length (dq_items q) + size (sy_slotted s) + size (sy_received s) + size (sy_returning s) = capacity
      \<and> dq_admissions q = size (sy_waiting s) + size (sy_slotted s) + sy_abandoning s + sy_leaving s
      \<and> length (dq_acceptedAt q) = length (dq_items q) + size (sy_received s)
      \<and> sy_accepted s = sy_handed s @ dq_items q
      \<and> seal_flags (sy_sealer s) q
      \<and> (dq_itemsClosed q \<longrightarrow> dq_admissions q = 0))"

lemma seal_flags_other [simp]:
  "seal_flags p (q\<lparr>dq_slots := a\<rparr>) = seal_flags p q" "seal_flags p (q\<lparr>dq_items := b\<rparr>) = seal_flags p q"
  "seal_flags p (q\<lparr>dq_admissions := c\<rparr>) = seal_flags p q" "seal_flags p (q\<lparr>dq_acceptedAt := d\<rparr>) = seal_flags p q"
  "seal_flags p (q\<lparr>dq_backpressureDuration := e\<rparr>) = seal_flags p q"
  "seal_flags p (q\<lparr>dq_rejectedTotal := f\<rparr>) = seal_flags p q"
  by (simp_all add: seal_flags_def)

lemma seal_flags_phases:
  "\<not> dq_sealed q \<Longrightarrow> seal_flags p q \<Longrightarrow> \<not> dq_itemsClosed q"
  "\<not> dq_sealed q \<Longrightarrow> seal_flags p q \<Longrightarrow> seal_flags AwaitsAdmissions (q\<lparr>dq_sealed := True, dq_seal := True\<rparr>)"
  "seal_flags AwaitsAdmissions q \<Longrightarrow> seal_flags ClosesDone (q\<lparr>dq_itemsClosed := True\<rparr>)"
  "seal_flags ClosesDone q \<Longrightarrow> seal_flags SealReturned (q\<lparr>dq_sealDone := True\<rparr>)"
  by (auto simp: seal_flags_def)

lemmas section_defs = Enqueue_admit_def take_slot_def recordAccepted_def recordRejected_def admission_done_def
  Dequeue_receive_def recordDequeued_def return_slot_def Seal_begin_def Seal_close_items_def Seal_close_done_def

lemma queue_invariant_start:
  "NewDeliveryQueue capacity = Inr q \<Longrightarrow> queue_invariant (nat capacity) (start_system q)"
  by (auto simp: NewDeliveryQueue_def start_system_def queue_invariant_def seal_flags_def split: if_splits)

lemma queue_invariant_step:
  assumes "queue_step a s s'" and "queue_invariant capacity s"
  shows "queue_invariant capacity s'"
  using assms
  by (induction rule: queue_step.induct)
    (auto simp: queue_invariant_def Let_def section_defs split: if_splits list.splits
      intro: seal_flags_phases dest: seal_flags_phases(1) dest!: multi_member_split)

lemma queue_reachable_invariant: "queue_reachable capacity s \<Longrightarrow> queue_invariant (nat capacity) s"
  by (induction rule: queue_reachable.induct) (auto intro: queue_invariant_start queue_invariant_step)

section \<open>The properties\<close>

lemma accept_possible:
  assumes "queue_invariant capacity s" and "sy_slotted s \<noteq> {#}"
  shows "\<exists>q. recordAccepted d now wait (sy_queue s) = Sent q"
proof -
  have "0 < size (sy_slotted s)" using assms(2) by (simp add: nonempty_has_size)
  then have "\<not> dq_itemsClosed (sy_queue s)" "length (dq_items (sy_queue s)) < dq_capacity (sy_queue s)"
    using assms(1) by (auto simp: queue_invariant_def Let_def)
  then show ?thesis by (simp add: recordAccepted_def)
qed

lemma return_possible:
  assumes "queue_invariant capacity s" and "sy_returning s \<noteq> {#}"
  shows "\<exists>q. return_slot (sy_queue s) = Sent q"
proof -
  have "0 < size (sy_returning s)" using assms(2) by (simp add: nonempty_has_size)
  then show ?thesis using assms(1) by (auto simp: queue_invariant_def Let_def return_slot_def)
qed

text \<open>
  Claim C37. In every interleaving of calls, the deliveries handed out and those still buffered are exactly
  the accepted ones, in the order of acceptance; the buffer stays within the capacity; a call that took a
  slot delivers without blocking and never sends on the closed channel, and a slot is returned without
  blocking.
\<close>

theorem queue_fifo_and_never_stuck:
  assumes "queue_reachable capacity s"
  shows "sy_accepted s = sy_handed s @ dq_items (sy_queue s) \<and> Len (sy_queue s) \<le> nat capacity
    \<and> (sy_slotted s \<noteq> {#} \<longrightarrow> (\<exists>q. recordAccepted d now wait (sy_queue s) = Sent q))
    \<and> (sy_returning s \<noteq> {#} \<longrightarrow> (\<exists>q. return_slot (sy_queue s) = Sent q))"
proof -
  have i: "queue_invariant (nat capacity) s" using assms by (rule queue_reachable_invariant)
  have "sy_accepted s = sy_handed s @ dq_items (sy_queue s)" "Len (sy_queue s) \<le> nat capacity"
    using i by (simp_all add: queue_invariant_def Let_def Len_def)
  then show ?thesis using accept_possible [OF i] return_possible [OF i] by blast
qed

definition one_queue :: "nat DeliveryQueue" where
  "one_queue = \<lparr> dq_capacity = 1, dq_items = [], dq_itemsClosed = False, dq_slots = 1,
     dq_seal = False, dq_sealDone = False, dq_sealed = False, dq_admissions = 0,
     dq_acceptedAt = [], dq_backpressureDuration = 0, dq_rejectedTotal = 0 \<rparr>"

definition one_waiting :: "nat queue_system" where
  "one_waiting = (start_system one_queue)\<lparr>sy_queue := one_queue\<lparr>dq_admissions := 1\<rparr>, sy_waiting := {#7#}\<rparr>"

definition one_slotted :: "nat queue_system" where
  "one_slotted = (start_system one_queue)\<lparr>sy_queue := one_queue\<lparr>dq_slots := 0, dq_admissions := 1\<rparr>, sy_slotted := {#7#}\<rparr>"

lemma one_waiting_reachable: "queue_reachable 1 one_waiting"
proof -
  have a: "queue_reachable 1 (start_system one_queue)"
    by (rule queue_reachable.start) (simp add: NewDeliveryQueue_def one_queue_def)
  have "queue_step Admit (start_system one_queue) one_waiting"
    using queue_step.admit [of False "start_system one_queue" "one_queue\<lparr>dq_admissions := 1\<rparr>" 7]
    by (simp add: Enqueue_admit_def start_system_def one_queue_def one_waiting_def)
  then show ?thesis by (rule queue_reachable.step [OF a])
qed

lemma one_slotted_reachable: "queue_reachable 1 one_slotted"
proof (rule queue_reachable.step [OF one_waiting_reachable])
  show "queue_step TakeSlot one_waiting one_slotted"
    using queue_step.slot [of 7 one_waiting "one_queue\<lparr>dq_slots := 0, dq_admissions := 1\<rparr>"]
    by (simp add: take_slot_def start_system_def one_queue_def one_slotted_def one_waiting_def)
qed

theorem queue_fifo_and_never_stuck_witness:
  "sy_accepted one_slotted = sy_handed one_slotted @ dq_items (sy_queue one_slotted)
   \<and> (\<exists>q. recordAccepted 7 0 0 (sy_queue one_slotted) = Sent q)"
  using queue_fifo_and_never_stuck [OF one_slotted_reachable, of 7 0 0] by (simp add: one_slotted_def)

section \<open>Sealing ends\<close>

text \<open>
  The steps that the first \<^verbatim>\<open>Seal\<close> and the admitted calls it waits for take of themselves. A cancellation
  is not among them: whether a context ends is up to its owner.
\<close>

definition awaited :: "queue_action \<Rightarrow> bool" where
  "awaited a \<longleftrightarrow> a \<in> {TakeSlot, SealedOut, CountRejection, Accept, SignOff, CloseItems, CloseDone}"

definition sealing :: "'d queue_system \<Rightarrow> bool" where
  "sealing s \<longleftrightarrow> sy_sealer s = AwaitsAdmissions \<or> sy_sealer s = ClosesDone"

definition seal_rest :: "'d queue_system \<Rightarrow> nat" where
  "seal_rest s = (if sy_sealer s = AwaitsAdmissions then 2 else if sy_sealer s = ClosesDone then 1 else 0)"

definition to_finish :: "'d queue_system \<Rightarrow> nat" where
  "to_finish s = 3 * size (sy_waiting s) + 2 * size (sy_slotted s) + 2 * sy_abandoning s + sy_leaving s + seal_rest s"

text \<open>A run may stutter; it is weakly fair when awaited steps that stay enabled are taken at some time.\<close>

definition queue_run :: "(nat \<Rightarrow> 'd queue_system) \<Rightarrow> (nat \<Rightarrow> queue_action option) \<Rightarrow> bool" where
  "queue_run r act \<longleftrightarrow>
     (\<forall>i. case act i of None \<Rightarrow> r (Suc i) = r i | Some a \<Rightarrow> queue_step a (r i) (r (Suc i)))"

definition can_finish :: "'d queue_system \<Rightarrow> bool" where
  "can_finish s \<longleftrightarrow> (\<exists>a s'. awaited a \<and> queue_step a s s')"

definition weakly_fair :: "(nat \<Rightarrow> 'd queue_system) \<Rightarrow> (nat \<Rightarrow> queue_action option) \<Rightarrow> bool" where
  "weakly_fair r act \<longleftrightarrow>
     (\<forall>i. (\<forall>j\<ge>i. can_finish (r j)) \<longrightarrow> (\<exists>j\<ge>i. \<exists>a. act j = Some a \<and> awaited a))"

lemma sealing_step:
  assumes "queue_step a s s'" and "queue_invariant capacity s" and "sealing s"
  shows "to_finish s' \<le> to_finish s" and "awaited a \<Longrightarrow> to_finish s' < to_finish s"
    and "sealing s' \<or> sy_sealer s' = SealReturned"
proof -
  have "dq_sealed (sy_queue s)" using assms(2,3) by (auto simp: queue_invariant_def Let_def seal_flags_def sealing_def)
  have "to_finish s' \<le> to_finish s \<and> (awaited a \<longrightarrow> to_finish s' < to_finish s) \<and> (sealing s' \<or> sy_sealer s' = SealReturned)"
    using assms(1) \<open>dq_sealed (sy_queue s)\<close> assms(3)
    by (induction rule: queue_step.induct)
      (auto simp: to_finish_def seal_rest_def sealing_def awaited_def section_defs split: if_splits dest!: multi_member_split)
  then show "to_finish s' \<le> to_finish s" "awaited a \<Longrightarrow> to_finish s' < to_finish s" "sealing s' \<or> sy_sealer s' = SealReturned"
    by blast+
qed

lemma sealing_can_finish:
  assumes "queue_invariant capacity s" and "sealing s"
  shows "can_finish s"
proof -
  note steps = queue_step.sealed_out [of _ s] queue_step.count_rejection [of s] queue_step.sign_off [of s] queue_step.close_done [of s]
  have "dq_seal (sy_queue s)" using assms by (auto simp: queue_invariant_def Let_def sealing_def seal_flags_def)
  then consider (waits) d where "d \<in># sy_waiting s" "dq_seal (sy_queue s)" | (slotted) d where "d \<in># sy_slotted s"
    | (abandons) "0 < sy_abandoning s" | (leaves) "0 < sy_leaving s" | (closes) "sy_sealer s = ClosesDone"
    | (items) "sy_sealer s = AwaitsAdmissions" "dq_admissions (sy_queue s) = 0"
    using assms by (auto simp: sealing_def queue_invariant_def Let_def)
  then show ?thesis
  proof cases
    case (slotted d)
    then have "sy_slotted s \<noteq> {#}" by auto
    from accept_possible [OF assms(1) this] obtain q where "recordAccepted d 0 0 (sy_queue s) = Sent q" by blast
    from queue_step.accept [OF slotted this] show ?thesis by (auto simp: can_finish_def awaited_def)
  next
    case items
    then have "Seal_close_items (sy_queue s) = Some ((sy_queue s)\<lparr>dq_itemsClosed := True\<rparr>)" by (simp add: Seal_close_items_def)
    from queue_step.close_items [OF items(1) this] show ?thesis by (auto simp: can_finish_def awaited_def)
  qed (use steps in \<open>auto simp: can_finish_def awaited_def\<close>)
qed

lemma queue_run_invariant: "queue_run r act \<Longrightarrow> queue_invariant capacity (r 0) \<Longrightarrow> queue_invariant capacity (r i)"
proof (induction i)
  case (Suc i)
  from Suc.prems(1) have "case act i of None \<Rightarrow> r (Suc i) = r i | Some a \<Rightarrow> queue_step a (r i) (r (Suc i))"
    by (simp add: queue_run_def)
  then show ?case using queue_invariant_step [OF _ Suc.IH [OF Suc.prems]] Suc.IH [OF Suc.prems] by (cases "act i") auto
qed

lemma queue_run_sealing:
  assumes "queue_run r act" and "queue_invariant capacity (r 0)" and "sealing (r i)"
  shows "to_finish (r (Suc i)) \<le> to_finish (r i)" and "act i = Some a \<Longrightarrow> awaited a \<Longrightarrow> to_finish (r (Suc i)) < to_finish (r i)"
    and "sealing (r (Suc i)) \<or> sy_sealer (r (Suc i)) = SealReturned"
proof -
  have i: "queue_invariant capacity (r i)" using assms(1,2) by (rule queue_run_invariant)
  have s: "case act i of None \<Rightarrow> r (Suc i) = r i | Some a \<Rightarrow> queue_step a (r i) (r (Suc i))" using assms(1) by (simp add: queue_run_def)
  show "to_finish (r (Suc i)) \<le> to_finish (r i)" "sealing (r (Suc i)) \<or> sy_sealer (r (Suc i)) = SealReturned"
    using s sealing_step(1,3) [OF _ i assms(3)] assms(3) by (cases "act i"; auto)+
  show "to_finish (r (Suc i)) < to_finish (r i)" if "act i = Some a" "awaited a"
    using s that sealing_step(2) [OF _ i assms(3)] by simp
qed

lemma seal_returns:
  assumes "queue_run r act" and "weakly_fair r act" and "queue_invariant capacity (r 0)"
  shows "sealing (r i) \<Longrightarrow> \<exists>n. sy_sealer (r n) = SealReturned"
proof (induction "to_finish (r i)" arbitrary: i rule: less_induct)
  case less
  show ?case
  proof (rule ccontr)
    assume never: "\<nexists>n. sy_sealer (r n) = SealReturned"
    have all: "sealing (r j) \<and> to_finish (r j) \<le> to_finish (r i)" if "i \<le> j" for j
      using that
    proof (induction j rule: dec_induct)
      case base
      then show ?case using less.prems by simp
    next
      case (step j)
      then show ?case using queue_run_sealing [OF assms(1,3), of j] never by (meson order_trans)
    qed
    then have "\<forall>j\<ge>i. can_finish (r j)"
      using sealing_can_finish queue_run_invariant [OF assms(1,3)] by blast
    then obtain j a where j: "i \<le> j" "act j = Some a" "awaited a" using assms(2) by (auto simp: weakly_fair_def)
    then have "to_finish (r (Suc j)) < to_finish (r i)"
      using queue_run_sealing(2) [OF assms(1,3), of j a] all [of j] by fastforce
    from less.hyps [OF this] all [of "Suc j"] j(1) never show False by simp
  qed
qed

text \<open>
  Claim C38. Sealing ends: in every weakly fair run from a state in which \<^verbatim>\<open>Seal\<close> waits for the admitted calls,
  however the other calls interleave and without relying on a cancelled context, \<^verbatim>\<open>Seal\<close> closes both channels.
\<close>

theorem seal_completes:
  assumes "queue_reachable capacity (r 0)" and "sy_sealer (r 0) = AwaitsAdmissions"
    and "queue_run r act" and "weakly_fair r act"
  shows "\<exists>n. dq_itemsClosed (sy_queue (r n)) \<and> dq_sealDone (sy_queue (r n))"
proof -
  have i: "queue_invariant (nat capacity) (r 0)" using assms(1) by (rule queue_reachable_invariant)
  obtain n where "sy_sealer (r n) = SealReturned"
    using seal_returns [OF assms(3,4) i, of 0] assms(2) by (auto simp: sealing_def)
  then show ?thesis using queue_run_invariant [OF assms(3) i, of n] by (auto simp: queue_invariant_def Let_def seal_flags_def)
qed

text \<open>A call waits in the \<^verbatim>\<open>select\<close> while the queue is sealed: it is sealed out, signs off, and \<^verbatim>\<open>Seal\<close> returns.\<close>

definition sealed_queue :: "nat \<Rightarrow> u64 \<Rightarrow> nat DeliveryQueue" where
  "sealed_queue admissions rejected =
     one_queue\<lparr>dq_sealed := True, dq_seal := True, dq_admissions := admissions, dq_rejectedTotal := rejected\<rparr>"

definition sealed_system :: "nat DeliveryQueue \<Rightarrow> seal_phase \<Rightarrow> nat queue_system" where
  "sealed_system q phase = (start_system q)\<lparr>sy_sealer := phase\<rparr>"

definition sealing_states :: "nat queue_system list" where
  "sealing_states =
     [(sealed_system (sealed_queue 1 0) AwaitsAdmissions)\<lparr>sy_waiting := {#7#}\<rparr>,
      (sealed_system (sealed_queue 1 0) AwaitsAdmissions)\<lparr>sy_abandoning := 1\<rparr>,
      (sealed_system (sealed_queue 1 1) AwaitsAdmissions)\<lparr>sy_leaving := 1\<rparr>,
      sealed_system (sealed_queue 0 1) AwaitsAdmissions,
      sealed_system ((sealed_queue 0 1)\<lparr>dq_itemsClosed := True\<rparr>) ClosesDone,
      sealed_system ((sealed_queue 0 1)\<lparr>dq_itemsClosed := True, dq_sealDone := True\<rparr>) SealReturned]"

definition sealing_run :: "nat \<Rightarrow> nat queue_system" where
  "sealing_run n = sealing_states ! min n 5"

definition sealing_actions :: "nat \<Rightarrow> queue_action option" where
  "sealing_actions n = [Some SealedOut, Some CountRejection, Some SignOff, Some CloseItems, Some CloseDone, None] ! min n 5"

lemmas sealing_defs = sealing_states_def sealed_system_def sealed_queue_def one_queue_def start_system_def

lemma sealing_steps:
  "queue_step SealedOut (sealing_states ! 0) (sealing_states ! 1)"
  "queue_step CountRejection (sealing_states ! 1) (sealing_states ! 2)"
  "queue_step SignOff (sealing_states ! 2) (sealing_states ! 3)"
  "queue_step CloseItems (sealing_states ! 3) (sealing_states ! 4)"
  "queue_step CloseDone (sealing_states ! 4) (sealing_states ! 5)"
  using queue_step.sealed_out [of 7 "sealing_states ! 0"] queue_step.count_rejection [of "sealing_states ! 1"]
    queue_step.sign_off [of "sealing_states ! 2"] queue_step.close_done [of "sealing_states ! 4"]
    queue_step.close_items [of "sealing_states ! 3" "(sealed_queue 0 1)\<lparr>dq_itemsClosed := True\<rparr>"]
  by (simp_all add: sealing_defs recordRejected_def admission_done_def Seal_close_items_def Seal_close_done_def)

lemma sealing_run_is_run: "queue_run sealing_run sealing_actions"
  unfolding queue_run_def
proof
  fix i :: nat
  consider "i = 0" | "i = 1" | "i = 2" | "i = 3" | "i = 4" | "5 \<le> i" by linarith
  then show "case sealing_actions i of None \<Rightarrow> sealing_run (Suc i) = sealing_run i
      | Some a \<Rightarrow> queue_step a (sealing_run i) (sealing_run (Suc i))"
    by cases (use sealing_steps in \<open>simp_all add: sealing_run_def sealing_actions_def min_def numeral_eq_Suc\<close>)
qed

lemma sealing_run_fair: "weakly_fair sealing_run sealing_actions"
proof -
  have "\<not> can_finish (sealing_states ! 5)"
    by (auto simp: can_finish_def awaited_def sealing_defs elim: queue_stepE)
  then have "\<not> can_finish (sealing_run (max i 5))" for i by (simp add: sealing_run_def)
  then show ?thesis unfolding weakly_fair_def by (meson max.cobounded1)
qed

theorem seal_completes_witness:
  "\<exists>n. dq_itemsClosed (sy_queue (sealing_run n)) \<and> dq_sealDone (sy_queue (sealing_run n))"
proof (rule seal_completes [OF _ _ sealing_run_is_run sealing_run_fair])
  have "queue_step BeginSeal one_waiting (sealing_states ! 0)"
    using queue_step.begin_seal [of one_waiting "sealed_queue 1 0"]
    by (simp add: Seal_begin_def one_waiting_def sealing_defs)
  then show "queue_reachable 1 (sealing_run 0)"
    using queue_reachable.step [OF one_waiting_reachable] by (simp add: sealing_run_def)
  show "sy_sealer (sealing_run 0) = AwaitsAdmissions" by (simp add: sealing_run_def sealing_defs)
qed

end
