(* ===== verification/Spec2Isabelle.thy ===== *)
theory Spec2Isabelle
  imports Core_Policy Policy_Resolution Decision_Memory Intent_Resolution Detection_Ledger Checkpoint Observed_State Enforcer Ipc_Frame Reconcile_Stale Delivery_Queue
begin

text \<open>
  \<^bold>\<open>Guard Wall.\<close> The program is a host protection system: an unprivileged agent reads log sources,
  detects attacks, keeps ban decisions in SQLite and reconciles them with the firewall through a
  privileged enforcer, to which it talks over a closed IPC protocol. This library models the parts
  that decide what is banned, what counts as processed and what the privileged process may do.

  \<^bold>\<open>How the parts interact.\<close> A source delivers records (\<^verbatim>\<open>internal/source\<close>); the processor parses
  them, counts detections in a ledger (\<^verbatim>\<open>internal/detection\<close>) and writes decisions
  (\<^verbatim>\<open>internal/decision\<close>); the durable completions advance the checkpoint of the source. The active
  decisions of a target are aggregated into a projection, the managed policy is resolved against the
  target, and both give the enforcement intent with its generation (\<^verbatim>\<open>internal/enforcement\<close>). The
  enforcer observes the firewall, authorises one mutation against the observed snapshot and answers
  with a correlated response (\<^verbatim>\<open>internal/firewall\<close>, \<^verbatim>\<open>internal/ipc\<close>, \<^verbatim>\<open>internal/enforcer\<close>). On the side
  of the agent the reconcile controller (\<^verbatim>\<open>internal/reconcile\<close>) drives the firewall towards the desired
  state, with a bounded number of attempts per key and probes after ambiguous results.

  \<^bold>\<open>Theories.\<close>
  \<^item> \<^verbatim>\<open>Prelude\<close>: machine integers, \<^verbatim>\<open>time.Time\<close>, UTF-8, results, list lemmas.
  \<^item> \<^verbatim>\<open>Netip\<close>, \<^verbatim>\<open>Netip_Text\<close>, \<^verbatim>\<open>Netip_Parse\<close>: \<^verbatim>\<open>net/netip\<close> addresses and prefixes, their text and its
    inverse. \<^verbatim>\<open>Digest\<close>: SHA-256, hexadecimal and base32. \<^verbatim>\<open>Json\<close>: \<^verbatim>\<open>encoding/json\<close>, with the proof that
    parsing inverts marshalling.
  \<^item> \<^verbatim>\<open>Identity\<close>, \<^verbatim>\<open>Core_Model\<close>, \<^verbatim>\<open>Core_Decision\<close>, \<^verbatim>\<open>Core_Policy\<close>, \<^verbatim>\<open>Observed_State\<close>: the types of
    \<^verbatim>\<open>internal/core\<close> with their \<^verbatim>\<open>Validate\<close> methods and constructors. A record has the fields of the
    struct with a prefix, an optional pointer is an option, an enumeration is a datatype whose last
    constructor holds every other value.
  \<^item> \<^verbatim>\<open>Policy_Resolution\<close>, \<^verbatim>\<open>Projection\<close>, \<^verbatim>\<open>Decision_Memory\<close>: \<^verbatim>\<open>internal/decision\<close>: union coverage,
    aggregation and the in-memory service as atomic calls on a list of decisions.
  \<^item> \<^verbatim>\<open>Intent_Resolution\<close>: \<^verbatim>\<open>internal/enforcement/intent.go\<close>.
  \<^item> \<^verbatim>\<open>Detection_Ledger\<close>: \<^verbatim>\<open>internal/detection/window.go\<close>; concurrent calls are a step relation whose
    steps are the critical sections.
  \<^item> \<^verbatim>\<open>Checkpoint\<close>: \<^verbatim>\<open>internal/source/checkpoint.go\<close>; completions and flushes interleave as events.
  \<^item> \<^verbatim>\<open>Firewall_Model\<close>, \<^verbatim>\<open>Firewall_Snapshot\<close>, \<^verbatim>\<open>Firewall_Mutation\<close>: \<^verbatim>\<open>internal/firewall\<close>.
  \<^item> \<^verbatim>\<open>Ipc_Message\<close>: requests and mutation responses of \<^verbatim>\<open>internal/ipc\<close>. \<^verbatim>\<open>Json_Scan\<close>, \<^verbatim>\<open>Ipc_Codec\<close>,
    \<^verbatim>\<open>Ipc_Roundtrip\<close>: their token scan, JSON encoders and decoders. \<^verbatim>\<open>Ipc_Frame\<close>: the length-prefixed
    frames over an abstract writer; the locale \<open>framed_codec\<close> is interpreted on the four codecs.
  \<^item> \<^verbatim>\<open>Enforcer\<close>: the bridge and the executor of \<^verbatim>\<open>internal/enforcer\<close> over a backend parameter.
  \<^item> \<^verbatim>\<open>Reconcile_Model\<close>, \<^verbatim>\<open>Reconcile_State\<close>: plans, retry ledgers and the controller's state, with the
    publication of a desired snapshot and the recovery from the store. \<^verbatim>\<open>Reconcile_Controller\<close>,
    \<^verbatim>\<open>Reconcile_Execute\<close>, \<^verbatim>\<open>Reconcile_Recovery\<close>: the operations of \<^verbatim>\<open>controller.go\<close>, \<^verbatim>\<open>persistence.go\<close> and
    \<^verbatim>\<open>observed_state.go\<close> in the state monad, over a record of the calls they make to the outside. A log
    of these calls is the only addition to the state. \<^verbatim>\<open>Reconcile_Logic\<close>, \<^verbatim>\<open>Reconcile_Attempts\<close>: what the
    operations keep, as three locales of which each extends the one before. \<^verbatim>\<open>Reconcile_Runs\<close>,
    \<^verbatim>\<open>Reconcile_Claims\<close>: runs of any operations, and the three interpretations. \<^verbatim>\<open>Reconcile_Progress\<close>: the
    successful path of \<^verbatim>\<open>Execute\<close> with or without a store and a fresh basis. \<^verbatim>\<open>Reconcile_Stale\<close>: its stale
    path, on which a probe stays pending in the controller although its durable requirement is deleted.
  \<^item> \<^verbatim>\<open>Delivery_Queue\<close>: \<^verbatim>\<open>internal/source/queue.go\<close>; the steps, labelled by their action, are its critical
    sections and channel operations.

  \<^bold>\<open>What the lemmas show.\<close> Identities and digest texts are injective. Validation methods accept exactly
  the documented combinations, and constructors are canonical: their result does not depend on the
  order of their input. Policy resolution computes exact set coverage, the projection refines its
  specification, and a generation advances exactly when an intent changes. The decision service keeps
  its uniqueness invariant, the ledger its counts, exclusivity and freedom from deadlock, and a saved
  checkpoint never skips a delivery and catches up. The enforcer authorises only what was just
  observed, never touches a loopback, always answers, and a rejection means that nothing changed.
  Requests and responses survive their encoding and their frames, and a cut frame is refused. In every
  run of the controller the attempts of a ledger key stay within the budget, a confirmed target was
  seen by a probe, and the desired state only moves forward; an attempt that its environment lets through
  converges. The queue keeps the order of acceptance, its sends never block or hit a closed channel, and
  every weakly fair run in which a call of \<^verbatim>\<open>Seal\<close> waits closes both channels.

  \<^bold>\<open>Loops and bounds.\<close> Every loop is a total function: structural recursion, or a measure such as the
  distance to the last sequence number. The JSON parser has fuel equal to the length of its input,
  which is enough because a nested value has an opening and a closing byte; the scanner, which also
  reports where it fails, has twice as much. Counters and sequence numbers are 64-bit words
  and their limits are handled as in the source; instants are unbounded integers of nanoseconds.

  \<^bold>\<open>Not modelled.\<close> SQL and its object mapper, sockets, processes, configuration files, logging, mail
  and the \<^verbatim>\<open>nft\<close> command are input and output or third-party code. The dispatcher and the runtimes of
  \<^verbatim>\<open>internal/reconcile\<close> and \<^verbatim>\<open>internal/processor\<close> are goroutines and timers around the modelled
  operations. The transactional decision services and the read-only IPC responses are pure enough to be
  modelled and are the next parts to add. The digests of a plan and of a snapshot in the reconcile port
  are parameters; the attempt budget is proved for the controller without a store, because what a store
  returns at a reload is a parameter too. Nil receivers and nil contexts are not values of the model.
  SHA-256 is defined but nothing is proved about its collisions: digest theorems are stated on the text
  that is hashed.
\<close>

end
